(* ===== verification/Prelude.thy ===== *)
theory Prelude
  imports Main "HOL-Library.Word" "HOL-Library.Monad_Syntax" "HOL-Library.Sublist"
begin

text \<open>
  Shared vocabulary of the development: machine-integer types, byte strings, the checked
  slice and index operations of Go (a run-time panic is the value \<open>None\<close>), ASCII string
  helpers of the \<open>strings\<close> and \<open>bytes\<close> packages, and the collections of simplification
  rules the component theories add to.
\<close>

named_theorems go_simps \<open>equations that unfold the checked Go primitives\<close>
named_theorems inv_simps \<open>definitions of component invariants\<close>

type_synonym u8 = "8 word"
type_synonym u16 = "16 word"
type_synonym u32 = "32 word"
type_synonym u64 = "64 word"
type_synonym bytes = "u8 list"

subsection \<open>Byte strings\<close>

text \<open>\<open>[]byte("...")\<close>: the bytes of an ASCII literal.\<close>

definition bytes_of :: "string \<Rightarrow> bytes" where
  "bytes_of s = map of_char s"

lemma length_bytes_of [simp]: "length (bytes_of s) = length s"
  by (simp add: bytes_of_def)

subsection \<open>Checked slices and indices\<close>

text \<open>\<open>b[i:j]\<close> and \<open>b[i]\<close>; out of range is a panic, written \<open>None\<close>.\<close>

definition gslice :: "'a list \<Rightarrow> nat \<Rightarrow> nat \<Rightarrow> 'a list option" where
  "gslice b i j = (if i \<le> j \<and> j \<le> length b then Some (take (j - i) (drop i b)) else None)"

definition gidx :: "'a list \<Rightarrow> nat \<Rightarrow> 'a option" where
  "gidx b i = (if i < length b then Some (b ! i) else None)"

lemma gslice_in_range [go_simps]:
  "i \<le> j \<Longrightarrow> j \<le> length b \<Longrightarrow> gslice b i j = Some (take (j - i) (drop i b))"
  by (simp add: gslice_def)

lemma gidx_in_range [go_simps]: "i < length b \<Longrightarrow> gidx b i = Some (b ! i)"
  by (simp add: gidx_def)

lemma gslice_SomeD:
  "gslice b i j = Some xs \<Longrightarrow> i \<le> j \<and> j \<le> length b \<and> xs = take (j - i) (drop i b)"
  by (simp add: gslice_def split: if_splits)

lemma gslice_length: "gslice b i j = Some xs \<Longrightarrow> length xs = j - i"
  by (auto dest: gslice_SomeD)

subsection \<open>Prefixes\<close>

definition has_prefix :: "'a list \<Rightarrow> 'a list \<Rightarrow> bool" where
  "has_prefix s p \<longleftrightarrow> take (length p) s = p"

lemma has_prefix_iff: "has_prefix s p \<longleftrightarrow> (\<exists>r. s = p @ r)"
  by (metis append_eq_conv_conj append_take_drop_id has_prefix_def)

lemma has_prefix_append [simp]: "has_prefix (p @ r) p"
  by (simp add: has_prefix_def)

subsection \<open>Keyed rows\<close>

lemma find_by_key: "distinct (map f xs) \<Longrightarrow> x \<in> set xs \<Longrightarrow> find (\<lambda>y. f y = f x) xs = Some x"
  by (induction xs) auto

lemma find_append:
  "find P (xs @ ys) = (case find P xs of Some x \<Rightarrow> Some x | None \<Rightarrow> find P ys)"
  by (induction xs) auto

end
