(* ===== verification/Frontend.thy ===== *)
theory Frontend
  imports Prelude
begin

text \<open>
  The browser client under \<open>src/frontend\<close>: \<open>api.ts\<close> (requests, response decoding,
  \<open>ApiError\<close>) and \<open>App.tsx\<close> (the React component). Strings are JavaScript strings, lists of
  16-bit code units. The component is a state machine: its state variables, the browser's
  local storage, the interval timers and the pending promises form one record, every event
  handler and effect body is a definition, and the React runtime that re-runs effects whose
  dependencies changed is the parameter \<open>flush\<close> with the contract \<open>react_runtime\<close>.
\<close>

subsection \<open>JavaScript strings\<close>

type_synonym jsstring = "u16 list"

definition js :: "string \<Rightarrow> jsstring" where
  "js s = map of_char s"

text \<open>\<open>String.prototype.trim\<close>: white space and line terminators of ECMA-262.\<close>

definition is_js_space :: "u16 \<Rightarrow> bool" where
  "is_js_space c \<longleftrightarrow> c \<in> set [0x9, 0xA, 0xB, 0xC, 0xD, 0x20, 0xA0, 0x1680, 0x2000, 0x2001,
     0x2002, 0x2003, 0x2004, 0x2005, 0x2006, 0x2007, 0x2008, 0x2009, 0x200A, 0x2028, 0x2029,
     0x202F, 0x205F, 0x3000, 0xFEFF]"

definition jtrim :: "jsstring \<Rightarrow> jsstring" where
  "jtrim s = rev (dropWhile is_js_space (rev (dropWhile is_js_space s)))"

text \<open>\<open>String.prototype.includes\<close>.\<close>

definition str_includes :: "jsstring \<Rightarrow> jsstring \<Rightarrow> bool" where
  "str_includes s t \<longleftrightarrow> sublist t s"

subsection \<open>JavaScript values\<close>

text \<open>
  The values a response body can have. A number carries its \<open>String()\<close> rendering and whether
  it is zero, which is all the client observes of it.
\<close>

datatype jsval =
    JUndefined
  | JNull
  | JBool bool
  | JNum jsstring bool
  | JStr jsstring
  | JArr "jsval list"
  | JObj "(jsstring \<times> jsval) list"

text \<open>Truthiness, as in \<open>!job\<close>, \<open>job && ...\<close> and \<open>a || b\<close>.\<close>

fun truthy :: "jsval \<Rightarrow> bool" where
  "truthy JUndefined = False"
| "truthy JNull = False"
| "truthy (JBool b) = b"
| "truthy (JNum r z) = (\<not> z)"
| "truthy (JStr s) = (s \<noteq> [])"
| "truthy (JArr xs) = True"
| "truthy (JObj kvs) = True"

text \<open>Property access \<open>v.k\<close> on a value that is not \<open>null\<close> or \<open>undefined\<close>.\<close>

fun get_prop :: "jsval \<Rightarrow> string \<Rightarrow> jsval" where
  "get_prop (JObj kvs) k = (case map_of kvs (js k) of Some v \<Rightarrow> v | None \<Rightarrow> JUndefined)"
| "get_prop v k = JUndefined"

text \<open>\<open>k in v\<close> for an object value.\<close>

fun has_prop :: "jsval \<Rightarrow> string \<Rightarrow> bool" where
  "has_prop (JObj kvs) k = (map_of kvs (js k) \<noteq> None)"
| "has_prop v k = False"

text \<open>\<open>String(v)\<close>; array elements are joined with commas, null and undefined ones empty.\<close>

fun comma_join :: "jsstring list \<Rightarrow> jsstring" where
  "comma_join [] = []"
| "comma_join [x] = x"
| "comma_join (x # y # ys) = x @ js '','' @ comma_join (y # ys)"

fun to_js_string :: "jsval \<Rightarrow> jsstring" where
  "to_js_string JUndefined = js ''undefined''"
| "to_js_string JNull = js ''null''"
| "to_js_string (JBool b) = js (if b then ''true'' else ''false'')"
| "to_js_string (JNum r z) = r"
| "to_js_string (JStr s) = s"
| "to_js_string (JArr xs) =
     comma_join (map (\<lambda>v. if v = JUndefined \<or> v = JNull then [] else to_js_string v) xs)"
| "to_js_string (JObj kvs) = js ''[object Object]''"

subsection \<open>api.ts\<close>

datatype TargetFormat = Webp | Jpg | Png | Tiff | Heic

definition targetFormats :: "TargetFormat list" where
  "targetFormats = [Webp, Jpg, Png, Tiff, Heic]"

fun targetFormat_text :: "TargetFormat \<Rightarrow> string" where
  "targetFormat_text Webp = ''webp''"
| "targetFormat_text Jpg = ''jpg''"
| "targetFormat_text Png = ''png''"
| "targetFormat_text Tiff = ''tiff''"
| "targetFormat_text Heic = ''heic''"

text \<open>
  What a rejected promise or a \<open>throw\<close> carries: an \<open>ApiError\<close> with its status and message,
  another \<open>Error\<close> with its message, or a value that is no \<open>Error\<close>.
\<close>

datatype jserror = ApiError nat jsstring | PlainError jsstring | NotAnError

text \<open>
  A fetch response: \<open>resp_json\<close> is what \<open>response.json()\<close> gives (\<open>Inl\<close>: the message of its
  syntax error), \<open>resp_text\<close> what \<open>response.text()\<close> gives.
\<close>

record response =
  resp_status :: nat
  resp_statusText :: jsstring
  resp_contentType :: "jsstring option"
  resp_json :: "jsstring + jsval"
  resp_text :: jsstring

definition resp_ok :: "response \<Rightarrow> bool" where
  "resp_ok r \<longleftrightarrow> 200 \<le> resp_status r \<and> resp_status r \<le> 299"

definition is_object :: "jsval \<Rightarrow> bool" where
  "is_object v \<longleftrightarrow> (case v of JObj _ \<Rightarrow> True | JArr _ \<Rightarrow> True | JNull \<Rightarrow> True | _ \<Rightarrow> False)"

definition parseResponse :: "response \<Rightarrow> jserror + jsval" where
  "parseResponse r =
     (let contentType = (case resp_contentType r of Some c \<Rightarrow> c | None \<Rightarrow> []);
          body = (if str_includes contentType (js ''application/json'') then resp_json r
                  else Inr (JStr (resp_text r)))
      in case body of
           Inl msg \<Rightarrow> Inl (PlainError msg)
         | Inr v \<Rightarrow>
             if \<not> resp_ok r then
               (let message =
                  (if is_object v \<and> v \<noteq> JNull \<and> has_prop v ''error''
                   then to_js_string (get_prop v ''error'')
                   else if resp_statusText r \<noteq> [] then resp_statusText r
                   else js ''Request failed'')
                in Inl (ApiError (resp_status r) message))
             else Inr v)"

definition authHeaders :: "jsstring \<Rightarrow> jsstring" where
  "authHeaders apiKey = js ''ApiKey '' @ apiKey"

text \<open>\<open>encodeURIComponent\<close>: unreserved characters stand for themselves, everything else is
  percent-encoded UTF-8, and a lone surrogate throws \<open>URIError\<close> (\<open>None\<close>).\<close>

definition uri_unreserved :: "u16 \<Rightarrow> bool" where
  "uri_unreserved c \<longleftrightarrow> (0x41 \<le> c \<and> c \<le> 0x5A) \<or> (0x61 \<le> c \<and> c \<le> 0x7A) \<or> (0x30 \<le> c \<and> c \<le> 0x39)
     \<or> c \<in> set (js ''-_.!~*'') \<or> c = 0x27 \<or> c = 0x28 \<or> c = 0x29"

definition utf8 :: "nat \<Rightarrow> nat list" where
  "utf8 cp =
     (if cp < 0x80 then [cp]
      else if cp < 0x800 then [0xC0 + cp div 0x40, 0x80 + cp mod 0x40]
      else if cp < 0x10000 then
        [0xE0 + cp div 0x1000, 0x80 + cp div 0x40 mod 0x40, 0x80 + cp mod 0x40]
      else [0xF0 + cp div 0x40000, 0x80 + cp div 0x1000 mod 0x40, 0x80 + cp div 0x40 mod 0x40,
        0x80 + cp mod 0x40])"

definition hex_digit :: "nat \<Rightarrow> u16" where
  "hex_digit d = of_nat (if d < 10 then 0x30 + d else 0x37 + d)"

definition pct :: "nat \<Rightarrow> jsstring" where
  "pct b = [0x25, hex_digit (b div 16), hex_digit (b mod 16)]"

definition is_high_surrogate :: "u16 \<Rightarrow> bool" where
  "is_high_surrogate c \<longleftrightarrow> 0xD800 \<le> c \<and> c \<le> 0xDBFF"

definition is_low_surrogate :: "u16 \<Rightarrow> bool" where
  "is_low_surrogate c \<longleftrightarrow> 0xDC00 \<le> c \<and> c \<le> 0xDFFF"

text \<open>The code points of a string; \<open>None\<close> for a lone surrogate.\<close>

fun code_points :: "jsstring \<Rightarrow> nat list option" where
  "code_points [] = Some []"
| "code_points (c # cs) =
     (if is_low_surrogate c then None
      else if is_high_surrogate c then
        (case cs of
           [] \<Rightarrow> None
         | d # ds \<Rightarrow>
             if is_low_surrogate d then
               map_option ((#) ((unat c - 0xD800) * 0x400 + (unat d - 0xDC00) + 0x10000)) (code_points ds)
             else None)
      else map_option ((#) (unat c)) (code_points cs))"

definition encode_cp :: "nat \<Rightarrow> jsstring" where
  "encode_cp cp = (if cp < 0x80 \<and> uri_unreserved (of_nat cp) then [of_nat cp]
                   else concat (map pct (utf8 cp)))"

definition encodeURIComponent :: "jsstring \<Rightarrow> jsstring option" where
  "encodeURIComponent s = map_option (\<lambda>cps. concat (map encode_cp cps)) (code_points s)"

text \<open>The requests the client sends.\<close>

record request =
  req_method :: string
  req_url :: jsstring
  req_auth :: jsstring
  req_file :: "nat option"
  req_target :: "string option"

definition createJob_request :: "jsstring \<Rightarrow> nat \<Rightarrow> TargetFormat \<Rightarrow> request" where
  "createJob_request apiKey file target =
     \<lparr>req_method = ''POST'', req_url = js ''/v1/jobs'', req_auth = authHeaders apiKey,
      req_file = Some file, req_target = Some (targetFormat_text target)\<rparr>"

definition getJob_request :: "jsstring \<Rightarrow> jsval \<Rightarrow> request option" where
  "getJob_request apiKey jobId =
     map_option (\<lambda>p. \<lparr>req_method = ''GET'', req_url = js ''/v1/jobs/'' @ p,
                    req_auth = authHeaders apiKey, req_file = None, req_target = None\<rparr>)
       (encodeURIComponent (to_js_string jobId))"

subsection \<open>App.tsx: state\<close>

definition apiKeyStorageKey :: jsstring where
  "apiKeyStorageKey = js ''octoconv.apiKey''"

definition pollIntervalMs :: nat where
  "pollIntervalMs = 1800"

text \<open>A status code in a template literal.\<close>

fun show_nat :: "nat \<Rightarrow> jsstring" where
  "show_nat n = (if n < 10 then [0x30 + of_nat n] else show_nat (n div 10) @ [0x30 + of_nat (n mod 10)])"

declare show_nat.simps [simp del]

definition describeError :: "jserror \<Rightarrow> jsstring" where
  "describeError e =
     (case e of
        ApiError status message \<Rightarrow>
          (if status = 401 then js ''API key is missing, invalid, or revoked.''
           else if status = 413 then js ''The selected file exceeds the upload size limit.''
           else if status = 422 then
             (if message \<noteq> [] then message
              else js ''This source/target conversion is not supported.'')
           else if status = 429 then js ''Too many requests. Please wait and try again.''
           else if message \<noteq> [] then message
           else js ''Request failed with status '' @ show_nat status @ js ''.'')
      | PlainError message \<Rightarrow> message
      | NotAnError \<Rightarrow> js ''Unexpected error.'')"

text \<open>
  A value of the \<open>job\<close> state variable, with the identity \<open>Object.is\<close> compares: every decoded
  response is a fresh object.
\<close>

datatype jobval = JobVal (job_ident: nat) (job_value: jsval)

definition object_is :: "jobval \<Rightarrow> jobval \<Rightarrow> bool" where
  "object_is a b \<longleftrightarrow> job_value a = job_value b \<and>
     (is_object (job_value a) \<and> job_value a \<noteq> JNull \<longrightarrow> job_ident a = job_ident b)"

text \<open>One run of the polling effect: its generation and the variables its closure captured.\<close>

record poll_closure =
  pc_gen :: nat
  pc_key :: jsstring
  pc_jobId :: jsval

record app =
  apiKey :: jsstring
  rememberApiKey :: bool
  appFile :: "nat option"
  appTarget :: TargetFormat
  appJob :: jobval
  isSubmitting :: bool
  appError :: "jsstring option"
  localItem :: "jsstring option"        \<comment> \<open>the local-storage entry under \<open>apiKeyStorageKey\<close>\<close>
  generation :: nat                     \<comment> \<open>polling-effect runs so far\<close>
  pollCleanup :: "poll_closure option"  \<comment> \<open>cleanup registered by the last polling-effect run\<close>
  timers :: "poll_closure list"         \<comment> \<open>live intervals\<close>
  cancelled :: "nat list"               \<comment> \<open>generations whose \<open>cancelled\<close> flag is set\<close>
  polls :: "poll_closure list"          \<comment> \<open>\<open>getJob\<close> promises not yet settled\<close>
  submits :: nat                        \<comment> \<open>\<open>createJob\<close> promises not yet settled\<close>
  freshIdent :: nat
  sent :: "request list"

abbreviation jobv :: "app \<Rightarrow> jsval" where
  "jobv s \<equiv> job_value (appJob s)"

text \<open>The state before the first effects run, given the stored key.\<close>

definition App_initial :: "jsstring option \<Rightarrow> app" where
  "App_initial stored =
     \<lparr>apiKey = (case stored of Some k \<Rightarrow> k | None \<Rightarrow> []),
      rememberApiKey = (case stored of Some k \<Rightarrow> k \<noteq> [] | None \<Rightarrow> False),
      appFile = None, appTarget = Webp, appJob = JobVal 0 JNull, isSubmitting = False,
      appError = None, localItem = stored, generation = 0, pollCleanup = None, timers = [],
      cancelled = [], polls = [], submits = 0, freshIdent = 1, sent = []\<rparr>"

definition canSubmit :: "app \<Rightarrow> bool" where
  "canSubmit s \<longleftrightarrow> 0 < length (jtrim (apiKey s)) \<and> appFile s \<noteq> None \<and> \<not> isSubmitting s"

subsection \<open>App.tsx: effects\<close>

definition storageEffect :: "app \<Rightarrow> app" where
  "storageEffect s =
     (if rememberApiKey s \<and> jtrim (apiKey s) \<noteq> []
      then s\<lparr>localItem := Some (jtrim (apiKey s))\<rparr>
      else s\<lparr>localItem := None\<rparr>)"

text \<open>\<open>!job || job.status === 'done' || job.status === 'failed'\<close>\<close>

definition pollingStops :: "jsval \<Rightarrow> bool" where
  "pollingStops j \<longleftrightarrow> \<not> truthy j \<or> get_prop j ''status'' = JStr (js ''done'')
     \<or> get_prop j ''status'' = JStr (js ''failed'')"

definition pollEffect :: "app \<Rightarrow> app" where
  "pollEffect s =
     (if pollingStops (jobv s) then s\<lparr>pollCleanup := None\<rparr>
      else let c = \<lparr>pc_gen = generation s, pc_key = jtrim (apiKey s),
                    pc_jobId = get_prop (jobv s) ''job_id''\<rparr>
           in s\<lparr>generation := Suc (generation s), timers := timers s @ [c],
                pollCleanup := Some c\<rparr>)"

text \<open>The function the polling effect returned: set the flag, clear the interval.\<close>

definition runPollCleanup :: "app \<Rightarrow> app" where
  "runPollCleanup s =
     (case pollCleanup s of
        None \<Rightarrow> s
      | Some c \<Rightarrow> s\<lparr>cancelled := pc_gen c # cancelled s,
                    timers := filter (\<lambda>t. pc_gen t \<noteq> pc_gen c) (timers s),
                    pollCleanup := None\<rparr>)"

definition storageDepsChanged :: "app \<Rightarrow> app \<Rightarrow> bool" where
  "storageDepsChanged prev cur \<longleftrightarrow>
     apiKey prev \<noteq> apiKey cur \<or> rememberApiKey prev \<noteq> rememberApiKey cur"

definition pollDepsChanged :: "app \<Rightarrow> app \<Rightarrow> bool" where
  "pollDepsChanged prev cur \<longleftrightarrow>
     apiKey prev \<noteq> apiKey cur \<or> \<not> object_is (appJob prev) (appJob cur)"

text \<open>Mounting runs both effects.\<close>

definition App_mount :: "jsstring option \<Rightarrow> app" where
  "App_mount stored = pollEffect (storageEffect (App_initial stored))"

subsection \<open>App.tsx: handlers and promise continuations\<close>

definition setJob :: "jsval \<Rightarrow> app \<Rightarrow> app" where
  "setJob v s = s\<lparr>appJob := JobVal (freshIdent s) v, freshIdent := Suc (freshIdent s)\<rparr>"

definition onApiKeyChange :: "jsstring \<Rightarrow> app \<Rightarrow> app" where
  "onApiKeyChange v s = s\<lparr>apiKey := v\<rparr>"

definition onRememberChange :: "bool \<Rightarrow> app \<Rightarrow> app" where
  "onRememberChange v s = s\<lparr>rememberApiKey := v\<rparr>"

definition onFileChange :: "nat list \<Rightarrow> app \<Rightarrow> app" where
  "onFileChange files s = s\<lparr>appFile := (case files of f # _ \<Rightarrow> Some f | [] \<Rightarrow> None)\<rparr>"

definition onTargetChange :: "TargetFormat \<Rightarrow> app \<Rightarrow> app" where
  "onTargetChange t s = s\<lparr>appTarget := t\<rparr>"

text \<open>\<open>handleSubmit\<close> up to its \<open>await\<close>.\<close>

definition handleSubmit :: "app \<Rightarrow> app" where
  "handleSubmit s =
     (case appFile s of
        None \<Rightarrow> s\<lparr>appError := Some (js ''Choose a file to convert.'')\<rparr>
      | Some f \<Rightarrow>
          setJob JNull (s\<lparr>isSubmitting := True, appError := None, submits := Suc (submits s),
            sent := sent s @ [createJob_request (jtrim (apiKey s)) f (appTarget s)]\<rparr>))"

text \<open>\<open>handleSubmit\<close> after its \<open>await\<close>: the \<open>try\<close>, \<open>catch\<close> and \<open>finally\<close> parts.\<close>

definition submitSettled :: "jserror + jsval \<Rightarrow> app \<Rightarrow> app" where
  "submitSettled r s =
     (let s1 = (case r of
                  Inr createdJob \<Rightarrow> setJob createdJob s
                | Inl e \<Rightarrow> s\<lparr>appError := Some (describeError e)\<rparr>)
      in s1\<lparr>isSubmitting := False, submits := submits s1 - 1\<rparr>)"

text \<open>The interval callback up to its \<open>await\<close>, and after it.\<close>

definition timerFires :: "poll_closure \<Rightarrow> app \<Rightarrow> app" where
  "timerFires c s =
     s\<lparr>polls := polls s @ [c],
       sent := sent s @ (case getJob_request (pc_key c) (pc_jobId c) of Some q \<Rightarrow> [q] | None \<Rightarrow> [])\<rparr>"

definition pollSettled :: "poll_closure \<Rightarrow> jserror + jsval \<Rightarrow> app \<Rightarrow> app" where
  "pollSettled c r s =
     (let s1 = s\<lparr>polls := remove1 c (polls s)\<rparr>
      in if pc_gen c \<in> set (cancelled s) then s1
         else case r of
                Inr nextJob \<Rightarrow> (setJob nextJob s1)\<lparr>appError := None\<rparr>
              | Inl e \<Rightarrow> s1\<lparr>appError := Some (describeError e)\<rparr>)"

subsection \<open>App.tsx: what is rendered\<close>

text \<open>
  The result card: the job identifier, the status with its style class, the download link and
  the two error paragraphs. A child expression of the form \<open>v && element\<close> shows nothing for a
  falsy \<open>v\<close> other than a number, which JSON error and URL fields are not.
\<close>

record view =
  submit_disabled :: bool
  submit_label :: jsstring
  view_options :: "(string \<times> string) list"
  view_jobId :: "jsval option"
  view_status :: "jsval option"
  view_download :: "jsval option"
  view_failure :: "jsval option"
  view_error :: "jsstring option"

definition js_or :: "jsval \<Rightarrow> jsval \<Rightarrow> jsval" where
  "js_or a b = (if truthy a then a else b)"

fun upper_target :: "TargetFormat \<Rightarrow> string" where
  "upper_target Webp = ''WEBP''"
| "upper_target Jpg = ''JPG''"
| "upper_target Png = ''PNG''"
| "upper_target Tiff = ''TIFF''"
| "upper_target Heic = ''HEIC''"

definition App_render :: "app \<Rightarrow> view" where
  "App_render s =
     (let j = jobv s; shown = truthy j in
      \<lparr>submit_disabled = (\<not> canSubmit s),
       submit_label = (if isSubmitting s then js ''Uploading'' @ [0x2026] else js ''Convert''),
       view_options = map (\<lambda>f. (targetFormat_text f, upper_target f)) targetFormats,
       view_jobId = (if shown then Some (get_prop j ''job_id'') else None),
       view_status = (if shown then Some (get_prop j ''status'') else None),
       view_download = (if shown \<and> truthy (get_prop j ''download_url'')
                        then Some (get_prop j ''download_url'') else None),
       view_failure = (if shown \<and> get_prop j ''status'' = JStr (js ''failed'')
                       then Some (js_or (js_or (get_prop j ''error_message'') (get_prop j ''error_code''))
                                    (JStr (js ''Conversion failed.'')))
                       else None),
       view_error = (case appError s of Some e \<Rightarrow> if e \<noteq> [] then Some e else None | None \<Rightarrow> None)\<rparr>)"

subsection \<open>The component's steps\<close>

text \<open>
  A step is one browser event: its handler or continuation runs, React renders and then
  \<open>flush prev cur\<close> runs the effects. The form cannot be submitted while its only submit
  button is disabled; a promise settles at most once, with any result.
\<close>

inductive app_step :: "(app \<Rightarrow> app \<Rightarrow> app) \<Rightarrow> app \<Rightarrow> app \<Rightarrow> bool" for flush where
  key_change: "app_step flush s (flush s (onApiKeyChange v s))"
| remember_change: "app_step flush s (flush s (onRememberChange b s))"
| file_change: "app_step flush s (flush s (onFileChange fs s))"
| target_change: "app_step flush s (flush s (onTargetChange t s))"
| submit: "canSubmit s \<Longrightarrow> app_step flush s (flush s (handleSubmit s))"
| submit_done: "0 < submits s \<Longrightarrow> app_step flush s (flush s (submitSettled r s))"
| timer: "c \<in> set (timers s) \<Longrightarrow> app_step flush s (flush s (timerFires c s))"
| poll_done: "c \<in> set (polls s) \<Longrightarrow> app_step flush s (flush s (pollSettled c r s))"

inductive app_reachable :: "(app \<Rightarrow> app \<Rightarrow> app) \<Rightarrow> app \<Rightarrow> bool" for flush where
  mount: "app_reachable flush (App_mount stored)"
| step: "app_reachable flush s \<Longrightarrow> app_step flush s t \<Longrightarrow> app_reachable flush t"

text \<open>
  The documented behaviour of React's effects: after a render, an effect with changed
  dependencies is cleaned up and run again, and an effect with unchanged ones is left alone.
\<close>

locale react_runtime =
  fixes flush :: "app \<Rightarrow> app \<Rightarrow> app"
  assumes flush_none:
      "\<not> storageDepsChanged p s \<Longrightarrow> \<not> pollDepsChanged p s \<Longrightarrow> flush p s = s"
    and flush_storage:
      "storageDepsChanged p s \<Longrightarrow> \<not> pollDepsChanged p s \<Longrightarrow> flush p s = storageEffect s"
    and flush_poll:
      "\<not> storageDepsChanged p s \<Longrightarrow> pollDepsChanged p s \<Longrightarrow>
       flush p s = pollEffect (runPollCleanup s)"
    and flush_both:
      "storageDepsChanged p s \<Longrightarrow> pollDepsChanged p s \<Longrightarrow>
       flush p s = pollEffect (storageEffect (runPollCleanup s))"

definition expectedItem :: "app \<Rightarrow> jsstring option" where
  "expectedItem s =
     (if rememberApiKey s \<and> jtrim (apiKey s) \<noteq> [] then Some (jtrim (apiKey s)) else None)"

text \<open>The polling part of the invariant: what the registered cleanup is for.\<close>

definition closure_current :: "app \<Rightarrow> poll_closure \<Rightarrow> bool" where
  "closure_current s c \<longleftrightarrow> pc_key c = jtrim (apiKey s) \<and> pc_jobId c = get_prop (jobv s) ''job_id''
     \<and> pc_gen c < generation s \<and> pc_gen c \<notin> set (cancelled s)"

definition timers_ok :: "app \<Rightarrow> bool" where
  "timers_ok s \<longleftrightarrow> timers s = (case pollCleanup s of None \<Rightarrow> [] | Some c \<Rightarrow> [c])"

definition closure_ok :: "app \<Rightarrow> bool" where
  "closure_ok s \<longleftrightarrow>
     (case pollCleanup s of None \<Rightarrow> pollingStops (jobv s)
      | Some c \<Rightarrow> \<not> pollingStops (jobv s) \<and> closure_current s c)"

text \<open>Generations are never reused and only the current one is not cancelled.\<close>

definition gens_ok :: "app \<Rightarrow> bool" where
  "gens_ok s \<longleftrightarrow> (\<forall>g \<in> set (cancelled s). g < generation s)
     \<and> (\<forall>c \<in> set (polls s). pc_gen c \<in> set (cancelled s) \<or> pollCleanup s = Some c)"

definition submit_ok :: "app \<Rightarrow> bool" where
  "submit_ok s \<longleftrightarrow> submits s = (if isSubmitting s then 1 else 0)
     \<and> (isSubmitting s \<longrightarrow> jobv s = JNull) \<and> job_ident (appJob s) < freshIdent s"

definition app_inv :: "app \<Rightarrow> bool" where
  "app_inv s \<longleftrightarrow> localItem s = expectedItem s \<and> timers_ok s \<and> closure_ok s \<and> gens_ok s \<and> submit_ok s"

lemmas app_inv_defs = app_inv_def expectedItem_def timers_ok_def closure_ok_def gens_ok_def
  submit_ok_def closure_current_def

lemmas handler_defs = onApiKeyChange_def onRememberChange_def onFileChange_def onTargetChange_def
  handleSubmit_def submitSettled_def timerFires_def pollSettled_def setJob_def

lemmas deps_defs = storageDepsChanged_def pollDepsChanged_def object_is_def

text \<open>Re-running the polling effect establishes the polling invariant from the rest of it.\<close>

lemma pollEffect_restarts:
  assumes "\<forall>g \<in> set (cancelled s). g < generation s"
    and "\<forall>c \<in> set (polls s). pc_gen c \<in> set (cancelled s) \<or> pollCleanup s = Some c"
    and "timers_ok s"
    and "case pollCleanup s of None \<Rightarrow> True | Some c \<Rightarrow> pc_gen c < generation s"
  shows "timers_ok (pollEffect (runPollCleanup s))"
    and "closure_ok (pollEffect (runPollCleanup s))"
    and "gens_ok (pollEffect (runPollCleanup s))"
  using assms
  by (auto simp: timers_ok_def closure_ok_def gens_ok_def closure_current_def pollEffect_def
      runPollCleanup_def Let_def less_Suc_eq split: option.splits)

text \<open>
  What a handler leaves alone: the effect bookkeeping and the stored key. Every handler keeps
  this frame, and the runtime's flush turns it back into the full invariant.
\<close>

definition handler_frame :: "app \<Rightarrow> app \<Rightarrow> bool" where
  "handler_frame p s \<longleftrightarrow> pollCleanup s = pollCleanup p \<and> timers s = timers p
     \<and> cancelled s = cancelled p \<and> generation s = generation p \<and> localItem s = localItem p
     \<and> (\<forall>c \<in> set (polls s). pc_gen c \<in> set (cancelled p) \<or> pollCleanup p = Some c)"

lemma frame_handlers:
  assumes "app_inv s"
  shows "handler_frame s (onApiKeyChange v s)" and "handler_frame s (onRememberChange b s)"
    and "handler_frame s (onFileChange fs s)" and "handler_frame s (onTargetChange t s)"
    and "handler_frame s (handleSubmit s)" and "handler_frame s (submitSettled r s)"
    and "c \<in> set (timers s) \<Longrightarrow> handler_frame s (timerFires c s)"
    and "handler_frame s (pollSettled d q s)"
  using assms
  by (auto simp: handler_frame_def handler_defs app_inv_def timers_ok_def gens_ok_def Let_def
      split: option.splits sum.splits dest: notin_set_remove1)

lemma submit_handlers:
  assumes "app_inv s"
  shows "submit_ok (onApiKeyChange v s)" and "submit_ok (onRememberChange b s)"
    and "submit_ok (onFileChange fs s)" and "submit_ok (onTargetChange t s)"
    and "canSubmit s \<Longrightarrow> submit_ok (handleSubmit s)"
    and "0 < submits s \<Longrightarrow> submit_ok (submitSettled r s)"
    and "submit_ok (timerFires c s)"
    and "d \<in> set (polls s) \<Longrightarrow> submit_ok (pollSettled d q s)"
  using assms
  by (auto simp: handler_defs app_inv_defs canSubmit_def Let_def pollingStops_def
      split: option.splits sum.splits if_splits)

context react_runtime
begin

lemma flush_submit_ok: "submit_ok s \<Longrightarrow> submit_ok (flush p s)"
  by (cases "storageDepsChanged p s"; cases "pollDepsChanged p s")
    (auto simp: flush_none flush_storage flush_poll flush_both submit_ok_def storageEffect_def
      pollEffect_def runPollCleanup_def Let_def split: option.splits)

lemma flush_item: "localItem s = expectedItem p \<Longrightarrow> localItem (flush p s) = expectedItem (flush p s)"
  by (cases "storageDepsChanged p s"; cases "pollDepsChanged p s")
    (auto simp: flush_none flush_storage flush_poll flush_both expectedItem_def storageEffect_def
      pollEffect_def runPollCleanup_def Let_def storageDepsChanged_def split: option.splits)

lemma flush_polling:
  assumes inv: "app_inv p" and frame: "handler_frame p s"
  shows "timers_ok (flush p s) \<and> closure_ok (flush p s) \<and> gens_ok (flush p s)"
proof (cases "pollDepsChanged p s")
  case True
  define s' where "s' = (if storageDepsChanged p s then storageEffect s else s)"
  have "runPollCleanup (storageEffect s) = storageEffect (runPollCleanup s)"
    by (auto simp: runPollCleanup_def storageEffect_def split: option.splits)
  with True have "flush p s = pollEffect (runPollCleanup s')"
    by (simp add: s'_def flush_poll flush_both)
  moreover have "timers_ok s'" "\<forall>g \<in> set (cancelled s'). g < generation s'"
    "\<forall>c \<in> set (polls s'). pc_gen c \<in> set (cancelled s') \<or> pollCleanup s' = Some c"
    "case pollCleanup s' of None \<Rightarrow> True | Some c \<Rightarrow> pc_gen c < generation s'"
    using inv frame
    by (auto simp: s'_def storageEffect_def handler_frame_def app_inv_defs split: option.splits)
  ultimately show ?thesis by (simp add: pollEffect_restarts)
next
  case False
  then have "jobv s = jobv p" "apiKey s = apiKey p"
    by (auto simp: pollDepsChanged_def object_is_def)
  then have "timers_ok s \<and> closure_ok s \<and> gens_ok s"
    using inv frame by (auto simp: handler_frame_def app_inv_defs split: option.splits)
  with False show ?thesis
    by (cases "storageDepsChanged p s")
      (auto simp: flush_none flush_storage storageEffect_def timers_ok_def closure_ok_def
        gens_ok_def closure_current_def split: option.splits)
qed

lemma flush_inv:
  "app_inv p \<Longrightarrow> handler_frame p s \<Longrightarrow> submit_ok s \<Longrightarrow> app_inv (flush p s)"
  using flush_polling [of p s] flush_item [of s p] flush_submit_ok [of s p]
  by (simp add: app_inv_def handler_frame_def)

lemma app_step_inv: "app_step flush s t \<Longrightarrow> app_inv s \<Longrightarrow> app_inv t"
  by (induction rule: app_step.induct) (simp_all add: flush_inv frame_handlers submit_handlers)

lemma mount_inv: "app_inv (App_mount stored)"
  by (auto simp: App_mount_def App_initial_def app_inv_defs storageEffect_def pollEffect_def
      pollingStops_def split: option.splits)

lemma reachable_inv: "app_reachable flush s \<Longrightarrow> app_inv s"
  by (induction rule: app_reachable.induct) (auto simp: mount_inv intro: app_step_inv)

end

subsection \<open>A runtime that keeps the contract\<close>

definition react_flush :: "app \<Rightarrow> app \<Rightarrow> app" where
  "react_flush p s =
     (let s1 = (if pollDepsChanged p s then runPollCleanup s else s);
          s2 = (if storageDepsChanged p s then storageEffect s1 else s1)
      in if pollDepsChanged p s then pollEffect s2 else s2)"

interpretation dom: react_runtime react_flush
  by unfold_locales (simp_all add: react_flush_def)

text \<open>Concrete runs, used where a statement needs a reachable state.\<close>

definition demo_post :: request where
  "demo_post = createJob_request (js ''k1'') 7 Webp"

definition demo_body :: "string \<Rightarrow> jsval" where
  "demo_body st = JObj [(js ''job_id'', JStr (js ''a-1'')), (js ''status'', JStr (js st))]"

definition demo_closure :: poll_closure where
  "demo_closure = \<lparr>pc_gen = 0, pc_key = js ''k1'', pc_jobId = JStr (js ''a-1'')\<rparr>"

definition demo_get :: request where
  "demo_get = \<lparr>req_method = ''GET'', req_url = js ''/v1/jobs/a-1'', req_auth = authHeaders (js ''k1''),
     req_file = None, req_target = None\<rparr>"

definition demo_ready :: app where
  "demo_ready = (App_initial None)\<lparr>apiKey := js '' k1 '', appFile := Some 7\<rparr>"

definition demo_uploading :: app where
  "demo_uploading = demo_ready\<lparr>appJob := JobVal 1 JNull, isSubmitting := True, submits := 1,
     freshIdent := 2, sent := [demo_post]\<rparr>"

definition demo_polling :: app where
  "demo_polling = demo_ready\<lparr>appJob := JobVal 2 (demo_body ''queued''), generation := 1,
     pollCleanup := Some demo_closure, timers := [demo_closure], freshIdent := 3, sent := [demo_post]\<rparr>"

definition demo_pending :: app where
  "demo_pending = demo_polling\<lparr>polls := [demo_closure], sent := [demo_post, demo_get]\<rparr>"

definition demo_done :: app where
  "demo_done = demo_ready\<lparr>appJob := JobVal 3 (demo_body ''done''), generation := 1,
     cancelled := [0], freshIdent := 4, sent := [demo_post, demo_get]\<rparr>"

lemma demo_trim [simp]: "jtrim (js '' k1 '') = js ''k1''"
  by code_simp

lemma demo_js [simp]:
  "js '' k1 '' \<noteq> []" "js ''k1'' \<noteq> []" "js ''status'' \<noteq> js ''job_id''" "js ''queued'' \<noteq> js ''done''"
  "js ''queued'' \<noteq> js ''failed''"
  by (simp_all add: js_def)

lemma demo_request [simp]: "getJob_request (js ''k1'') (JStr (js ''a-1'')) = Some demo_get"
  by code_simp

lemmas demo_defs = react_flush_def deps_defs handler_defs demo_ready_def demo_uploading_def
  demo_polling_def demo_pending_def demo_done_def demo_closure_def demo_body_def demo_post_def
  pollEffect_def runPollCleanup_def storageEffect_def pollingStops_def App_initial_def App_mount_def
  canSubmit_def is_object_def Let_def

lemma demo_ready_reachable: "app_reachable react_flush demo_ready"
proof -
  let ?s1 = "(App_initial None)\<lparr>apiKey := js '' k1 ''\<rparr>"
  have "react_flush (App_mount None) (onApiKeyChange (js '' k1 '') (App_mount None)) = ?s1"
    by (simp add: demo_defs)
  with app_reachable.step [OF app_reachable.mount app_step.key_change]
  have r: "app_reachable react_flush ?s1" by metis
  have "react_flush ?s1 (onFileChange [7] ?s1) = demo_ready"
    by (simp add: demo_defs)
  with app_reachable.step [OF r app_step.file_change] show ?thesis by metis
qed

lemma demo_uploading_reachable: "app_reachable react_flush demo_uploading"
proof -
  have "canSubmit demo_ready" by (simp add: demo_defs)
  moreover have "react_flush demo_ready (handleSubmit demo_ready) = demo_uploading"
    by (simp add: demo_defs)
  ultimately show ?thesis
    using app_reachable.step [OF demo_ready_reachable app_step.submit] by simp
qed

lemma demo_polling_reachable: "app_reachable react_flush demo_polling"
proof -
  have "0 < submits demo_uploading" by (simp add: demo_defs)
  moreover have "react_flush demo_uploading (submitSettled (Inr (demo_body ''queued'')) demo_uploading)
      = demo_polling"
    by (simp add: demo_defs)
  ultimately show ?thesis
    using app_reachable.step [OF demo_uploading_reachable app_step.submit_done] by metis
qed

lemma demo_pending_reachable: "app_reachable react_flush demo_pending"
proof -
  have "demo_closure \<in> set (timers demo_polling)" by (simp add: demo_defs)
  moreover have "react_flush demo_polling (timerFires demo_closure demo_polling) = demo_pending"
    by (simp add: demo_defs)
  ultimately show ?thesis
    using app_reachable.step [OF demo_polling_reachable app_step.timer] by metis
qed

lemma demo_done_reachable: "app_reachable react_flush demo_done"
proof -
  have "demo_closure \<in> set (polls demo_pending)" by (simp add: demo_defs)
  moreover have "react_flush demo_pending
      (pollSettled demo_closure (Inr (demo_body ''done'')) demo_pending) = demo_done"
    by (simp add: demo_defs)
  ultimately show ?thesis
    using app_reachable.step [OF demo_pending_reachable app_step.poll_done] by metis
qed

subsection \<open>Trimming and the request log\<close>

lemma dropWhile_rev_dropWhile:
  assumes "xs = [] \<or> \<not> P (hd xs)"
  shows "dropWhile P (rev (dropWhile P (rev xs))) = rev (dropWhile P (rev xs))"
proof (cases "rev (dropWhile P (rev xs))")
  case (Cons y ys)
  have "\<exists>zs. xs = rev (dropWhile P (rev xs)) @ zs"
    by (metis rev_append rev_rev_ident takeWhile_dropWhile_id)
  with Cons have "xs \<noteq> []" "hd xs = y" by auto
  with assms Cons show ?thesis by simp
next
  case Nil
  show ?thesis by (simp only: Nil dropWhile.simps)
qed

lemma jtrim_idem [simp]: "jtrim (jtrim s) = jtrim s"
proof -
  let ?d = "dropWhile is_js_space"
  have "?d s = [] \<or> \<not> is_js_space (hd (?d s))"
    by (metis hd_dropWhile)
  then have "?d (jtrim s) = jtrim s"
    by (simp add: jtrim_def dropWhile_rev_dropWhile)
  then show ?thesis by (simp add: jtrim_def)
qed

text \<open>A request goes to the job routes with a trimmed key, and an upload with a non-empty one.\<close>

definition request_ok :: "request \<Rightarrow> bool" where
  "request_ok q \<longleftrightarrow> has_prefix (req_url q) (js ''/v1/jobs'') \<and> (\<exists>k. req_auth q = authHeaders k \<and> jtrim k = k
     \<and> (req_method q = ''POST'' \<longrightarrow> k \<noteq> [] \<and> req_file q \<noteq> None))"

lemma effects_keep_sent:
  "sent (storageEffect s) = sent s" "sent (pollEffect s) = sent s" "sent (runPollCleanup s) = sent s"
  by (auto simp: storageEffect_def pollEffect_def runPollCleanup_def Let_def split: option.splits)

lemma createJob_request_ok: "k \<noteq> [] \<Longrightarrow> jtrim k = k \<Longrightarrow> request_ok (createJob_request k f t)"
  by (auto simp: request_ok_def createJob_request_def has_prefix_def)

lemma jobs_url_prefix: "has_prefix (js ''/v1/jobs/'' @ p) (js ''/v1/jobs'')"
  by (simp add: has_prefix_def js_def)

lemma getJob_request_ok: "jtrim k = k \<Longrightarrow> getJob_request k i = Some q \<Longrightarrow> request_ok q"
  using jobs_url_prefix by (auto simp: request_ok_def getJob_request_def)

lemma handlers_sent:
  "sent (onApiKeyChange v s) = sent s" "sent (onRememberChange b s) = sent s"
  "sent (onFileChange fs s) = sent s" "sent (onTargetChange t s) = sent s"
  "sent (submitSettled r s) = sent s" "sent (pollSettled c r s) = sent s"
  by (simp_all add: handler_defs Let_def split: sum.split)

lemma submit_sent_ok:
  "\<forall>q \<in> set (sent s). request_ok q \<Longrightarrow> canSubmit s \<Longrightarrow> \<forall>q \<in> set (sent (handleSubmit s)). request_ok q"
  by (auto simp: handleSubmit_def setJob_def canSubmit_def createJob_request_ok)

lemma timer_sent_ok:
  assumes "app_inv s" "\<forall>q \<in> set (sent s). request_ok q" "c \<in> set (timers s)"
  shows "\<forall>q \<in> set (sent (timerFires c s)). request_ok q"
proof -
  have "jtrim (pc_key c) = pc_key c"
    using assms(1,3) by (auto simp: app_inv_defs split: option.splits)
  with assms(2) show ?thesis
    by (auto simp: timerFires_def getJob_request_ok split: option.splits)
qed

context react_runtime
begin

lemma flush_sent: "sent (flush p s) = sent s"
  by (cases "storageDepsChanged p s"; cases "pollDepsChanged p s")
    (simp_all add: flush_none flush_storage flush_poll flush_both effects_keep_sent)

lemma step_sent_ok:
  "app_step flush s t \<Longrightarrow> app_inv s \<Longrightarrow> \<forall>q \<in> set (sent s). request_ok q \<Longrightarrow>
   \<forall>q \<in> set (sent t). request_ok q"
proof (induction rule: app_step.induct)
  case (submit s)
  then show ?case unfolding flush_sent by (intro submit_sent_ok)
next
  case (timer c s)
  then show ?case unfolding flush_sent by (intro timer_sent_ok)
qed (simp_all only: flush_sent handlers_sent)

lemma mount_sent: "sent (App_mount stored) = []"
  by (simp add: App_mount_def effects_keep_sent App_initial_def)

lemma reachable_sent_ok: "app_reachable flush s \<Longrightarrow> \<forall>q \<in> set (sent s). request_ok q"
proof (induction rule: app_reachable.induct)
  case (step s t)
  from step_sent_ok [OF step(2) reachable_inv [OF step(1)] step.IH] show ?case .
qed (simp add: mount_sent)

lemma stale_poll_ignored:
  assumes "app_reachable flush s" "c \<in> set (polls s)"
    and "pollingStops (jobv s) \<or> pc_jobId c \<noteq> get_prop (jobv s) ''job_id'' \<or> pc_key c \<noteq> jtrim (apiKey s)"
  shows "pollSettled c r s = s\<lparr>polls := remove1 c (polls s)\<rparr>"
proof -
  have "pc_gen c \<in> set (cancelled s)"
    using reachable_inv [OF assms(1)] assms(2,3) by (auto simp: app_inv_defs split: option.splits)
  then show ?thesis by (simp add: pollSettled_def)
qed

lemma flush_job: "appJob (flush p s) = appJob s"
  by (cases "storageDepsChanged p s"; cases "pollDepsChanged p s")
    (auto simp: flush_none flush_storage flush_poll flush_both storageEffect_def pollEffect_def
      runPollCleanup_def Let_def split: option.splits)

lemma flush_submitting: "isSubmitting (flush p s) = isSubmitting s"
  by (cases "storageDepsChanged p s"; cases "pollDepsChanged p s")
    (auto simp: flush_none flush_storage flush_poll flush_both storageEffect_def pollEffect_def
      runPollCleanup_def Let_def split: option.splits)

lemma finished_job_stays:
  assumes "app_step flush s t" "app_reachable flush s" "pollingStops (jobv s)" "\<not> isSubmitting s"
  shows "appJob t = appJob s \<or> isSubmitting t"
  using assms(1)
proof cases
  case (poll_done c r)
  have "appJob (pollSettled c r s) = appJob s"
    using stale_poll_ignored [OF assms(2), of c r] poll_done assms(3) by simp
  with poll_done show ?thesis by (simp add: flush_job)
next
  case (submit_done r)
  then show ?thesis
    using reachable_inv [OF assms(2)] assms(4) by (simp add: app_inv_def submit_ok_def)
qed (auto simp: flush_job flush_submitting handler_defs canSubmit_def)

end

subsection \<open>Path segments\<close>

text \<open>What the server's URL decoding reads back from a path segment.\<close>

definition unhex :: "u16 \<Rightarrow> nat option" where
  "unhex c = (if 0x30 \<le> c \<and> c \<le> 0x39 then Some (unat c - 0x30)
              else if 0x41 \<le> c \<and> c \<le> 0x46 then Some (unat c - 0x37)
              else if 0x61 \<le> c \<and> c \<le> 0x66 then Some (unat c - 0x57) else None)"

fun pct_decode :: "jsstring \<Rightarrow> nat list option" where
  "pct_decode [] = Some []"
| "pct_decode (c # cs) =
     (if c = 0x25 then
        (case cs of
           a # b # r \<Rightarrow> do { h \<leftarrow> unhex a; l \<leftarrow> unhex b; bs \<leftarrow> pct_decode r; Some ((16 * h + l) # bs) }
         | _ \<Rightarrow> None)
      else do { bs \<leftarrow> pct_decode cs; Some (unat c # bs) })"

lemma hex_table:
  "list_all (\<lambda>d. unhex (hex_digit d) = Some d \<and> uri_unreserved (hex_digit d)) [0..<16]"
  by code_simp

lemma unhex_hex_digit [simp]: "d < 16 \<Longrightarrow> unhex (hex_digit d) = Some d"
  and hex_digit_unreserved: "d < 16 \<Longrightarrow> uri_unreserved (hex_digit d)"
  using hex_table by (simp_all add: list_all_iff)

lemma pct_decode_pct:
  assumes "b < 256"
  shows "pct_decode (pct b @ r) = map_option ((#) b) (pct_decode r)"
proof -
  have "b div 16 < 16" "b mod 16 < 16" using assms by auto
  then show ?thesis by (cases "pct_decode r") (simp_all add: pct_def)
qed

lemma pct_decode_pcts:
  "\<forall>b \<in> set bs. b < 256 \<Longrightarrow>
   pct_decode (concat (map pct bs) @ r) = map_option ((@) bs) (pct_decode r)"
  by (induction bs; cases "pct_decode r") (simp_all add: pct_decode_pct)

lemma utf8_bytes: "cp < 0x110000 \<Longrightarrow> \<forall>b \<in> set (utf8 cp). b < 256"
  by (auto simp: utf8_def)

lemma pct_decode_cp:
  assumes "cp < 0x110000"
  shows "pct_decode (encode_cp cp @ r) = map_option ((@) (utf8 cp)) (pct_decode r)"
proof (cases "cp < 0x80 \<and> uri_unreserved (of_nat cp)")
  case True
  then have "of_nat cp \<noteq> (0x25 :: u16)"
    by (auto simp: uri_unreserved_def js_def)
  moreover have "unat (of_nat cp :: u16) = cp"
    using True by (simp add: unat_of_nat)
  ultimately show ?thesis
    using True by (cases "pct_decode r") (simp_all add: encode_cp_def utf8_def)
next
  case False
  then have "encode_cp cp = concat (map pct (utf8 cp))"
    by (auto simp: encode_cp_def)
  then show ?thesis
    by (simp only: pct_decode_pcts [OF utf8_bytes [OF assms]])
qed

lemma high_low_bounds:
  "is_high_surrogate c \<Longrightarrow> unat c \<le> 0xDBFF" "is_low_surrogate c \<Longrightarrow> unat c \<le> 0xDFFF"
  by (auto simp: is_high_surrogate_def is_low_surrogate_def word_le_nat_alt)

lemma code_points_bound: "code_points s = Some cps \<Longrightarrow> \<forall>cp \<in> set cps. cp < 0x110000"
proof (induction s arbitrary: cps rule: code_points.induct)
  case (2 c cs)
  have "unat c < 2 ^ 16" using unsigned_less [of c, where ?'a = nat] by simp
  then have "unat c < 0x110000" by simp
  with "2" show ?case
    by (fastforce dest: high_low_bounds split: if_splits list.splits)
qed simp

lemma pct_decode_cps:
  "\<forall>cp \<in> set cps. cp < 0x110000 \<Longrightarrow>
   pct_decode (concat (map encode_cp cps)) = Some (concat (map utf8 cps))"
  by (induction cps) (simp_all add: pct_decode_cp)

lemma encode_cp_chars: "cp < 0x110000 \<Longrightarrow> c \<in> set (encode_cp cp) \<Longrightarrow> uri_unreserved c \<or> c = 0x25"
  by (auto simp: encode_cp_def pct_def hex_digit_unreserved dest!: utf8_bytes split: if_splits)

subsection \<open>Properties\<close>

text \<open>C1: In every reachable state of the client the key kept in local storage is exactly the
  trimmed current key when "remember" is checked and the key is not blank, and nothing is kept
  otherwise.\<close>

theorem frontend_stored_key:
  assumes "react_runtime flush" and "app_reachable flush s"
  shows "localItem s =
    (if rememberApiKey s \<and> jtrim (apiKey s) \<noteq> [] then Some (jtrim (apiKey s)) else None)"
  using react_runtime.reachable_inv [OF assms] by (simp add: app_inv_def expectedItem_def)

theorem frontend_stored_key_witness:
  "react_runtime react_flush \<and> app_reachable react_flush demo_ready \<and> localItem demo_ready = None"
proof -
  have "\<not> rememberApiKey demo_ready" by code_simp
  then show ?thesis
    using frontend_stored_key [OF dom.react_runtime_axioms demo_ready_reachable]
    by (simp add: dom.react_runtime_axioms demo_ready_reachable)
qed

text \<open>C2: At most one polling interval is alive. One is alive exactly while a job is shown that
  is neither done nor failed, and it polls that job with the current trimmed key.\<close>

theorem frontend_single_timer:
  assumes "react_runtime flush" and "app_reachable flush s"
  shows "if pollingStops (jobv s) then timers s = []
         else \<exists>c. timers s = [c] \<and> pc_jobId c = get_prop (jobv s) ''job_id''
                \<and> pc_key c = jtrim (apiKey s)"
  using react_runtime.reachable_inv [OF assms] by (auto simp: app_inv_defs split: option.splits)

theorem frontend_single_timer_witness:
  "\<exists>c. timers demo_polling = [c] \<and> pc_jobId c = JStr (js ''a-1'') \<and> pc_key c = js ''k1''"
proof -
  have "\<not> pollingStops (jobv demo_polling)" by code_simp
  moreover have "get_prop (jobv demo_polling) ''job_id'' = JStr (js ''a-1'')" by code_simp
  moreover have "jtrim (apiKey demo_polling) = js ''k1''" by code_simp
  ultimately show ?thesis
    using frontend_single_timer [OF dom.react_runtime_axioms demo_polling_reachable] by simp
qed

text \<open>C3: The answer to a poll for another job, or sent with another key, or arriving after the
  shown job finished, changes nothing: settling it only retires the promise.\<close>

theorem frontend_stale_poll_ignored:
  assumes "react_runtime flush" and "app_reachable flush s" and "c \<in> set (polls s)"
    and "pollingStops (jobv s) \<or> pc_jobId c \<noteq> get_prop (jobv s) ''job_id'' \<or> pc_key c \<noteq> jtrim (apiKey s)"
  shows "pollSettled c r s = s\<lparr>polls := remove1 c (polls s)\<rparr>"
  using assms by (rule react_runtime.stale_poll_ignored)

definition demo_rekeyed :: app where
  "demo_rekeyed = react_flush demo_pending (onApiKeyChange (js ''k2'') demo_pending)"

lemma demo_rekeyed_reachable: "app_reachable react_flush demo_rekeyed"
  unfolding demo_rekeyed_def
  by (rule app_reachable.step [OF demo_pending_reachable app_step.key_change])

theorem frontend_stale_poll_ignored_witness:
  "pollSettled demo_closure (Inr (demo_body ''done'')) demo_rekeyed
     = demo_rekeyed\<lparr>polls := remove1 demo_closure (polls demo_rekeyed)\<rparr>"
proof -
  have "demo_closure \<in> set (polls demo_rekeyed)" by code_simp
  moreover have "pc_key demo_closure \<noteq> jtrim (apiKey demo_rekeyed)" by code_simp
  ultimately show ?thesis
    by (intro frontend_stale_poll_ignored [OF dom.react_runtime_axioms demo_rekeyed_reachable]) auto
qed

text \<open>Once a job is finished, no event except a new submission replaces it: every step either
  keeps the shown job or starts an upload.\<close>

theorem frontend_finished_job_stays:
  assumes "react_runtime flush" and "app_step flush s t" and "app_reachable flush s"
    and "pollingStops (jobv s)" and "\<not> isSubmitting s"
  shows "appJob t = appJob s \<or> isSubmitting t"
  using assms by (rule react_runtime.finished_job_stays)

theorem frontend_finished_job_stays_witness:
  "appJob (react_flush demo_done (onTargetChange Png demo_done)) = appJob demo_done"
proof -
  let ?t = "react_flush demo_done (onTargetChange Png demo_done)"
  have "pollingStops (jobv demo_done)" "\<not> isSubmitting demo_done" "\<not> isSubmitting ?t" by code_simp+
  with frontend_finished_job_stays [OF dom.react_runtime_axioms app_step.target_change
      demo_done_reachable, of Png] show ?thesis by simp
qed

text \<open>C4: At most one upload is in flight, and every request the client ever sent goes to
  the job routes with a trimmed key; an upload carries a non-empty key and a file.\<close>

theorem frontend_requests:
  assumes "react_runtime flush" and "app_reachable flush s"
  shows "submits s \<le> 1 \<and> (\<forall>q \<in> set (sent s). request_ok q)"
proof
  show "submits s \<le> 1"
    using react_runtime.reachable_inv [OF assms] by (simp add: app_inv_def submit_ok_def)
qed (rule react_runtime.reachable_sent_ok [OF assms])

theorem frontend_requests_witness:
  "submits demo_uploading \<le> 1 \<and> demo_post \<in> set (sent demo_uploading) \<and> request_ok demo_post"
proof -
  have "demo_post \<in> set (sent demo_uploading)" by (simp add: demo_uploading_def)
  with frontend_requests [OF dom.react_runtime_axioms demo_uploading_reachable] show ?thesis
    by blast
qed

text \<open>C38: The status request of a job, as \<open>getJob\<close> builds it: one GET without a form whose URL is
  \<open>/v1/jobs/\<close> and a single segment that percent-decodes to the UTF-8 bytes of the job id. The segment
  holds only unreserved characters and percent signs, so a job id, which comes out of a response,
  can never add a path component, a query or a fragment. The request is refused exactly for an id
  that is not well-formed UTF-16.\<close>

theorem getJob_path_roundtrip:
  "case getJob_request key jobId of
     None \<Rightarrow> code_points (to_js_string jobId) = None
   | Some q \<Rightarrow> req_method q = ''GET'' \<and> req_file q = None \<and> req_target q = None
       \<and> (\<exists>e cps. req_url q = js ''/v1/jobs/'' @ e \<and> code_points (to_js_string jobId) = Some cps
           \<and> pct_decode e = Some (concat (map utf8 cps)) \<and> (\<forall>c \<in> set e. uri_unreserved c \<or> c = 0x25)
           \<and> set e \<inter> {0x2F, 0x3F, 0x23} = {})"
proof (cases "code_points (to_js_string jobId)")
  case None
  then show ?thesis by (simp add: getJob_request_def encodeURIComponent_def)
next
  case (Some cps)
  let ?e = "concat (map encode_cp cps)"
  note bound = code_points_bound [OF Some]
  have delims: "\<not> uri_unreserved 0x2F" "\<not> uri_unreserved 0x3F" "\<not> uri_unreserved 0x23"
    "0x2F \<noteq> (0x25::u16)" "0x3F \<noteq> (0x25::u16)" "0x23 \<noteq> (0x25::u16)" by code_simp+
  have chars: "\<forall>c \<in> set ?e. uri_unreserved c \<or> c = 0x25" using bound encode_cp_chars by auto
  moreover have "set ?e \<inter> {0x2F, 0x3F, 0x23} = {}"
    using chars delims by blast
  moreover have "pct_decode ?e = Some (concat (map utf8 cps))" using bound pct_decode_cps by auto
  ultimately show ?thesis using Some by (simp add: getJob_request_def encodeURIComponent_def)
qed

theorem getJob_path_roundtrip_witness:
  "\<exists>q cps. getJob_request (js ''k1'') (JStr (js ''a/1'')) = Some q \<and> req_url q = js ''/v1/jobs/a%2F1''
     \<and> code_points (js ''a/1'') = Some cps \<and> pct_decode (js ''a%2F1'') = Some (concat (map utf8 cps))"
proof -
  have "map_option req_url (getJob_request (js ''k1'') (JStr (js ''a/1''))) = Some (js ''/v1/jobs/'' @ js ''a%2F1'')"
    by code_simp
  then obtain q where q: "getJob_request (js ''k1'') (JStr (js ''a/1'')) = Some q"
    "req_url q = js ''/v1/jobs/'' @ js ''a%2F1''" by auto
  have "js ''/v1/jobs/'' @ js ''a%2F1'' = js ''/v1/jobs/a%2F1''" "to_js_string (JStr (js ''a/1'')) = js ''a/1''"
    by code_simp+
  then show ?thesis
    using getJob_path_roundtrip [where key = "js ''k1''" and jobId = "JStr (js ''a/1'')", unfolded q(1) option.case] q
    by (metis same_append_eq)
qed

text \<open>A response outside 200-299 whose body could be read always becomes an \<open>ApiError\<close> with
  the response's status, and the text shown for it is never empty; a 2xx response with a
  readable body is never an error.\<close>

theorem parseResponse_errors:
  assumes "\<And>m. resp_json r \<noteq> Inl m"
  shows "if resp_ok r then \<exists>v. parseResponse r = Inr v
         else \<exists>m. parseResponse r = Inl (ApiError (resp_status r) m)
              \<and> describeError (ApiError (resp_status r) m) \<noteq> []"
proof -
  obtain v where v: "resp_json r = Inr v" using assms by (cases "resp_json r") auto
  have "describeError (ApiError n m) \<noteq> []" for n m
    by (simp add: describeError_def js_def)
  with v show ?thesis by (auto simp: parseResponse_def Let_def)
qed

theorem parseResponse_errors_witness:
  "\<exists>m. parseResponse \<lparr>resp_status = 422, resp_statusText = [], resp_contentType = None,
        resp_json = Inr JNull, resp_text = js ''no''\<rparr> = Inl (ApiError 422 m)"
  using parseResponse_errors [of "\<lparr>resp_status = 422, resp_statusText = [], resp_contentType = None,
        resp_json = Inr JNull, resp_text = js ''no''\<rparr>"]
  by (auto simp: resp_ok_def)

text \<open>What the page shows: the button is disabled during an upload, with a blank key or with no
  file; the download link appears only with a URL; and a failed job always has a failure text.\<close>

theorem App_render_view:
  "(submit_disabled (App_render s) \<longleftrightarrow>
      isSubmitting s \<or> appFile s = None \<or> jtrim (apiKey s) = [])
   \<and> (\<forall>u. view_download (App_render s) = Some u \<longrightarrow>
          truthy u \<and> u = get_prop (jobv s) ''download_url'')
   \<and> (get_prop (jobv s) ''status'' = JStr (js ''failed'') \<longrightarrow>
        (\<exists>t. view_failure (App_render s) = Some t \<and> truthy t))"
proof -
  have "truthy (jobv s)" if "get_prop (jobv s) ''status'' = JStr (js ''failed'')"
    using that by (cases "jobv s") auto
  then show ?thesis
    by (auto simp: App_render_def canSubmit_def Let_def js_or_def js_def)
qed

theorem App_render_view_witness:
  "\<not> submit_disabled (App_render demo_ready)
   \<and> view_download (App_render demo_ready) = None"
proof -
  have "\<not> isSubmitting demo_ready" "appFile demo_ready \<noteq> None" "jtrim (apiKey demo_ready) \<noteq> []"
    "view_download (App_render demo_ready) = None"
    by code_simp+
  then show ?thesis using App_render_view [of demo_ready] by simp
qed

end
