(* ===== verification/Entry.thy ===== *)
theory Entry
  imports Frontend
begin

text \<open>
  The browser entry point \<open>frontend/src/main.tsx\<close> and the development server of
  \<open>frontend/vite.config.ts\<close>. React and Vite are not part of the repository: what the code relies
  on is the locale \<open>strict_root\<close> (a root needs a container; \<open>StrictMode\<close> runs every effect, its
  cleanup and the effect again when a component mounts in a development build) and the locale
  \<open>dev_proxy\<close> (a request whose path starts with a proxy key is forwarded to that key's target).
\<close>

subsection \<open>main.tsx\<close>

text \<open>A page: the elements that carry an \<open>id\<close> attribute, in document order.\<close>

type_synonym page = "(string \<times> nat) list"

definition getElementById :: "page \<Rightarrow> string \<Rightarrow> nat option" where
  "getElementById pg i = map_of pg i"

datatype entry_error = InvalidContainer

text \<open>\<open>createRoot (document.getElementById ('root')!).render (...)\<close>: the assertion \<open>!\<close> is erased by the
  compiler, so a missing element reaches \<open>createRoot\<close> as \<open>null\<close>.\<close>

definition main ::
  "(nat option \<Rightarrow> entry_error + nat) \<Rightarrow> (jsstring option \<Rightarrow> app) \<Rightarrow> page \<Rightarrow> jsstring option
     \<Rightarrow> entry_error + (nat \<times> app)" where
  "main createRoot render_strict pg stored =
     (case createRoot (getElementById pg ''root'') of
        Inl e \<Rightarrow> Inl e
      | Inr container \<Rightarrow> Inr (container, render_strict stored))"

text \<open>What strict mode adds in a development build: all cleanups, then all effects once more.\<close>

definition strict_remount :: "app \<Rightarrow> app" where
  "strict_remount s = pollEffect (storageEffect (runPollCleanup s))"

locale strict_root =
  fixes createRoot :: "nat option \<Rightarrow> entry_error + nat"
    and render_strict :: "bool \<Rightarrow> jsstring option \<Rightarrow> app"
  assumes root_none: "createRoot None = Inl InvalidContainer"
    and root_some: "createRoot (Some e) = Inr e"
    and production: "render_strict False stored = App_mount stored"
    and development: "render_strict True stored = strict_remount (App_mount stored)"
begin

lemma remount_mount: "strict_remount (App_mount stored) = App_mount stored"
proof -
  have stop: "pollingStops (jobv (App_initial stored))"
    by (simp add: App_initial_def pollingStops_def)
  have item: "storageEffect (storageEffect s) = storageEffect s" for s :: app
    by (auto simp: storageEffect_def)
  have jobv: "jobv (storageEffect s) = jobv s" and cleanup: "pollCleanup (storageEffect s) = pollCleanup s"
    for s :: app
    by (auto simp: storageEffect_def)
  have "App_mount stored = storageEffect (App_initial stored)"
    using stop by (simp add: App_mount_def pollEffect_def jobv) (simp add: storageEffect_def App_initial_def)
  then show ?thesis
    using stop by (simp add: strict_remount_def runPollCleanup_def cleanup item pollEffect_def jobv)
      (simp add: storageEffect_def App_initial_def)
qed

lemma strict_mode_transparent: "render_strict dev stored = App_mount stored"
  by (cases dev) (simp_all add: production development remount_mount)

lemma main_missing: "getElementById pg ''root'' = None \<Longrightarrow> main createRoot f pg stored = Inl InvalidContainer"
  by (simp add: main_def root_none)

lemma main_found:
  "getElementById pg ''root'' = Some e \<Longrightarrow>
   main createRoot (render_strict dev) pg stored = Inr (e, App_mount stored)"
  by (simp add: main_def root_some strict_mode_transparent)

end

definition react_createRoot :: "nat option \<Rightarrow> entry_error + nat" where
  "react_createRoot e = (case e of None \<Rightarrow> Inl InvalidContainer | Some k \<Rightarrow> Inr k)"

definition react_render :: "bool \<Rightarrow> jsstring option \<Rightarrow> app" where
  "react_render dev stored = (if dev then strict_remount (App_mount stored) else App_mount stored)"

interpretation react: strict_root react_createRoot react_render
  by unfold_locales (simp_all add: react_createRoot_def react_render_def)

subsection \<open>vite.config.ts\<close>

definition apiTarget :: "jsstring option \<Rightarrow> jsstring" where
  "apiTarget env = (case env of Some t \<Rightarrow> t | None \<Rightarrow> js ''http://localhost:8090'')"

record dev_config =
  dev_port :: nat
  dev_proxy_table :: "(jsstring \<times> jsstring) list"

definition vite_config :: "jsstring option \<Rightarrow> dev_config" where
  "vite_config env =
     \<lparr>dev_port = 5173, dev_proxy_table = [(js ''/v1'', apiTarget env), (js ''/healthz'', apiTarget env)]\<rparr>"

locale dev_proxy =
  fixes route :: "dev_config \<Rightarrow> jsstring \<Rightarrow> jsstring option"
  assumes forwarded:
      "(k, t) \<in> set (dev_proxy_table cfg) \<Longrightarrow> has_prefix url k \<Longrightarrow>
       \<exists>(k', t') \<in> set (dev_proxy_table cfg). has_prefix url k' \<and> route cfg url = Some t'"
    and served: "\<forall>(k, t) \<in> set (dev_proxy_table cfg). \<not> has_prefix url k \<Longrightarrow> route cfg url = None"
begin

lemma api_forwarded:
  assumes "has_prefix url (js ''/v1'')"
  shows "route (vite_config env) url = Some (apiTarget env)"
  using forwarded [OF _ assms, of "apiTarget env" "vite_config env"] by (auto simp: vite_config_def)

end

definition vite_route :: "dev_config \<Rightarrow> jsstring \<Rightarrow> jsstring option" where
  "vite_route cfg url = map_option snd (find (\<lambda>(k, t). has_prefix url k) (dev_proxy_table cfg))"

interpretation vite: dev_proxy vite_route
proof unfold_locales
  fix k t url and cfg :: dev_config
  assume "(k, t) \<in> set (dev_proxy_table cfg)" "has_prefix url k"
  then obtain k' t' where f: "find (\<lambda>(k, t). has_prefix url k) (dev_proxy_table cfg) = Some (k', t')"
    by (metis (no_types, lifting) case_prodI find_None_iff not_None_eq surj_pair)
  then have "(k', t') \<in> set (dev_proxy_table cfg) \<and> has_prefix url k'"
    by (auto simp: find_Some_iff in_set_conv_nth)
  with f show "\<exists>(k', t') \<in> set (dev_proxy_table cfg). has_prefix url k' \<and> vite_route cfg url = Some t'"
    by (auto simp: vite_route_def)
next
  fix url and cfg :: dev_config
  assume "\<forall>(k, t) \<in> set (dev_proxy_table cfg). \<not> has_prefix url k"
  then show "vite_route cfg url = None"
    by (auto simp: vite_route_def find_None_iff)
qed

lemma prefix_shorter: "has_prefix url (p @ q) \<Longrightarrow> has_prefix url p"
  by (auto simp: has_prefix_iff)

subsection \<open>Properties\<close>

text \<open>Strict mode does not change the application: over any React that keeps its contract, the page
  without a \<open>root\<close> element reports an invalid container, and with one the development build, which
  runs, cleans up and reruns every effect, mounts in exactly the state of the production build.\<close>

theorem entry_builds_agree:
  assumes "strict_root createRoot render_strict"
  shows "main createRoot (render_strict dev) pg stored =
    (case getElementById pg ''root'' of
       None \<Rightarrow> Inl InvalidContainer | Some e \<Rightarrow> Inr (e, App_mount stored))"
  using strict_root.main_missing [OF assms] strict_root.main_found [OF assms]
  by (cases "getElementById pg ''root''") simp_all

theorem entry_builds_agree_witness:
  "main react_createRoot (react_render True) [(''root'', 7)] (Some (js ''k1'')) = Inr (7, App_mount (Some (js ''k1'')))
   \<and> main react_createRoot (react_render True) [(''app'', 7)] None = Inl InvalidContainer"
  using entry_builds_agree [OF react.strict_root_axioms, where pg = "[(''root'', 7)]" and dev = True]
    entry_builds_agree [OF react.strict_root_axioms, where pg = "[(''app'', 7)]" and dev = True]
  by (simp add: getElementById_def)

text \<open>C37: The development proxy is complete for the client: whatever the user does, every request the
  application has sent is forwarded to the configured API target and none is served by the
  development server itself.\<close>

theorem dev_requests_reach_api:
  assumes "react_runtime flush" and "app_reachable flush s" and "dev_proxy route" and "q \<in> set (sent s)"
  shows "route (vite_config env) (req_url q) = Some (apiTarget env)"
proof -
  have "has_prefix (req_url q) (js ''/v1/jobs'')"
    using react_runtime.reachable_sent_ok [OF assms(1,2)] assms(4) by (auto simp: request_ok_def)
  then have "has_prefix (req_url q) (js ''/v1'')"
    using prefix_shorter [of "req_url q" "js ''/v1''" "js ''/jobs''"] by (simp add: js_def)
  with dev_proxy.api_forwarded [OF assms(3)] show ?thesis .
qed

theorem dev_requests_reach_api_witness:
  "vite_route (vite_config None) (req_url demo_post) = Some (js ''http://localhost:8090'')"
proof -
  have "demo_post \<in> set (sent demo_uploading)" by (simp add: demo_uploading_def)
  from dev_requests_reach_api [OF dom.react_runtime_axioms demo_uploading_reachable vite.dev_proxy_axioms this,
      of None]
  show ?thesis by (simp add: apiTarget_def)
qed

end
