(* ===== verification/Bytes.thy ===== *)
theory Bytes
  imports Prelude
begin

text \<open>
  Reading binary data: the integers of \<open>encoding/binary\<close> over checked slices, and the streams
  (\<open>io.Reader\<close>) the content detectors peek at. A detector reads a bounded prefix and stitches it
  back with \<open>io.MultiReader\<close>, so what a stream is worth is the bytes it still yields and whether it
  ends in a read error.
\<close>

subsection \<open>Integers from bytes\<close>

text \<open>The number a byte sequence denotes, most significant byte first.\<close>

definition be_val :: "bytes \<Rightarrow> nat" where
  "be_val bs = foldl (\<lambda>a x. a * 256 + unat x) 0 bs"

text \<open>\<open>binary.BigEndian.Uint16\<close>, \<open>Uint32\<close>, \<open>Uint64\<close> and their little-endian versions.\<close>

definition be16 :: "bytes \<Rightarrow> u16" where "be16 bs = of_nat (be_val (take 2 bs))"
definition be32 :: "bytes \<Rightarrow> u32" where "be32 bs = of_nat (be_val (take 4 bs))"
definition be64 :: "bytes \<Rightarrow> u64" where "be64 bs = of_nat (be_val (take 8 bs))"
definition le16 :: "bytes \<Rightarrow> u16" where "le16 bs = of_nat (be_val (rev (take 2 bs)))"
definition le32 :: "bytes \<Rightarrow> u32" where "le32 bs = of_nat (be_val (rev (take 4 bs)))"

lemma be_val_Nil [simp]: "be_val [] = 0"
  by (simp add: be_val_def)

lemma be_val_snoc: "be_val (bs @ [x]) = be_val bs * 256 + unat x"
  by (simp add: be_val_def)

lemma be_val_bound: "be_val bs < 256 ^ length bs"
proof (induction bs rule: rev_induct)
  case (snoc x xs)
  have "unat x < 256" using unsigned_less [where ?'a = nat, of x] by simp
  with snoc show ?case by (simp add: be_val_snoc)
qed simp

lemma be_val_two: "be_val [x, y] = unat x * 256 + unat y"
  by (simp add: be_val_def)

lemma unat_be32: "length bs = 4 \<Longrightarrow> unat (be32 bs) = be_val bs"
  using be_val_bound [of bs] by (simp add: be32_def unat_of_nat)

lemma unat_be64: "length bs = 8 \<Longrightarrow> unat (be64 bs) = be_val bs"
  using be_val_bound [of bs] by (simp add: be64_def unat_of_nat)

text \<open>Two bytes of a 16-bit value, most significant first.\<close>

definition be_bytes16 :: "nat \<Rightarrow> bytes" where
  "be_bytes16 n = [of_nat (n div 256), of_nat (n mod 256)]"

definition be_bytes32 :: "nat \<Rightarrow> bytes" where
  "be_bytes32 n = be_bytes16 (n div 65536) @ be_bytes16 (n mod 65536)"

lemma length_be_bytes [simp]: "length (be_bytes16 n) = 2" "length (be_bytes32 n) = 4"
  by (simp_all add: be_bytes16_def be_bytes32_def)

lemma be_val_bytes16: "n < 65536 \<Longrightarrow> be_val (be_bytes16 n) = n"
  by (simp add: be_bytes16_def be_val_two unat_of_nat)

lemma be_val_append: "be_val (xs @ ys) = be_val xs * 256 ^ length ys + be_val ys"
proof (induction ys rule: rev_induct)
  case (snoc y ys)
  have "be_val (xs @ ys @ [y]) = be_val (xs @ ys) * 256 + unat y"
    using be_val_snoc [of "xs @ ys" y] by simp
  with snoc show ?case by (simp add: be_val_snoc algebra_simps)
qed simp

lemma be_val_bytes32: "n < 2 ^ 32 \<Longrightarrow> be_val (be_bytes32 n) = n"
  by (simp add: be_bytes32_def be_val_append be_val_bytes16)

lemma be32_bytes32: "be32 (be_bytes32 (unat w)) = w"
  using unsigned_less [where ?'a = nat, of w] by (simp add: be32_def be_val_bytes32)

subsection \<open>Streams\<close>

text \<open>The bytes a reader will still yield and whether a read error, not the end, follows them.\<close>

record reader =
  avail :: bytes
  broken :: bool

datatype read_error = ReadFailed

text \<open>
  \<open>io.ReadFull (r, buf)\<close> with a buffer of \<open>n\<close> bytes, where the end of the stream (\<open>io.EOF\<close>,
  \<open>io.ErrUnexpectedEOF\<close>) is not an error: the bytes read and the reader left behind.
\<close>

definition peek :: "nat \<Rightarrow> reader \<Rightarrow> read_error + bytes \<times> reader" where
  "peek n r =
     (if length (avail r) < n \<and> broken r then Inl ReadFailed
      else Inr (take n (avail r), r\<lparr>avail := drop n (avail r)\<rparr>))"

text \<open>\<open>io.MultiReader (bytes.NewReader (buf), r)\<close>\<close>

definition stitch :: "bytes \<Rightarrow> reader \<Rightarrow> reader" where
  "stitch buf r = r\<lparr>avail := buf @ avail r\<rparr>"

lemma peek_stitch: "peek n r = Inr (buf, r') \<Longrightarrow> stitch buf r' = r"
  by (auto simp: peek_def stitch_def split: if_splits)

lemma peek_prefix: "peek n r = Inr (buf, r') \<Longrightarrow> buf = take n (avail r)"
  by (auto simp: peek_def split: if_splits)

end
