(* ===== verification/Formats.thy ===== *)
theory Formats
  imports Prelude "HOL-Library.List_Lexorder" "HOL-Library.Char_ord" "HOL-Library.Product_Lexorder"
    "HOL-Library.AList"
begin

text \<open>
  Format names, the converter registry and the tables keyed by format of \<open>internal/convert\<close>
  (\<open>convert.go\<close>, \<open>converters.go\<close>, \<open>libvips.go\<close>, the pair tables of \<open>libreoffice.go\<close>,
  \<open>chromium.go\<close>, \<open>whisper.go\<close> and \<open>av.go\<close>, and \<open>MIMEType\<close> of \<open>sniff.go\<close>). Strings are ASCII:
  Go's Unicode case folding and white space agree with the model on them.
\<close>

subsection \<open>Strings\<close>

definition is_space :: "char \<Rightarrow> bool" where
  "is_space c \<longleftrightarrow> (of_char c :: nat) \<in> {9, 10, 11, 12, 13, 32}"

definition TrimSpace :: "string \<Rightarrow> string" where
  "TrimSpace s = rev (dropWhile is_space (rev (dropWhile is_space s)))"

definition TrimPrefix :: "string \<Rightarrow> string \<Rightarrow> string" where
  "TrimPrefix s p = (if has_prefix s p then drop (length p) s else s)"

definition lower_char :: "char \<Rightarrow> char" where
  "lower_char c = (let n = of_char c :: nat in if 65 \<le> n \<and> n \<le> 90 then char_of (n + 32) else c)"

definition ToLower :: "string \<Rightarrow> string" where
  "ToLower s = map lower_char s"

subsection \<open>Engine classes and pairs\<close>

definition EngineImage :: string where "EngineImage = ''image''"
definition EngineDocument :: string where "EngineDocument = ''document''"
definition EngineHTML :: string where "EngineHTML = ''html''"
definition EngineAudio :: string where "EngineAudio = ''audio''"
definition EngineAV :: string where "EngineAV = ''av''"

lemmas engine_defs = EngineImage_def EngineDocument_def EngineHTML_def EngineAudio_def EngineAV_def

type_synonym Pair = "string \<times> string"

definition NormalizeFormat :: "string \<Rightarrow> string" where
  "NormalizeFormat f0 =
     (let f = ToLower (TrimPrefix (TrimSpace f0) ''.'')
      in if f = ''jpeg'' then ''jpg'' else if f = ''tif'' then ''tiff''
         else if f = ''htm'' then ''html'' else f)"

definition normalize_pair :: "Pair \<Rightarrow> Pair" where
  "normalize_pair p = (NormalizeFormat (fst p), NormalizeFormat (snd p))"

subsection \<open>Converters\<close>

datatype Converter =
    LibvipsConverter | LibreOfficeConverter | ChromiumConverter | AudioConverter | AVConverter

definition imageFormats :: "string list" where
  "imageFormats = [''png'', ''jpg'', ''webp'', ''heic'', ''tiff'']"

definition documentFormats :: "string list" where
  "documentFormats = [''docx'', ''odt'', ''xlsx'', ''ods'', ''pptx'', ''odp'']"

definition crossPairs :: "Pair list" where
  "crossPairs = [(''docx'', ''odt''), (''odt'', ''docx''), (''xlsx'', ''ods''), (''ods'', ''xlsx''),
     (''pptx'', ''odp''), (''odp'', ''pptx'')]"

definition audioSourceFormats :: "string list" where
  "audioSourceFormats = [''mp3'', ''wav'', ''m4a'', ''ogg'', ''mp4'', ''mov'', ''avi'', ''mkv'', ''webm'']"

definition audioTargetFormats :: "string list" where
  "audioTargetFormats = [''txt'', ''srt'', ''vtt'', ''json'']"

definition avTranscodeToMP4Sources :: "string list" where
  "avTranscodeToMP4Sources = [''mov'', ''avi'', ''mkv'', ''webm'']"

definition avExtractSources :: "string list" where
  "avExtractSources = [''mp4'', ''mov'', ''avi'', ''mkv'', ''webm'']"

definition avAudioExtractTargets :: "string list" where
  "avAudioExtractTargets = [''mp3'', ''wav'', ''m4a'']"

definition avThumbnailExtractTargets :: "string list" where
  "avThumbnailExtractTargets = [''jpg'', ''png'', ''webp'']"

fun Pairs :: "Converter \<Rightarrow> Pair list" where
  "Pairs LibvipsConverter =
     concat (map (\<lambda>from. concat (map (\<lambda>to. if from \<noteq> to then [(from, to)] else []) imageFormats)) imageFormats)"
| "Pairs LibreOfficeConverter = map (\<lambda>f. (f, ''pdf'')) documentFormats @ crossPairs"
| "Pairs ChromiumConverter = [(''html'', ''pdf'')]"
| "Pairs AudioConverter =
     concat (map (\<lambda>from. map (\<lambda>to. (from, to)) audioTargetFormats) audioSourceFormats)"
| "Pairs AVConverter =
     map (\<lambda>from. (from, ''mp4'')) avTranscodeToMP4Sources @ [(''mp4'', ''webm'')]
     @ concat (map (\<lambda>from. map (\<lambda>to. (from, to)) avAudioExtractTargets) avExtractSources)
     @ concat (map (\<lambda>from. map (\<lambda>to. (from, to)) avThumbnailExtractTargets) avExtractSources)"

fun converter_engine :: "Converter \<Rightarrow> string" where
  "converter_engine LibvipsConverter = EngineImage"
| "converter_engine LibreOfficeConverter = EngineDocument"
| "converter_engine ChromiumConverter = EngineHTML"
| "converter_engine AudioConverter = EngineAudio"
| "converter_engine AVConverter = EngineAV"

subsection \<open>The registry\<close>

text \<open>The Go map is an association list with distinct keys.\<close>

type_synonym Registry = "(Pair \<times> Converter) list"

definition NewRegistry :: Registry where
  "NewRegistry = []"

definition Register :: "Registry \<Rightarrow> Converter \<Rightarrow> Registry" where
  "Register r c = foldl (\<lambda>m p. AList.update (normalize_pair p) c m) r (Pairs c)"

definition Lookup :: "Registry \<Rightarrow> string \<Rightarrow> string \<Rightarrow> Converter option" where
  "Lookup r from to = map_of r (normalize_pair (from, to))"

definition Supports :: "Registry \<Rightarrow> string \<Rightarrow> string \<Rightarrow> bool" where
  "Supports r from to \<longleftrightarrow> Lookup r from to \<noteq> None"

definition EngineFor :: "Registry \<Rightarrow> string \<Rightarrow> string \<Rightarrow> string option" where
  "EngineFor r from to =
     (case Lookup r from to of None \<Rightarrow> None | Some c \<Rightarrow> Some (converter_engine c))"

text \<open>
  \<open>Classes\<close> ranges over the map in an unspecified order, so the order of the entries is an
  argument; the pairs of a class are then sorted by source and target.
\<close>

definition class_pairs :: "(Pair \<times> Converter) list \<Rightarrow> string \<Rightarrow> Pair list" where
  "class_pairs entries cls = sort (map fst (filter (\<lambda>e. converter_engine (snd e) = cls) entries))"

definition Classes :: "(Pair \<times> Converter) list \<Rightarrow> (string \<rightharpoonup> Pair list)" where
  "Classes entries cls = (let ps = class_pairs entries cls in if ps = [] then None else Some ps)"

definition Default :: Registry where
  "Default = foldl Register NewRegistry
     [LibvipsConverter, LibreOfficeConverter, ChromiumConverter, AudioConverter, AVConverter]"

subsection \<open>Tables keyed by format\<close>

definition mime_table :: "(string \<times> string) list" where
  "mime_table =
     [(''png'', ''image/png''), (''jpg'', ''image/jpeg''), (''webp'', ''image/webp''),
      (''heic'', ''image/heic''), (''tiff'', ''image/tiff''), (''pdf'', ''application/pdf''),
      (''docx'', ''application/vnd.openxmlformats-officedocument.wordprocessingml.document''),
      (''xlsx'', ''application/vnd.openxmlformats-officedocument.spreadsheetml.sheet''),
      (''pptx'', ''application/vnd.openxmlformats-officedocument.presentationml.presentation''),
      (''odt'', ''application/vnd.oasis.opendocument.text''),
      (''ods'', ''application/vnd.oasis.opendocument.spreadsheet''),
      (''odp'', ''application/vnd.oasis.opendocument.presentation''),
      (''html'', ''text/html''), (''mp3'', ''audio/mpeg''), (''wav'', ''audio/wav''),
      (''m4a'', ''audio/mp4''), (''ogg'', ''audio/ogg''), (''txt'', ''text/plain''),
      (''srt'', ''application/x-subrip''), (''vtt'', ''text/vtt''), (''json'', ''application/json''),
      (''mp4'', ''video/mp4''), (''mov'', ''video/quicktime''), (''avi'', ''video/x-msvideo''),
      (''mkv'', ''video/x-matroska''), (''webm'', ''video/webm'')]"

definition MIMEType :: "string \<Rightarrow> string" where
  "MIMEType format = (case map_of mime_table (NormalizeFormat format) of
     Some t \<Rightarrow> t | None \<Rightarrow> ''application/octet-stream'')"

definition filterTable :: "(Pair \<times> string) list" where
  "filterTable =
     [((''docx'', ''pdf''), ''writer_pdf_Export''), ((''odt'', ''pdf''), ''writer_pdf_Export''),
      ((''xlsx'', ''pdf''), ''calc_pdf_Export''), ((''ods'', ''pdf''), ''calc_pdf_Export''),
      ((''pptx'', ''pdf''), ''impress_pdf_Export''), ((''odp'', ''pdf''), ''impress_pdf_Export''),
      ((''docx'', ''odt''), ''writer8''), ((''odt'', ''docx''), ''MS Word 2007 XML''),
      ((''xlsx'', ''ods''), ''calc8''), ((''ods'', ''xlsx''), ''Calc MS Excel 2007 XML''),
      ((''pptx'', ''odp''), ''impress8''), ((''odp'', ''pptx''), ''Impress MS PowerPoint 2007 XML'')]"

definition filterFor :: "string \<Rightarrow> string \<Rightarrow> string + string" where
  "filterFor sourceExt targetFormat =
     (case map_of filterTable (NormalizeFormat sourceExt, NormalizeFormat targetFormat) of
        Some f \<Rightarrow> Inr f
      | None \<Rightarrow> Inl (''no export filter for '' @ sourceExt @ '' -> '' @ targetFormat))"

subsection \<open>The registry as an interface\<close>

text \<open>What the API and the worker rely on: a lookup returns the converter registered last for
  the normalized pair, and registering never loses other pairs.\<close>

locale registry =
  fixes empty_reg :: 'r
    and reg :: "'r \<Rightarrow> Converter \<Rightarrow> 'r"
    and look :: "'r \<Rightarrow> string \<Rightarrow> string \<Rightarrow> Converter option"
  assumes look_empty: "look empty_reg f t = None"
    and look_reg: "look (reg r c) f t =
      (if normalize_pair (f, t) \<in> normalize_pair ` set (Pairs c) then Some c else look r f t)"
begin

lemma look_regs_in:
  "look (foldl reg r cs) f t = Some c \<Longrightarrow>
   c \<in> set cs \<and> normalize_pair (f, t) \<in> normalize_pair ` set (Pairs c) \<or> look r f t = Some c"
  by (induction cs arbitrary: r) (fastforce simp: look_reg split: if_splits)+

lemma look_regs_complete:
  "c \<in> set cs \<Longrightarrow> normalize_pair (f, t) \<in> normalize_pair ` set (Pairs c) \<Longrightarrow>
   look (foldl reg r cs) f t \<noteq> None"
proof (induction cs arbitrary: r rule: rev_induct)
  case (snoc x xs)
  then show ?case by (auto simp: look_reg)
qed simp

text \<open>With pairwise disjoint pair sets the last-write-wins rule never decides anything.\<close>

lemma look_regs_disjoint:
  assumes "\<And>a b. a \<in> set cs \<Longrightarrow> b \<in> set cs \<Longrightarrow> a \<noteq> b \<Longrightarrow>
      normalize_pair ` set (Pairs a) \<inter> normalize_pair ` set (Pairs b) = {}"
    and "c \<in> set cs" and "normalize_pair (f, t) \<in> normalize_pair ` set (Pairs c)"
    and "look r f t = None"
  shows "look (foldl reg r cs) f t = Some c"
proof -
  obtain c' where c': "look (foldl reg r cs) f t = Some c'"
    using look_regs_complete [OF assms(2,3)] by blast
  have "c' \<in> set cs \<and> normalize_pair (f, t) \<in> normalize_pair ` set (Pairs c')"
    using look_regs_in [OF c'] assms(4) by simp
  then have "c' = c"
    using assms(1) [of c' c] assms(2,3) by blast
  with c' show ?thesis by simp
qed

end

lemma map_of_updates:
  "map_of (foldl (\<lambda>m p. AList.update (g p) c m) r ps) k =
     (if k \<in> g ` set ps then Some c else map_of r k)"
  by (induction ps arbitrary: r) (auto simp: update_conv')

interpretation go_registry: registry NewRegistry Register Lookup
  by unfold_locales (simp_all add: NewRegistry_def Lookup_def Register_def map_of_updates)

subsection \<open>The default registry\<close>

text \<open>The source and target formats each converter uses.\<close>

fun source_formats :: "Converter \<Rightarrow> string list" where
  "source_formats LibvipsConverter = imageFormats"
| "source_formats LibreOfficeConverter = documentFormats"
| "source_formats ChromiumConverter = [''html'']"
| "source_formats AudioConverter = audioSourceFormats"
| "source_formats AVConverter = avExtractSources"

fun target_formats :: "Converter \<Rightarrow> string list" where
  "target_formats LibvipsConverter = imageFormats"
| "target_formats LibreOfficeConverter = ''pdf'' # documentFormats"
| "target_formats ChromiumConverter = [''pdf'']"
| "target_formats AudioConverter = audioTargetFormats"
| "target_formats AVConverter = [''mp4'', ''webm''] @ avAudioExtractTargets @ avThumbnailExtractTargets"

lemmas format_lists = imageFormats_def documentFormats_def crossPairs_def audioSourceFormats_def
  audioTargetFormats_def avTranscodeToMP4Sources_def avExtractSources_def avAudioExtractTargets_def
  avThumbnailExtractTargets_def

lemma Pairs_formats:
  "p \<in> set (Pairs c) \<Longrightarrow> fst p \<in> set (source_formats c) \<and> snd p \<in> set (target_formats c)"
  by (cases c) (auto simp: crossPairs_def documentFormats_def avTranscodeToMP4Sources_def
      avExtractSources_def split: if_splits)

lemma source_formats_disjoint:
  "a \<noteq> b \<Longrightarrow> {a, b} \<noteq> {AudioConverter, AVConverter} \<Longrightarrow>
   set (source_formats a) \<inter> set (source_formats b) = {}"
  by (cases a; cases b) (simp_all add: format_lists insert_commute)

lemma target_formats_disjoint: "set (target_formats AudioConverter) \<inter> set (target_formats AVConverter) = {}"
  by (simp add: format_lists)

lemma pairs_disjoint: "a \<noteq> b \<Longrightarrow> set (Pairs a) \<inter> set (Pairs b) = {}"
  using source_formats_disjoint [of a b] target_formats_disjoint Pairs_formats
  by (cases "{a, b} = {AudioConverter, AVConverter}") (fastforce simp: doubleton_eq_iff disjoint_iff simp del: Pairs.simps source_formats.simps target_formats.simps)+

definition format_names :: "string list" where
  "format_names = imageFormats @ documentFormats @ [''html'', ''pdf''] @ audioSourceFormats @ audioTargetFormats"

lemma format_names_normalized: "f \<in> set format_names \<Longrightarrow> NormalizeFormat f = f"
  by (auto simp: format_names_def format_lists NormalizeFormat_def ToLower_def lower_char_def
      TrimPrefix_def TrimSpace_def is_space_def has_prefix_def)

lemma Pairs_names: "p \<in> set (Pairs c) \<Longrightarrow> fst p \<in> set format_names \<and> snd p \<in> set format_names"
  using Pairs_formats [of p c] by (cases c) (auto simp: format_names_def format_lists simp del: Pairs.simps)

lemma pairs_normalized: "p \<in> set (Pairs c) \<Longrightarrow> normalize_pair p = p"
  using Pairs_names [of p c] by (simp add: normalize_pair_def format_names_normalized)

lemma normalized_pairs [simp]: "normalize_pair ` set (Pairs c) = set (Pairs c)"
  using pairs_normalized by force

lemma Lookup_Default: "Lookup Default f t = Some c \<longleftrightarrow> normalize_pair (f, t) \<in> set (Pairs c)"
proof
  assume "Lookup Default f t = Some c"
  from go_registry.look_regs_in [OF this [unfolded Default_def]]
  show "normalize_pair (f, t) \<in> set (Pairs c)" by (auto simp: go_registry.look_empty)
next
  assume c: "normalize_pair (f, t) \<in> set (Pairs c)"
  have "c \<in> set [LibvipsConverter, LibreOfficeConverter, ChromiumConverter, AudioConverter, AVConverter]"
    by (cases c) simp_all
  then show "Lookup Default f t = Some c"
    unfolding Default_def
    by (rule go_registry.look_regs_disjoint [rotated]) (use c pairs_disjoint in \<open>auto simp: go_registry.look_empty\<close>)
qed

text \<open>The default registry never resolves a collision silently: the five converters advertise
  pairwise disjoint pairs, so a lookup returns a converter exactly when that converter
  advertises the normalized pair, whatever the registration order.\<close>

theorem default_registry_exact:
  "(a \<noteq> b \<longrightarrow> set (Pairs a) \<inter> set (Pairs b) = {})
   \<and> (Lookup Default f t = Some c \<longleftrightarrow> normalize_pair (f, t) \<in> set (Pairs c))"
  by (simp add: pairs_disjoint Lookup_Default)

theorem default_registry_exact_witness:
  "Lookup Default ''.MOV'' '' mp4 '' = Some AVConverter"
proof -
  have "normalize_pair (''.MOV'', '' mp4 '') \<in> set (Pairs AVConverter)" by code_simp
  then show ?thesis
    using default_registry_exact [of LibvipsConverter AVConverter "''.MOV''" "'' mp4 ''" AVConverter]
    by simp
qed

subsection \<open>Capability discovery\<close>

text \<open>An enumeration of a registry: every entry once, in any order.\<close>

definition enumerates :: "(Pair \<times> Converter) list \<Rightarrow> Registry \<Rightarrow> bool" where
  "enumerates es r \<longleftrightarrow> distinct (map fst es) \<and> map_of es = map_of r"

lemma enumerates_mem: "enumerates es r \<Longrightarrow> (p, c) \<in> set es \<longleftrightarrow> map_of r p = Some c"
  unfolding enumerates_def by (metis map_of_eq_Some_iff)

lemma class_pairs_mem:
  "enumerates es r \<Longrightarrow> p \<in> set (class_pairs es cls) \<longleftrightarrow>
     (\<exists>c. map_of r p = Some c \<and> converter_engine c = cls)"
  by (force simp: class_pairs_def enumerates_mem [symmetric])

lemma class_pairs_sorted: "enumerates es r \<Longrightarrow> distinct (class_pairs es cls) \<and> sorted (class_pairs es cls)"
  by (auto simp: class_pairs_def enumerates_def distinct_map_filter)

text \<open>The capability listing does not depend on the order Go ranges over the registry map:
  two enumerations of the same registry give the same sorted list for every engine class, and
  the list holds exactly the pairs that class's converter handles.\<close>

theorem classes_deterministic:
  assumes "enumerates es r" and "enumerates es' r"
  shows "Classes es = Classes es'
    \<and> (p \<in> set (class_pairs es cls) \<longleftrightarrow> (\<exists>c. map_of r p = Some c \<and> converter_engine c = cls))"
proof -
  have "class_pairs es k = class_pairs es' k" for k
    using class_pairs_sorted [OF assms(1), of k] class_pairs_sorted [OF assms(2), of k]
      class_pairs_mem [OF assms(1)] class_pairs_mem [OF assms(2)]
    by (intro sorted_distinct_set_unique) auto
  then have "Classes es = Classes es'" by (simp add: Classes_def fun_eq_iff)
  then show ?thesis using class_pairs_mem [OF assms(1), of p cls] by simp
qed

theorem classes_deterministic_witness:
  "Classes [((''a'', ''b''), AVConverter), ((''a'', ''a''), AVConverter)]
     = Classes [((''a'', ''a''), AVConverter), ((''a'', ''b''), AVConverter)]"
proof -
  let ?r = "[((''a'', ''b''), AVConverter), ((''a'', ''a''), AVConverter)]"
  have "enumerates ?r ?r" "enumerates [((''a'', ''a''), AVConverter), ((''a'', ''b''), AVConverter)] ?r"
    by (auto simp: enumerates_def)
  then show ?thesis using classes_deterministic by blast
qed

subsection \<open>Coverage of the tables\<close>

lemma names_have_mime: "f \<in> set format_names \<Longrightarrow> map_of mime_table f \<noteq> None"
  by (auto simp: format_names_def format_lists mime_table_def)

lemma mime_table_specific: "map_of mime_table f \<noteq> Some ''application/octet-stream''"
  by (auto simp: mime_table_def)

lemma document_pairs_filters: "p \<in> set (Pairs LibreOfficeConverter) \<Longrightarrow> map_of filterTable p \<noteq> None"
  by (auto simp: documentFormats_def crossPairs_def filterTable_def)

text \<open>Every convertible pair has its tables: both formats of a supported pair have a specific
  MIME type, and every pair LibreOffice advertises has an export filter.\<close>

theorem supported_pairs_have_tables:
  assumes "Lookup Default f t = Some c"
  shows "MIMEType f \<noteq> ''application/octet-stream'' \<and> MIMEType t \<noteq> ''application/octet-stream''
    \<and> (c = LibreOfficeConverter \<longrightarrow> (\<exists>x. filterFor f t = Inr x))"
proof -
  have m: "normalize_pair (f, t) \<in> set (Pairs c)"
    using assms by (simp add: Lookup_Default)
  show ?thesis
    using Pairs_names [OF m] m mime_table_specific document_pairs_filters [of "normalize_pair (f, t)"]
      names_have_mime [of "NormalizeFormat f"] names_have_mime [of "NormalizeFormat t"]
    by (auto simp: MIMEType_def filterFor_def normalize_pair_def simp del: Pairs.simps split: option.splits)
qed

theorem supported_pairs_have_tables_witness:
  "\<exists>x. filterFor ''docx'' ''pdf'' = Inr x"
proof -
  have "Lookup Default ''docx'' ''pdf'' = Some LibreOfficeConverter"
    unfolding Lookup_Default by code_simp
  from supported_pairs_have_tables [OF this] show ?thesis by simp
qed

end
