(* ===== verification/Dimensions.thy ===== *)
theory Dimensions
  imports Bytes Formats
begin

text \<open>
  The declared-size parsers of \<open>internal/convert/dimensions.go\<close>. Each works on a bounded prefix of an
  upload that anyone may have forged. A result \<open>None\<close> is a run-time panic (an index or a slice out
  of range), \<open>Some None\<close> is the Go result \<open>ok = false\<close>, and \<open>Some (Some (w, h))\<close> is a pair of declared
  sizes. Offsets are natural numbers: the window is 64 KiB, so the Go \<open>int\<close> sums cannot wrap;
  the TIFF offsets, which the code keeps in \<open>uint32\<close>, are 32-bit words here too.
\<close>

unbundle bit_operations_syntax

type_synonym dims = "(u32 \<times> u32) option"

definition dimPeekLen :: nat where "dimPeekLen = 64 * 1024"

subsection \<open>PNG and WebP\<close>

definition pngDimensions :: "bytes \<Rightarrow> dims option" where
  "pngDimensions b =
     (if length b < 24 then Some None
      else do {
        tag \<leftarrow> gslice b 12 16;
        if tag \<noteq> bytes_of ''IHDR'' then Some None
        else do {
          width \<leftarrow> gslice b 16 20;
          height \<leftarrow> gslice b 20 24;
          Some (Some (be32 width, be32 height))
        }
      })"

text \<open>\<open>uint32 (x) << k\<close> for a byte \<open>x\<close>.\<close>

definition u32_at :: "nat \<Rightarrow> u8 \<Rightarrow> u32" where
  "u32_at k x = push_bit k (ucast x)"

definition webpDimensions :: "bytes \<Rightarrow> dims option" where
  "webpDimensions b =
     (if length b < 20 then Some None
      else do {
        riff \<leftarrow> gslice b 0 4;
        webp \<leftarrow> gslice b 8 12;
        if riff \<noteq> bytes_of ''RIFF'' \<or> webp \<noteq> bytes_of ''WEBP'' then Some None
        else do {
          fourCC \<leftarrow> gslice b 12 16;
          if fourCC = bytes_of ''VP8X'' then
            (if length b < 30 then Some None
             else do {
               b24 \<leftarrow> gidx b 24; b25 \<leftarrow> gidx b 25; b26 \<leftarrow> gidx b 26;
               b27 \<leftarrow> gidx b 27; b28 \<leftarrow> gidx b 28; b29 \<leftarrow> gidx b 29;
               Some (Some ((u32_at 0 b24 OR u32_at 8 b25 OR u32_at 16 b26) + 1,
                           (u32_at 0 b27 OR u32_at 8 b28 OR u32_at 16 b29) + 1))
             })
          else if fourCC = bytes_of ''VP8 '' then
            (if length b < 30 then Some None
             else do {
               b23 \<leftarrow> gidx b 23; b24 \<leftarrow> gidx b 24; b25 \<leftarrow> gidx b 25;
               if b23 \<noteq> 0x9D \<or> b24 \<noteq> 0x01 \<or> b25 \<noteq> 0x2A then Some None
               else do {
                 b26 \<leftarrow> gidx b 26; b27 \<leftarrow> gidx b 27; b28 \<leftarrow> gidx b 28; b29 \<leftarrow> gidx b 29;
                 Some (Some ((u32_at 0 b26 OR u32_at 8 b27) AND 0x3FFF, (u32_at 0 b28 OR u32_at 8 b29) AND 0x3FFF))
               }
             })
          else if fourCC = bytes_of ''VP8L'' then
            (if length b < 25 then Some None
             else do {
               b20 \<leftarrow> gidx b 20;
               if b20 \<noteq> 0x2F then Some None
               else do {
                 b21 \<leftarrow> gidx b 21; b22 \<leftarrow> gidx b 22; b23 \<leftarrow> gidx b 23; b24 \<leftarrow> gidx b 24;
                 let bits = u32_at 0 b21 OR u32_at 8 b22 OR u32_at 16 b23 OR u32_at 24 b24;
                 Some (Some ((bits AND 0x3FFF) + 1, (drop_bit 14 bits AND 0x3FFF) + 1))
               }
             })
          else Some None
        }
      })"

subsection \<open>JPEG\<close>

definition isSOF :: "u8 \<Rightarrow> bool" where
  "isSOF marker \<longleftrightarrow> 0xC0 \<le> marker \<and> marker \<le> 0xCF \<and> marker \<noteq> 0xC4 \<and> marker \<noteq> 0xC8 \<and> marker \<noteq> 0xCC"

text \<open>Markers without a length field: TEM, RST0 to RST7, and a stray SOI.\<close>

definition standalone :: "u8 \<Rightarrow> bool" where
  "standalone marker \<longleftrightarrow> marker = 0x01 \<or> (0xD0 \<le> marker \<and> marker \<le> 0xD7) \<or> marker = 0xD8"

text \<open>The loop of \<open>jpegDimensions\<close> from index \<open>i\<close>.\<close>

function jpeg_scan :: "bytes \<Rightarrow> nat \<Rightarrow> dims option" where
  "jpeg_scan b i =
     (if \<not> i + 1 < length b then Some None
      else do {
        b0 \<leftarrow> gidx b i;
        if b0 \<noteq> 0xFF then jpeg_scan b (i + 1)
        else do {
          marker \<leftarrow> gidx b (i + 1);
          if marker = 0xFF then jpeg_scan b (i + 1)
          else if standalone marker then jpeg_scan b (i + 2)
          else if marker = 0xD9 \<or> marker = 0xDA then Some None
          else if length b < i + 4 then Some None
          else do {
            l1 \<leftarrow> gidx b (i + 2);
            l2 \<leftarrow> gidx b (i + 3);
            let segLen = be_val [l1, l2];
            if isSOF marker then
              (if length b < i + 9 then Some None
               else do {
                 b5 \<leftarrow> gidx b (i + 5); b6 \<leftarrow> gidx b (i + 6); b7 \<leftarrow> gidx b (i + 7); b8 \<leftarrow> gidx b (i + 8);
                 let height = u32_at 8 b5 OR u32_at 0 b6;
                 let width = u32_at 8 b7 OR u32_at 0 b8;
                 Some (Some (width, height))
               })
            else if segLen < 2 \<or> length b < i + 2 + segLen then Some None
            else jpeg_scan b (i + 2 + segLen)
          }
        }
      })"
  by pat_completeness auto

termination
  by (relation "measure (\<lambda>(b, i). length b - i)") auto

declare jpeg_scan.simps [simp del]

definition jpegDimensions :: "bytes \<Rightarrow> dims option" where
  "jpegDimensions b =
     (if length b < 4 then Some None
      else do {
        b0 \<leftarrow> gidx b 0;
        b1 \<leftarrow> gidx b 1;
        if b0 \<noteq> 0xFF \<or> b1 \<noteq> 0xD8 then Some None else jpeg_scan b 2
      })"

subsection \<open>TIFF\<close>

datatype byteOrder = LittleEndian | BigEndian

fun bo16 :: "byteOrder \<Rightarrow> bytes \<Rightarrow> u16" where
  "bo16 LittleEndian b = le16 b"
| "bo16 BigEndian b = be16 b"

fun bo32 :: "byteOrder \<Rightarrow> bytes \<Rightarrow> u32" where
  "bo32 LittleEndian b = le32 b"
| "bo32 BigEndian b = be32 b"

text \<open>\<open>b[off : off+k]\<close> with a \<open>uint32\<close> offset, whose sum wraps.\<close>

definition slice32 :: "bytes \<Rightarrow> u32 \<Rightarrow> u32 \<Rightarrow> bytes option" where
  "slice32 b lo hi = gslice b (unat lo) (unat hi)"

text \<open>The loop over the directory entries from index \<open>i\<close>, with the sizes found so far.\<close>

function tiff_entries :: "bytes \<Rightarrow> byteOrder \<Rightarrow> u32 \<Rightarrow> u16 \<Rightarrow> nat \<Rightarrow> u32 option \<Rightarrow> u32 option \<Rightarrow> dims option" where
  "tiff_entries b bo entriesStart count i width height =
     (if \<not> i < unat count then Some None
      else
        let off = entriesStart + of_nat i * 12 in
        if length b < unat off + 12 then Some None
        else do {
          tagb \<leftarrow> slice32 b off (off + 2);
          let tag = bo16 bo tagb;
          if tag \<noteq> 256 \<and> tag \<noteq> 257 then tiff_entries b bo entriesStart count (i + 1) width height
          else do {
            typb \<leftarrow> slice32 b (off + 2) (off + 4);
            let typ = bo16 bo typb;
            if typ \<noteq> 3 \<and> typ \<noteq> 4 then tiff_entries b bo entriesStart count (i + 1) width height
            else do {
              val \<leftarrow> (if typ = 3 then do { v \<leftarrow> slice32 b (off + 8) (off + 10); Some (ucast (bo16 bo v)) }
                     else do { v \<leftarrow> slice32 b (off + 8) (off + 12); Some (bo32 bo v) });
              let width' = (if tag = 256 then Some val else width);
              let height' = (if tag = 256 then height else Some val);
              (case (width', height') of
                 (Some w, Some h) \<Rightarrow> Some (Some (w, h))
               | _ \<Rightarrow> tiff_entries b bo entriesStart count (i + 1) width' height')
            }
          }
        })"
  by pat_completeness auto

termination
  by (relation "measure (\<lambda>(b, bo, st, count, i, w, h). unat count - i)") auto

declare tiff_entries.simps [simp del]

definition tiffDimensions :: "bytes \<Rightarrow> dims option" where
  "tiffDimensions b =
     (if length b < 8 then Some None
      else do {
        mark \<leftarrow> gslice b 0 2;
        case (if mark = [0x49, 0x49] then Some LittleEndian
              else if mark = [0x4D, 0x4D] then Some BigEndian else None) of
          None \<Rightarrow> Some None
        | Some bo \<Rightarrow> do {
            offb \<leftarrow> gslice b 4 8;
            let ifdOffset = bo32 bo offb;
            if length b < unat ifdOffset + 2 then Some None
            else do {
              cntb \<leftarrow> slice32 b ifdOffset (ifdOffset + 2);
              tiff_entries b bo (ifdOffset + 2) (bo16 bo cntb) 0 None None
            }
          }
      })"

subsection \<open>HEIC\<close>

text \<open>The header of the box at index \<open>i\<close>: its size and the length of its header, or nothing when the
  walk must stop there.\<close>

definition box_header :: "bytes \<Rightarrow> nat \<Rightarrow> (nat \<times> nat) option option" where
  "box_header buf i = do {
     szb \<leftarrow> gslice buf i (i + 4);
     let size32 = unat (be32 szb);
     if size32 = 1 then
       (if length buf < i + 16 then Some None
        else do {
          lb \<leftarrow> gslice buf (i + 8) (i + 16);
          let size64 = unat (be64 lb);
          if length buf < size64 then Some None else Some (Some (size64, 16))
        })
     else if size32 = 0 then Some None
     else Some (Some (size32, 8))
   }"

lemma box_header_positive: "box_header buf i = Some (Some (sz, hl)) \<Longrightarrow> 8 \<le> hl"
  by (auto simp: box_header_def Let_def bind_eq_Some_conv split: if_splits)

text \<open>
  \<open>walkBoxes\<close> from index \<open>i\<close>. The callback sees the type and the payload of a box and the state \<open>s\<close> its
  closure captured; it answers whether to go on, and may itself panic.
\<close>

function walkBoxes :: "bytes \<Rightarrow> (bytes \<Rightarrow> bytes \<Rightarrow> 's \<Rightarrow> (bool \<times> 's) option) \<Rightarrow> nat \<Rightarrow> 's \<Rightarrow> 's option" where
  "walkBoxes buf fn i s =
     (if \<not> i + 8 \<le> length buf then Some s
      else do {
        boxType \<leftarrow> gslice buf (i + 4) (i + 8);
        hdr \<leftarrow> box_header buf i;
        (case hdr of
           None \<Rightarrow> Some s
         | Some (sz, headerLen) \<Rightarrow>
             if sz < headerLen \<or> length buf < i + sz then Some s
             else do {
               payload \<leftarrow> gslice buf (i + headerLen) (i + sz);
               (go, s') \<leftarrow> fn boxType payload s;
               if \<not> go then Some s' else walkBoxes buf fn (i + sz) s'
             })
      })"
  by pat_completeness auto

termination
  by (relation "measure (\<lambda>(buf, fn, i, s). length buf - i)") (auto dest: box_header_positive)

declare walkBoxes.simps [simp del]

text \<open>The captured variables \<open>maxW\<close>, \<open>maxH\<close> and \<open>found\<close>.\<close>

type_synonym heic_state = "u32 \<times> u32 \<times> bool"

definition on_ispe :: "bytes \<Rightarrow> bytes \<Rightarrow> heic_state \<Rightarrow> (bool \<times> heic_state) option" where
  "on_ispe t3 p3 st =
     (case st of (maxW, maxH, found) \<Rightarrow>
        if t3 = bytes_of ''ispe'' \<and> 12 \<le> length p3 then do {
          wb \<leftarrow> gslice p3 4 8;
          hb \<leftarrow> gslice p3 8 12;
          let w = be32 wb;
          let h = be32 hb;
          Some (True,
            if (ucast maxW * ucast maxH :: u64) < ucast w * ucast h then (w, h, True) else (maxW, maxH, True))
        }
        else Some (True, st))"

definition on_ipco :: "bytes \<Rightarrow> bytes \<Rightarrow> heic_state \<Rightarrow> (bool \<times> heic_state) option" where
  "on_ipco t2 p2 st =
     (if t2 \<noteq> bytes_of ''ipco'' then Some (True, st)
      else do { st' \<leftarrow> walkBoxes p2 on_ispe 0 st; Some (False, st') })"

definition on_iprp :: "bytes \<Rightarrow> bytes \<Rightarrow> heic_state \<Rightarrow> (bool \<times> heic_state) option" where
  "on_iprp t p st =
     (if t \<noteq> bytes_of ''iprp'' then Some (True, st)
      else do { st' \<leftarrow> walkBoxes p on_ipco 0 st; Some (False, st') })"

definition on_meta :: "bytes \<Rightarrow> bytes \<Rightarrow> heic_state \<Rightarrow> (bool \<times> heic_state) option" where
  "on_meta boxType payload st =
     (if boxType \<noteq> bytes_of ''meta'' \<or> length payload < 4 then Some (True, st)
      else do {
        inner \<leftarrow> gslice payload 4 (length payload);
        st' \<leftarrow> walkBoxes inner on_iprp 0 st;
        Some (False, st')
      })"

definition heicDimensions :: "bytes \<Rightarrow> dims option" where
  "heicDimensions b = do {
     (maxW, maxH, found) \<leftarrow> walkBoxes b on_meta 0 (0, 0, False);
     Some (if found then Some (maxW, maxH) else None)
   }"

subsection \<open>Dispatch\<close>

definition dimensionParsers :: "(string \<times> (bytes \<Rightarrow> dims option)) list" where
  "dimensionParsers =
     [(''png'', pngDimensions), (''jpg'', jpegDimensions), (''webp'', webpDimensions),
      (''heic'', heicDimensions), (''tiff'', tiffDimensions)]"

definition HasDimensionLimit :: "string \<Rightarrow> bool" where
  "HasDimensionLimit format \<longleftrightarrow> map_of dimensionParsers (NormalizeFormat format) \<noteq> None"

datatype dim_error = DimReadError | ErrDimensionsUnknown

text \<open>
  \<open>Dimensions\<close>: the declared width and height or an error, with the re-stitched reader (a read
  error returns none). The outer option is the parser's panic.
\<close>

definition Dimensions :: "string \<Rightarrow> reader \<Rightarrow> ((dim_error + u32 \<times> u32) \<times> reader option) option" where
  "Dimensions format r =
     (case peek dimPeekLen r of
        Inl _ \<Rightarrow> Some (Inl DimReadError, None)
      | Inr (buf, r') \<Rightarrow>
          let rest = stitch buf r' in
          (case map_of dimensionParsers (NormalizeFormat format) of
             None \<Rightarrow> Some (Inl ErrDimensionsUnknown, Some rest)
           | Some parser \<Rightarrow> do {
               found \<leftarrow> parser buf;
               Some (case found of
                       None \<Rightarrow> (Inl ErrDimensionsUnknown, Some rest)
                     | Some wh \<Rightarrow> (Inr wh, Some rest))
             }))"

subsection \<open>No panic\<close>

named_theorems total \<open>a parser returns on every input\<close>

lemma png_total [total]: "pngDimensions b \<noteq> None"
  by (simp add: pngDimensions_def go_simps)

lemma webp_total [total]: "webpDimensions b \<noteq> None"
  by (simp add: webpDimensions_def go_simps Let_def)

lemma jpeg_scan_total: "jpeg_scan b i \<noteq> None"
proof (induction b i rule: jpeg_scan.induct)
  case (1 b i)
  then show ?case
    by (subst jpeg_scan.simps) (simp add: go_simps Let_def)
qed

lemma jpeg_total [total]: "jpegDimensions b \<noteq> None"
  using jpeg_scan_total [of b 2] by (cases b) (auto simp: jpegDimensions_def gidx_def)

lemma slice32_in_range:
  assumes "unat off + 12 \<le> length b" "length b \<le> dimPeekLen" "k \<le> l" "l \<le> 12"
  shows "\<exists>xs. slice32 b (off + of_nat k) (off + of_nat l) = Some xs"
proof -
  have "unat (off + of_nat m) = unat off + m" if "m \<le> 12" for m
    using assms(1,2) that by (simp add: unat_word_ariths unat_of_nat dimPeekLen_def)
  with assms show ?thesis by (simp add: slice32_def gslice_def)
qed

lemma tiff_slices:
  assumes "unat off + 12 \<le> length b" "length b \<le> dimPeekLen"
  shows "\<exists>xs. slice32 b off (off + 2) = Some xs" "\<exists>xs. slice32 b (off + 2) (off + 4) = Some xs"
    "\<exists>xs. slice32 b (off + 8) (off + 10) = Some xs" "\<exists>xs. slice32 b (off + 8) (off + 12) = Some xs"
  using slice32_in_range [OF assms, of 0 2] slice32_in_range [OF assms, of 2 4]
    slice32_in_range [OF assms, of 8 10] slice32_in_range [OF assms, of 8 12]
  by simp_all

lemma tiff_entries_total: "length b \<le> dimPeekLen \<Longrightarrow> tiff_entries b bo st cnt i w h \<noteq> None"
proof (induction b bo st cnt i w h rule: tiff_entries.induct)
  case (1 b bo st cnt i w h)
  show ?case
  proof (cases "i < unat cnt \<and> unat (st + of_nat i * 12) + 12 \<le> length b")
    case True
    with tiff_slices [of "st + of_nat i * 12" b] "1.prems" obtain x1 x2 x3 x4 where
      sl: "slice32 b (st + of_nat i * 12) (st + of_nat i * 12 + 2) = Some x1"
        "slice32 b (st + of_nat i * 12 + 2) (st + of_nat i * 12 + 4) = Some x2"
        "slice32 b (st + of_nat i * 12 + 8) (st + of_nat i * 12 + 10) = Some x3"
        "slice32 b (st + of_nat i * 12 + 8) (st + of_nat i * 12 + 12) = Some x4"
      by auto
    from True "1.IH" [OF _ refl _ sl(1) refl] "1.prems" show ?thesis
      by (subst tiff_entries.simps) (auto simp: sl Let_def split: option.split)
  next
    case False
    then show ?thesis by (subst tiff_entries.simps) (auto simp: Let_def)
  qed
qed

lemma tiff_total: "length b \<le> dimPeekLen \<Longrightarrow> tiffDimensions b \<noteq> None"
  using tiff_entries_total [of b]
  by (auto simp: tiffDimensions_def go_simps Let_def slice32_def gslice_def unat_word_ariths dimPeekLen_def)

subsection \<open>Boxes as a list\<close>

text \<open>
  The reference reading of a sequence of ISO base media boxes, without an index: a box is a size,
  a type and a payload, the size may be extended to 64 bits, and the sequence ends at the first
  box that does not fit.
\<close>

definition box_extent :: "bytes \<Rightarrow> nat \<times> nat" where
  "box_extent bs =
     (if be_val (take 4 bs) = 1 then (16, be_val (take 8 (drop 8 bs))) else (8, be_val (take 4 bs)))"

function boxes :: "bytes \<Rightarrow> (bytes \<times> bytes) list" where
  "boxes bs =
     (let (hl, sz) = box_extent bs
      in if length bs < hl \<or> sz < hl \<or> length bs < sz then []
         else (take 4 (drop 4 bs), take (sz - hl) (drop hl bs)) # boxes (drop sz bs))"
  by pat_completeness auto

termination
  by (relation "measure length") (auto simp: box_extent_def split: if_splits)

declare boxes.simps [simp del]

text \<open>Visiting a list of boxes until the visitor stops.\<close>

fun visit :: "(bytes \<Rightarrow> bytes \<Rightarrow> 's \<Rightarrow> (bool \<times> 's) option) \<Rightarrow> (bytes \<times> bytes) list \<Rightarrow> 's \<Rightarrow> 's option" where
  "visit fn [] s = Some s"
| "visit fn ((t, p) # bs) s = do { (go, s') \<leftarrow> fn t p s; if \<not> go then Some s' else visit fn bs s' }"

lemma box_header_extent:
  assumes "i + 8 \<le> length buf"
  shows "box_header buf i =
    (let (hl, sz) = box_extent (drop i buf)
     in if length (drop i buf) < hl \<or> (hl = 8 \<and> sz = 0) \<or> (hl = 16 \<and> length buf < sz) then Some None
        else Some (Some (sz, hl)))"
proof -
  have "unat (be32 (take 4 (drop i buf))) = be_val (take 4 (drop i buf))"
    using assms by (intro unat_be32) simp
  moreover have "unat (be64 (take 8 (drop (i + 8) buf))) = be_val (take 8 (drop (i + 8) buf))"
    if "i + 16 \<le> length buf"
    using that by (intro unat_be64) simp
  ultimately show ?thesis
    using assms by (auto simp: box_header_def box_extent_def go_simps Let_def add.commute)
qed

lemma walkBoxes_visit: "walkBoxes buf fn i s = visit fn (boxes (drop i buf)) s"
proof (induction buf fn i s rule: walkBoxes.induct)
  case (1 buf fn i s)
  obtain hl sz where ext: "box_extent (drop i buf) = (hl, sz)" by (cases "box_extent (drop i buf)")
  then have hl: "hl = 8 \<or> hl = 16" by (auto simp: box_extent_def split: if_splits)
  show ?case
  proof (cases "length (drop i buf) < hl \<or> sz < hl \<or> length (drop i buf) < sz")
    case True
    then have "boxes (drop i buf) = []" by (subst boxes.simps) (simp add: ext)
    moreover have "walkBoxes buf fn i s = Some s"
      using True hl by (subst walkBoxes.simps) (auto simp: box_header_extent ext go_simps Let_def)
    ultimately show ?thesis by simp
  next
    case False
    then have b: "boxes (drop i buf) =
        (take 4 (drop (i + 4) buf), take (sz - hl) (drop (i + hl) buf)) # boxes (drop (i + sz) buf)"
      by (subst boxes.simps) (simp add: ext add.commute)
    have hdr: "box_header buf i = Some (Some (sz, hl))"
      using False hl by (subst box_header_extent) (auto simp: ext)
    have ty: "gslice buf (i + 4) (i + 8) = Some (take 4 (drop (i + 4) buf))"
      and pay: "gslice buf (i + hl) (i + sz) = Some (take (sz - hl) (drop (i + hl) buf))"
      using False hl by (auto simp: go_simps)
    have "i + 8 \<le> length buf" "\<not> (sz < hl \<or> length buf < i + sz)" using False hl by auto
    with "1.IH" [OF _ ty hdr refl refl _ pay] show ?thesis
      by (subst walkBoxes.simps) (auto simp: b ty hdr pay intro!: Option.bind_cong)
  qed
qed

text \<open>A visitor that only skips or stops at one kind of box.\<close>

lemma visit_first:
  assumes "\<And>t p s. fn t p s = (if P t p then do { s' \<leftarrow> g p s; Some (False, s') } else Some (True, s))"
  shows "visit fn bs s = (case find (\<lambda>(t, p). P t p) bs of None \<Rightarrow> Some s | Some (t, p) \<Rightarrow> g p s)"
  by (induction bs) (auto simp: assms split: Option.bind_splits)

text \<open>The sizes the \<open>ispe\<close> boxes of a list declare.\<close>

definition ispe_sizes :: "(bytes \<times> bytes) list \<Rightarrow> (u32 \<times> u32) list" where
  "ispe_sizes bs =
     map (\<lambda>(t, p). (be32 (take 4 (drop 4 p)), be32 (take 4 (drop 8 p))))
       (filter (\<lambda>(t, p). t = bytes_of ''ispe'' \<and> 12 \<le> length p) bs)"

definition box_named :: "string \<Rightarrow> nat \<Rightarrow> bytes \<Rightarrow> bytes option" where
  "box_named name least bs = map_option snd (find (\<lambda>(t, p). t = bytes_of name \<and> least \<le> length p) (boxes bs))"

text \<open>All sizes declared under the first \<open>meta\<close>, \<open>iprp\<close> and \<open>ipco\<close> boxes.\<close>

definition heic_declared :: "bytes \<Rightarrow> (u32 \<times> u32) list" where
  "heic_declared b =
     (case do { m \<leftarrow> box_named ''meta'' 4 b; p \<leftarrow> box_named ''iprp'' 0 (drop 4 m); box_named ''ipco'' 0 p } of
        None \<Rightarrow> []
      | Some c \<Rightarrow> ispe_sizes (boxes c))"

definition pixels :: "u32 \<times> u32 \<Rightarrow> nat" where
  "pixels wh = unat (fst wh) * unat (snd wh)"

text \<open>The product of two 32-bit sizes does not wrap in 64 bits.\<close>

lemma unat_pixels: "unat (ucast w * ucast h :: u64) = pixels (w, h)" for w h :: u32
proof -
  have "unat w < 2 ^ 32" "unat h < 2 ^ 32"
    using unsigned_less [where ?'a = nat, of w] unsigned_less [where ?'a = nat, of h] by simp_all
  moreover from this have "unat w * unat h < 2 ^ 32 * 2 ^ 32" by (intro mult_strict_mono) auto
  ultimately show ?thesis
    by (simp add: pixels_def unat_word_ariths unsigned_ucast_eq take_bit_eq_mod)
qed

definition larger :: "u32 \<times> u32 \<Rightarrow> u32 \<times> u32 \<Rightarrow> u32 \<times> u32" where
  "larger m wh = (if pixels m < pixels wh then wh else m)"

lemma on_ispe_eq:
  "on_ispe t p (mw, mh, f) =
     (case ispe_sizes [(t, p)] of
        [] \<Rightarrow> Some (True, mw, mh, f)
      | wh # _ \<Rightarrow> Some (True, fst (larger (mw, mh) wh), snd (larger (mw, mh) wh), True))"
  by (auto simp: on_ispe_def ispe_sizes_def go_simps Let_def larger_def word_less_nat_alt unat_pixels)

lemma visit_ispe:
  "visit on_ispe bs (mw, mh, f) =
     (let m = foldl larger (mw, mh) (ispe_sizes bs) in Some (fst m, snd m, f \<or> ispe_sizes bs \<noteq> []))"
proof (induction bs arbitrary: mw mh f)
  case (Cons x bs)
  obtain t p where x: "x = (t, p)" by (cases x)
  have split: "ispe_sizes ((t, p) # bs) = ispe_sizes [(t, p)] @ ispe_sizes bs"
    by (simp add: ispe_sizes_def)
  have "ispe_sizes [(t, p)] = [] \<or> (\<exists>wh. ispe_sizes [(t, p)] = [wh])"
    by (simp add: ispe_sizes_def)
  then show ?case
    unfolding x split by (auto simp: on_ispe_eq Cons Let_def)
qed (simp add: ispe_sizes_def)

lemma foldl_larger:
  "pixels (foldl larger m whs) = Max (insert (pixels m) (pixels ` set whs))"
proof (induction whs arbitrary: m)
  case (Cons wh whs)
  then have "pixels (foldl larger m (wh # whs)) = Max (insert (pixels (larger m wh)) (pixels ` set whs))"
    by simp
  also have "\<dots> = max (pixels (larger m wh)) (Max (insert 0 (pixels ` set whs)))"
    by (cases "set whs = {}") (simp_all add: Max_insert)
  also have "pixels (larger m wh) = max (pixels m) (pixels wh)" by (simp add: larger_def max_def)
  also have "max (max (pixels m) (pixels wh)) (Max (insert 0 (pixels ` set whs))) =
      Max (insert (pixels m) (pixels ` set (wh # whs)))"
    by (cases "set whs = {}") (simp_all add: Max_insert max.assoc)
  finally show ?case .
qed simp

lemma heic_walk:
  "walkBoxes b on_meta 0 st =
     (case do { m \<leftarrow> box_named ''meta'' 4 b; p \<leftarrow> box_named ''iprp'' 0 (drop 4 m); box_named ''ipco'' 0 p } of
        None \<Rightarrow> Some st
      | Some c \<Rightarrow> visit on_ispe (boxes c) st)"
proof -
  have c: "visit on_ipco bs s = (case find (\<lambda>(t, p). t = bytes_of ''ipco'') bs of None \<Rightarrow> Some s
      | Some (t, p) \<Rightarrow> walkBoxes p on_ispe 0 s)" for bs s
    by (rule visit_first) (simp add: on_ipco_def)
  have i: "visit on_iprp bs s = (case find (\<lambda>(t, p). t = bytes_of ''iprp'') bs of None \<Rightarrow> Some s
      | Some (t, p) \<Rightarrow> walkBoxes p on_ipco 0 s)" for bs s
    by (rule visit_first) (simp add: on_iprp_def)
  have m: "visit on_meta bs s = (case find (\<lambda>(t, p). t = bytes_of ''meta'' \<and> 4 \<le> length p) bs of None \<Rightarrow> Some s
      | Some (t, p) \<Rightarrow> walkBoxes (drop 4 p) on_iprp 0 s)" for bs s
    by (rule visit_first) (auto simp: on_meta_def gslice_def)
  show ?thesis
    by (auto simp: walkBoxes_visit m i c box_named_def case_prod_unfold split: option.split)
qed

lemma heic_eq:
  "heicDimensions b =
     Some (if heic_declared b = [] then None else Some (foldl larger (0, 0) (heic_declared b)))"
  unfolding heicDimensions_def heic_walk heic_declared_def
  by (auto simp: visit_ispe Let_def split: option.split)

lemma heic_total [total]: "heicDimensions b \<noteq> None"
  by (simp add: heic_eq)

subsection \<open>JPEG streams\<close>

text \<open>A segment the scan skips, and a frame header.\<close>

definition skippable :: "u8 \<Rightarrow> bool" where
  "skippable m \<longleftrightarrow> m \<noteq> 0xFF \<and> \<not> standalone m \<and> m \<noteq> 0xD9 \<and> m \<noteq> 0xDA \<and> \<not> isSOF m"

definition jpeg_segment :: "u8 \<times> bytes \<Rightarrow> bytes" where
  "jpeg_segment s = [0xFF, fst s] @ be_bytes16 (length (snd s) + 2) @ snd s"

definition jpeg_frame :: "u8 \<Rightarrow> bytes \<Rightarrow> nat \<Rightarrow> nat \<Rightarrow> bytes" where
  "jpeg_frame m pre height width = [0xFF, m] @ pre @ be_bytes16 height @ be_bytes16 width"

lemma gidx_append [simp]: "gidx (xs @ ys) (length xs + k) = gidx ys k" "gidx (xs @ ys) (length xs) = gidx ys 0"
  "gidx (xs @ ys) (Suc (length xs)) = gidx ys 1" "gidx (xs @ ys) (Suc (Suc (length xs))) = gidx ys 2"
  by (simp_all add: gidx_def nth_append)

lemma gidx_Cons [simp]:
  "gidx (x # xs) 0 = Some x" "gidx (x # xs) (Suc k) = gidx xs k"
  "gidx (x # xs) (numeral n) = gidx xs (pred_numeral n)"
  by (simp_all add: gidx_def numeral_eq_Suc)

lemma u32_pair: "u32_at 8 x OR u32_at 0 y = of_nat (be_val [x, y])"
proof -
  have "u32_at 8 x AND u32_at 0 y = 0"
    by (rule bit_word_eqI) (auto simp: u32_at_def bit_simps dest: bit_imp_le_length)
  then have "u32_at 8 x OR u32_at 0 y = u32_at 8 x + u32_at 0 y"
    by (simp add: disjunctive_add_eq_or)
  then show ?thesis
    by (simp add: u32_at_def be_val_two push_bit_eq_mult)
qed

lemma scan_marker:
  assumes "skippable m" "be_val [l1, l2] = n" "2 \<le> n" "n \<le> length ys + 2"
  shows "jpeg_scan (pre @ 0xFF # m # l1 # l2 # ys) (length pre) =
    jpeg_scan (pre @ 0xFF # m # l1 # l2 # ys) (length pre + 2 + n)"
  using assms by (subst jpeg_scan.simps) (simp add: skippable_def Let_def)

lemma scan_frame:
  assumes "isSOF m"
  shows "jpeg_scan (pre @ 0xFF # m # l1 # l2 # q # h1 # h2 # w1 # w2 # ys) (length pre) =
    Some (Some (of_nat (be_val [w1, w2]), of_nat (be_val [h1, h2])))"
proof -
  have m: "m \<noteq> 0xFF" "\<not> standalone m" "m \<noteq> 0xD9" "m \<noteq> 0xDA"
    using assms by (auto simp: isSOF_def standalone_def word_le_nat_alt)
  show ?thesis
    using assms m by (subst jpeg_scan.simps) (simp add: Let_def u32_pair)
qed

lemma scan_segments:
  assumes "\<forall>(m, p) \<in> set segs. skippable m \<and> length p \<le> 65533"
  shows "jpeg_scan (pre @ concat (map jpeg_segment segs) @ rest) (length pre) =
    jpeg_scan (pre @ concat (map jpeg_segment segs) @ rest) (length (pre @ concat (map jpeg_segment segs)))"
  using assms
proof (induction segs arbitrary: pre)
  case (Cons s segs)
  obtain m p where s: "s = (m, p)" by (cases s)
  obtain l1 l2 where l: "be_bytes16 (length p + 2) = [l1, l2]" unfolding be_bytes16_def by blast
  from Cons.prems have ok: "skippable m" "length p \<le> 65533" by (auto simp: s)
  then have n: "be_val [l1, l2] = length p + 2"
    unfolding l [symmetric] by (intro be_val_bytes16) simp
  have seg: "jpeg_segment s = 0xFF # m # l1 # l2 # p" using l by (simp add: jpeg_segment_def s)
  show ?case
    using scan_marker [OF ok(1) n, of "p @ concat (map jpeg_segment segs) @ rest" pre]
      Cons.IH [of "pre @ jpeg_segment s"] Cons.prems
    by (simp add: seg)
qed simp

subsection \<open>Properties\<close>

lemma parsers_total:
  "map_of dimensionParsers f = Some parser \<Longrightarrow> length b \<le> dimPeekLen \<Longrightarrow> parser b \<noteq> None"
  using total tiff_total by (auto simp: dimensionParsers_def split: if_splits)

lemma Dimensions_outcome:
  "\<exists>res rest. Dimensions format r = Some (res, rest)
     \<and> rest = (if res = Inl DimReadError then None else Some r)
     \<and> (res = Inl DimReadError \<longleftrightarrow> length (avail r) < dimPeekLen \<and> broken r)"
proof (cases "length (avail r) < dimPeekLen \<and> broken r")
  case True
  then show ?thesis by (simp add: Dimensions_def peek_def)
next
  case False
  then obtain buf r' where p: "peek dimPeekLen r = Inr (buf, r')" by (auto simp: peek_def)
  then have st: "stitch buf r' = r" "length buf \<le> dimPeekLen"
    by (auto dest: peek_stitch peek_prefix)
  show ?thesis
  proof (cases "map_of dimensionParsers (NormalizeFormat format)")
    case None
    with False p st show ?thesis by (simp add: Dimensions_def)
  next
    case (Some parser)
    with parsers_total st(2) obtain found where "parser buf = Some found" by blast
    with False p st Some show ?thesis by (cases found) (auto simp: Dimensions_def)
  qed
qed

text \<open>C21: Reading declared sizes always terminates without a panic, on every stream and for every format
  name; it hands back a stream exactly when no read failed, and that stream is the original one,
  byte for byte, so the upload that follows stores the whole file.\<close>

theorem dimensions_total:
  "\<exists>res rest. Dimensions format r = Some (res, rest)
     \<and> rest = (if res = Inl DimReadError then None else Some r)
     \<and> (res = Inl DimReadError \<longleftrightarrow> length (avail r) < dimPeekLen \<and> broken r)"
  by (rule Dimensions_outcome)

text \<open>The HEIC reader computes its specification: it finds nothing exactly when no size is declared
  under the first \<open>meta\<close>, \<open>iprp\<close> and \<open>ipco\<close> boxes, and otherwise returns sizes whose pixel count,
  as an exact product, is the maximum over all declared ones, so a forged file cannot hide a large
  image behind a small one.\<close>

theorem heic_largest_declared:
  "if heic_declared b = [] then heicDimensions b = Some None
   else \<exists>wh. heicDimensions b = Some (Some wh) \<and> pixels wh = Max (pixels ` set (heic_declared b))"
proof (cases "heic_declared b = []")
  case False
  then have "Max (insert 0 (pixels ` set (heic_declared b))) = Max (pixels ` set (heic_declared b))"
    by (simp add: Max_insert)
  then have "pixels (foldl larger (0, 0) (heic_declared b)) = Max (pixels ` set (heic_declared b))"
    using foldl_larger [of "(0, 0)" "heic_declared b"] by (simp add: pixels_def)
  with False show ?thesis by (simp add: heic_eq)
qed (simp add: heic_eq)

text \<open>The JPEG scan reads back what an encoder declares: after any sequence of well-formed segments
  other than frame headers, whatever bytes their payloads hold, the size returned is that of the
  first frame header.\<close>

theorem jpeg_first_frame:
  assumes "\<forall>(m, p) \<in> set segs. skippable m \<and> length p \<le> 65533" and "isSOF m" and "length pre = 3"
    and "height < 65536" and "width < 65536"
  shows "jpegDimensions ([0xFF, 0xD8] @ concat (map jpeg_segment segs) @ jpeg_frame m pre height width @ rest)
    = Some (Some (of_nat width, of_nat height))"
proof -
  obtain h1 h2 w1 w2 where hw: "be_bytes16 height = [h1, h2]" "be_bytes16 width = [w1, w2]"
    unfolding be_bytes16_def by blast
  then have v: "be_val [h1, h2] = height" "be_val [w1, w2] = width"
    using be_val_bytes16 assms(4,5) by metis+
  obtain l1 l2 q where pre: "pre = [l1, l2, q]"
    using assms(3) by (auto simp: numeral_3_eq_3 length_Suc_conv)
  let ?f = "jpeg_frame m pre height width @ rest"
  have "jpegDimensions ([0xFF, 0xD8] @ concat (map jpeg_segment segs) @ ?f)
      = jpeg_scan ([0xFF, 0xD8] @ concat (map jpeg_segment segs) @ ?f) (length [0xFF, 0xD8 :: u8])"
    by (simp add: jpegDimensions_def jpeg_frame_def numeral_2_eq_2)
  also have "\<dots> = jpeg_scan (([0xFF, 0xD8] @ concat (map jpeg_segment segs)) @ ?f)
      (length ([0xFF, 0xD8 :: u8] @ concat (map jpeg_segment segs)))"
    using scan_segments [OF assms(1), of "[0xFF, 0xD8]" ?f] by simp
  also have "\<dots> = Some (Some (of_nat width, of_nat height))"
    using scan_frame [OF assms(2), of "[0xFF, 0xD8] @ concat (map jpeg_segment segs)" l1 l2 q h1 h2 w1 w2 rest]
    by (simp add: jpeg_frame_def hw pre v)
  finally show ?thesis .
qed

theorem jpeg_first_frame_witness:
  "jpegDimensions ([0xFF, 0xD8] @ [0xFF, 0xE0, 0, 4, 0xFF, 0xC0] @ [0xFF, 0xC2, 0, 17, 8, 2, 88, 3, 32] @ [0xFF, 0xD9])
    = Some (Some (800, 600))"
  using jpeg_first_frame [of "[(0xE0, [0xFF, 0xC0])]" "0xC2" "[0, 17, 8]" 600 800 "[0xFF, 0xD9]"]
  by (simp add: skippable_def standalone_def isSOF_def jpeg_segment_def jpeg_frame_def be_bytes16_def
      word_le_nat_alt)

end
