(* ===== verification/Cfb.thy ===== *)
theory Cfb
  imports Bytes
begin

text \<open>
  Classification of OLE compound files (\<open>internal/convert/cfb.go\<close>, \<open>olecfb.go\<close>). The upload is an
  \<open>io.ReaderAt\<close>: a function from an offset and a length to the bytes that could be read, about which
  nothing is assumed, so short reads are covered. The outer option of a result is a panic. Offsets
  are at most \<open>2^44\<close>, so the \<open>int64\<close> arithmetic of the code is exact and written with naturals.
  A decoded entry name is its list of code points.
\<close>

type_synonym reader_at = "nat \<Rightarrow> nat \<Rightarrow> bytes"
type_synonym name = "nat list"

definition oleCFBMagic :: bytes where
  "oleCFBMagic = [0xD0, 0xCF, 0x11, 0xE0, 0xA1, 0xB1, 0x1A, 0xE1]"

definition IsOLECFB :: "reader_at \<Rightarrow> bool" where
  "IsOLECFB r \<longleftrightarrow> length (r 0 8) = 8 \<and> r 0 8 = oleCFBMagic"

datatype CFBClass = CFBUnknown | CFBEncrypted | CFBLegacy

definition cfbHeaderSize :: nat where "cfbHeaderSize = 512"
definition cfbNumHeaderDIFATSlots :: nat where "cfbNumHeaderDIFATSlots = 109"
definition cfbDIFATOffset :: nat where "cfbDIFATOffset = 76"
definition cfbEntrySize :: nat where "cfbEntrySize = 128"
definition cfbNameFieldSize :: nat where "cfbNameFieldSize = 64"
definition cfbMaxDirSectors :: nat where "cfbMaxDirSectors = 4096"
definition cfbEndOfChain :: u32 where "cfbEndOfChain = 0xFFFFFFFE"
definition cfbSentinelThreshold :: u32 where "cfbSentinelThreshold = 0xFFFFFFFA"

lemmas cfb_consts = cfbHeaderSize_def cfbNumHeaderDIFATSlots_def cfbDIFATOffset_def cfbEntrySize_def
  cfbNameFieldSize_def

subsection \<open>Sectors\<close>

definition cfbSectorOffset :: "u32 \<Rightarrow> nat \<Rightarrow> nat" where
  "cfbSectorOffset sector sectorSize = (unat sector + 1) * sectorSize"

definition cfbSectorInBounds :: "u32 \<Rightarrow> nat \<Rightarrow> nat \<Rightarrow> bool" where
  "cfbSectorInBounds sector sectorSize sz \<longleftrightarrow>
     sector < cfbSentinelThreshold \<and> cfbSectorOffset sector sectorSize + sectorSize \<le> sz"

text \<open>The inner loop of \<open>buildCFBFAT\<close>: the entries of one FAT sector, from index \<open>j\<close> on.\<close>

type_synonym fat = "u32 \<rightharpoonup> u32"

fun fat_entries :: "bytes \<Rightarrow> u32 \<Rightarrow> nat list \<Rightarrow> fat \<Rightarrow> fat option" where
  "fat_entries dat base [] fat = Some fat"
| "fat_entries dat base (j # js) fat = do {
     e \<leftarrow> gslice dat (j * 4) (j * 4 + 4);
     fat_entries dat base js (fat(base + of_nat j \<mapsto> le32 e))
   }"

text \<open>The outer loop over the DIFAT slots of the header; the inner \<open>None\<close> is the nil map.\<close>

fun fat_slots :: "reader_at \<Rightarrow> bytes \<Rightarrow> nat \<Rightarrow> nat \<Rightarrow> nat list \<Rightarrow> fat \<Rightarrow> fat option option" where
  "fat_slots r header sectorSize sz [] fat = Some (Some fat)"
| "fat_slots r header sectorSize sz (i # is) fat = do {
     sb \<leftarrow> gslice header (cfbDIFATOffset + i * 4) (cfbDIFATOffset + i * 4 + 4);
     let fatSector = le32 sb;
     if cfbSentinelThreshold \<le> fatSector then fat_slots r header sectorSize sz is fat
     else if \<not> cfbSectorInBounds fatSector sectorSize sz then Some None
     else
       let dat = r (cfbSectorOffset fatSector sectorSize) sectorSize in
       if length dat \<noteq> sectorSize then Some None
       else do {
         fat' \<leftarrow> fat_entries dat (of_nat i * of_nat (sectorSize div 4)) [0..<sectorSize div 4] fat;
         fat_slots r header sectorSize sz is fat'
       }
   }"

definition buildCFBFAT :: "reader_at \<Rightarrow> bytes \<Rightarrow> nat \<Rightarrow> nat \<Rightarrow> fat option option" where
  "buildCFBFAT r header sectorSize sz =
     fat_slots r header sectorSize sz [0..<cfbNumHeaderDIFATSlots] Map.empty"

subsection \<open>Directory entries\<close>

text \<open>\<open>utf16.Decode\<close>: a surrogate pair is one code point, a lone surrogate the replacement character.\<close>

fun utf16_decode :: "u16 list \<Rightarrow> name" where
  "utf16_decode [] = []"
| "utf16_decode [x] = [if 0xD800 \<le> x \<and> x \<le> 0xDFFF then 0xFFFD else unat x]"
| "utf16_decode (x # y # xs) =
     (if 0xD800 \<le> x \<and> x \<le> 0xDBFF \<and> 0xDC00 \<le> y \<and> y \<le> 0xDFFF
      then (0x10000 + (unat x - 0xD800) * 1024 + (unat y - 0xDC00)) # utf16_decode xs
      else if 0xD800 \<le> x \<and> x \<le> 0xDFFF then 0xFFFD # utf16_decode (y # xs)
      else unat x # utf16_decode (y # xs))"

fun name_units :: "bytes \<Rightarrow> nat list \<Rightarrow> u16 list option" where
  "name_units entry [] = Some []"
| "name_units entry (k # ks) = do {
     u \<leftarrow> gslice entry (k * 2) (k * 2 + 2);
     us \<leftarrow> name_units entry ks;
     Some (le16 u # us)
   }"

text \<open>One directory entry: its name, or nothing when it is unallocated or malformed.\<close>

definition entry_name :: "bytes \<Rightarrow> name option option" where
  "entry_name entry = do {
     objType \<leftarrow> gidx entry 66;
     if objType = 0 then Some None
     else do {
       nl \<leftarrow> gslice entry 64 66;
       let nameLen = unat (le16 nl);
       if nameLen < 2 \<or> cfbNameFieldSize < nameLen \<or> nameLen mod 2 \<noteq> 0 then Some None
       else do {
         u16s \<leftarrow> name_units entry [0..<nameLen div 2];
         Some (Some (utf16_decode (if u16s \<noteq> [] \<and> last u16s = 0 then butlast u16s else u16s)))
       }
     }
   }"

text \<open>The entry loop over one sector.\<close>

fun sector_names :: "bytes \<Rightarrow> nat list \<Rightarrow> name list option" where
  "sector_names dat [] = Some []"
| "sector_names dat (e # es) = do {
     entry \<leftarrow> gslice dat (e * cfbEntrySize) (e * cfbEntrySize + cfbEntrySize);
     n \<leftarrow> entry_name entry;
     ns \<leftarrow> sector_names dat es;
     Some (case n of None \<Rightarrow> ns | Some x \<Rightarrow> x # ns)
   }"

text \<open>The loop of \<open>cfbWalkDirectory\<close>; the inner \<open>None\<close> is \<open>ok = false\<close>.\<close>

function dir_loop ::
  "reader_at \<Rightarrow> nat \<Rightarrow> nat \<Rightarrow> fat \<Rightarrow> u32 \<Rightarrow> u32 list \<Rightarrow> nat \<Rightarrow> name list \<Rightarrow> name list option option" where
  "dir_loop r sectorSize sz fat sector visited cnt names =
     (if \<not> sector < cfbSentinelThreshold then Some (Some names)
      else if sector \<in> set visited then Some None
      else if cfbMaxDirSectors \<le> cnt then Some None
      else if \<not> cfbSectorInBounds sector sectorSize sz then Some None
      else
        let dat = r (cfbSectorOffset sector sectorSize) sectorSize in
        if length dat \<noteq> sectorSize then Some None
        else do {
          ns \<leftarrow> sector_names dat [0..<sectorSize div cfbEntrySize];
          (case fat sector of
             None \<Rightarrow> Some None
           | Some nxt \<Rightarrow> dir_loop r sectorSize sz fat nxt (sector # visited) (cnt + 1) (names @ ns))
        })"
  by pat_completeness auto

termination
  by (relation "measure (\<lambda>(r, ss, sz, fat, s, v, cnt, ns). cfbMaxDirSectors - cnt)") auto

declare dir_loop.simps [simp del]

definition cfbWalkDirectory :: "reader_at \<Rightarrow> u32 \<Rightarrow> nat \<Rightarrow> nat \<Rightarrow> fat \<Rightarrow> name list option option" where
  "cfbWalkDirectory r start sectorSize sz fat = dir_loop r sectorSize sz fat start [] 0 []"

subsection \<open>Classification\<close>

definition lit :: "string \<Rightarrow> name" where
  "lit s = map of_char s"

definition encrypted_markers :: "name list" where
  "encrypted_markers = [lit ''EncryptionInfo'', lit ''EncryptedPackage'']"

definition legacy_markers :: "name list" where
  "legacy_markers = [lit ''WordDocument'', lit ''Workbook'', lit ''Book'', lit ''PowerPoint Document'']"

definition classifyCFBNames :: "name list \<Rightarrow> CFBClass" where
  "classifyCFBNames names =
     (let hasEncrypted = (\<exists>n \<in> set names. n \<in> set encrypted_markers);
          hasLegacy = (\<exists>n \<in> set names. n \<in> set legacy_markers)
      in if hasEncrypted then CFBEncrypted else if hasLegacy then CFBLegacy else CFBUnknown)"

definition ClassifyCFB :: "reader_at \<Rightarrow> nat \<Rightarrow> CFBClass option" where
  "ClassifyCFB r sz =
     (if sz < cfbHeaderSize then Some CFBUnknown
      else
        let header = r 0 cfbHeaderSize in
        if length header \<noteq> cfbHeaderSize then Some CFBUnknown
        else do {
          magic \<leftarrow> gslice header 0 8;
          if magic \<noteq> oleCFBMagic then Some CFBUnknown
          else do {
            sh \<leftarrow> gslice header 30 32;
            let sectorShift = unat (le16 sh);
            if sectorShift \<noteq> 9 \<and> sectorShift \<noteq> 12 then Some CFBUnknown
            else do {
              let sectorSize = 2 ^ sectorShift;
              fd \<leftarrow> gslice header 48 52;
              df \<leftarrow> gslice header 68 72;
              if le32 df \<noteq> cfbEndOfChain then Some CFBUnknown
              else do {
                fat0 \<leftarrow> buildCFBFAT r header sectorSize sz;
                (case fat0 of
                   None \<Rightarrow> Some CFBUnknown
                 | Some fat \<Rightarrow> do {
                     res \<leftarrow> cfbWalkDirectory r (le32 fd) sectorSize sz fat;
                     Some (case res of None \<Rightarrow> CFBUnknown | Some names \<Rightarrow> classifyCFBNames names)
                   })
              }
            }
          }
        })"

subsection \<open>No panic\<close>

lemma fat_entries_total:
  "\<forall>j \<in> set js. j * 4 + 4 \<le> length dat \<Longrightarrow> fat_entries dat base js fat \<noteq> None"
  by (induction js arbitrary: fat) (simp_all add: go_simps)

lemma fat_sector_total: "length dat = ss \<Longrightarrow> \<exists>f. fat_entries dat base [0..<ss div 4] fat = Some f"
proof -
  assume "length dat = ss"
  then have "\<forall>j \<in> set [0..<ss div 4]. j * 4 + 4 \<le> length dat" by auto
  from fat_entries_total [OF this] show ?thesis by blast
qed

lemma fat_slots_total:
  "length header = cfbHeaderSize \<Longrightarrow> \<forall>i \<in> set is. i < cfbNumHeaderDIFATSlots \<Longrightarrow>
   fat_slots r header ss sz is fat \<noteq> None"
proof (induction "is" arbitrary: fat)
  case (Cons i "is")
  let ?f = "le32 (take 4 (drop (76 + i * 4) header))"
  from Cons fat_sector_total [of "r (cfbSectorOffset ?f ss) ss" ss "of_nat i * of_nat (ss div 4)" fat]
  show ?case by (auto simp: go_simps cfb_consts Let_def)
qed simp

lemma name_units_total: "\<forall>k \<in> set ks. k * 2 + 2 \<le> length entry \<Longrightarrow> name_units entry ks \<noteq> None"
  by (induction ks) (auto simp: go_simps)

lemma entry_name_total:
  assumes "length entry = cfbEntrySize"
  shows "entry_name entry \<noteq> None"
proof -
  have "\<exists>us. name_units entry [0..<n div 2] = Some us" if "n \<le> 64" for n
    using name_units_total [of "[0..<n div 2]" entry] assms that by (fastforce simp: cfb_consts)
  from this [of "unat (le16 (take 2 (drop 64 entry)))"] assms show ?thesis
    by (auto simp: entry_name_def go_simps cfb_consts Let_def)
qed

lemma sector_names_total:
  "\<forall>e \<in> set es. e * cfbEntrySize + cfbEntrySize \<le> length dat \<Longrightarrow> sector_names dat es \<noteq> None"
proof (induction es)
  case (Cons e es)
  then have "e * cfbEntrySize + cfbEntrySize \<le> length dat" by simp
  then have "length (take cfbEntrySize (drop (e * cfbEntrySize) dat)) = cfbEntrySize" by simp
  from entry_name_total [OF this] Cons show ?case by (auto simp: go_simps)
qed simp

lemma whole_sector_names: "length dat = ss \<Longrightarrow> \<exists>ns. sector_names dat [0..<ss div cfbEntrySize] = Some ns"
proof -
  assume "length dat = ss"
  moreover have "e * cfbEntrySize + cfbEntrySize \<le> ss" if "e < ss div cfbEntrySize" for e
    using that by (simp add: cfb_consts)
  ultimately show ?thesis
    using sector_names_total [of "[0..<ss div cfbEntrySize]" dat] by auto
qed

lemma dir_loop_total: "dir_loop r ss sz fat s v cnt ns \<noteq> None"
proof (induction r ss sz fat s v cnt ns rule: dir_loop.induct)
  case (1 r ss sz fat s v cnt ns)
  show ?case
  proof (cases "length (r (cfbSectorOffset s ss) ss) = ss")
    case True
    with whole_sector_names obtain xs where
      xs: "sector_names (r (cfbSectorOffset s ss) ss) [0..<ss div cfbEntrySize] = Some xs" by blast
    from True xs "1.IH" [OF _ _ _ _ refl _ xs] show ?thesis
      by (subst dir_loop.simps) (auto simp: Let_def split: option.split)
  qed (subst dir_loop.simps, auto simp: Let_def)
qed

lemma buildCFBFAT_total: "length h = 512 \<Longrightarrow> buildCFBFAT r h ss sz \<noteq> None"
  using fat_slots_total [of h "[0..<cfbNumHeaderDIFATSlots]" r ss sz Map.empty]
  unfolding buildCFBFAT_def cfbHeaderSize_def by (simp del: upt.simps)

lemma cfbWalkDirectory_total: "cfbWalkDirectory r d ss sz fat \<noteq> None"
  unfolding cfbWalkDirectory_def by (rule dir_loop_total)

text \<open>A file is classified from its header fields, the FAT and the directory names.\<close>

definition cfb_sector_size :: "reader_at \<Rightarrow> nat" where
  "cfb_sector_size r = 2 ^ unat (le16 (take 2 (drop 30 (r 0 512))))"

definition cfb_first_dir :: "reader_at \<Rightarrow> u32" where
  "cfb_first_dir r = le32 (take 4 (drop 48 (r 0 512)))"

definition cfb_header_ok :: "reader_at \<Rightarrow> nat \<Rightarrow> bool" where
  "cfb_header_ok r sz \<longleftrightarrow> 512 \<le> sz \<and> length (r 0 512) = 512 \<and> take 8 (r 0 512) = oleCFBMagic
     \<and> cfb_sector_size r \<in> {512, 4096} \<and> le32 (take 4 (drop 68 (r 0 512))) = cfbEndOfChain"

lemma sector_shift_iff: "cfb_sector_size r \<in> {512, 4096} \<longleftrightarrow> unat (le16 (take 2 (drop 30 (r 0 512)))) \<in> {9, 12}"
proof -
  have "(2 :: nat) ^ n = 512 \<longleftrightarrow> n = 9" "(2 :: nat) ^ n = 4096 \<longleftrightarrow> n = 12" for n
    using power_inject_exp [of "2 :: nat" n 9] power_inject_exp [of "2 :: nat" n 12] by simp_all
  then show ?thesis by (simp add: cfb_sector_size_def)
qed

lemma ClassifyCFB_eq:
  "ClassifyCFB r sz =
     (if \<not> cfb_header_ok r sz then Some CFBUnknown
      else do {
        fat0 \<leftarrow> buildCFBFAT r (r 0 512) (cfb_sector_size r) sz;
        (case fat0 of
           None \<Rightarrow> Some CFBUnknown
         | Some fat \<Rightarrow> do {
             res \<leftarrow> cfbWalkDirectory r (cfb_first_dir r) (cfb_sector_size r) sz fat;
             Some (case res of None \<Rightarrow> CFBUnknown | Some names \<Rightarrow> classifyCFBNames names)
           })
      })"
  unfolding ClassifyCFB_def cfb_header_ok_def sector_shift_iff
  by (simp add: cfb_consts Let_def gslice_def cfb_sector_size_def cfb_first_dir_def)

lemma ClassifyCFB_total: "ClassifyCFB r sz \<noteq> None"
proof (cases "cfb_header_ok r sz")
  case True
  then have "buildCFBFAT r (r 0 512) (cfb_sector_size r) sz \<noteq> None"
    using buildCFBFAT_total by (simp add: cfb_header_ok_def)
  then show ?thesis
    by (auto simp: ClassifyCFB_eq cfbWalkDirectory_total [unfolded not_None_eq] split: option.split Option.bind_split
        dest: cfbWalkDirectory_total [THEN notE])
qed (simp add: ClassifyCFB_eq)

subsection \<open>Evidence for a classification\<close>

text \<open>The directory chain from a sector: the FAT links each sector to the next, up to a sentinel.\<close>

fun dir_path :: "fat \<Rightarrow> u32 \<Rightarrow> u32 list \<Rightarrow> bool" where
  "dir_path fat s [] \<longleftrightarrow> cfbSentinelThreshold \<le> s"
| "dir_path fat s (x # xs) \<longleftrightarrow> x = s \<and> (\<exists>nxt. fat s = Some nxt \<and> dir_path fat nxt xs)"

definition names_at :: "reader_at \<Rightarrow> nat \<Rightarrow> u32 \<Rightarrow> name list" where
  "names_at r ss s =
     (case sector_names (r (cfbSectorOffset s ss) ss) [0..<ss div cfbEntrySize] of None \<Rightarrow> [] | Some ns \<Rightarrow> ns)"

definition readable :: "reader_at \<Rightarrow> nat \<Rightarrow> nat \<Rightarrow> u32 \<Rightarrow> bool" where
  "readable r ss sz s \<longleftrightarrow> cfbSectorInBounds s ss sz \<and> length (r (cfbSectorOffset s ss) ss) = ss"

lemma dir_loop_path:
  "dir_loop r ss sz fat s v cnt ns = Some (Some names) \<Longrightarrow>
   \<exists>path. dir_path fat s path \<and> distinct path \<and> set path \<inter> set v = {} \<and> cnt + length path \<le> max cnt cfbMaxDirSectors
     \<and> (\<forall>x \<in> set path. readable r ss sz x) \<and> names = ns @ concat (map (names_at r ss) path)"
proof (induction r ss sz fat s v cnt ns rule: dir_loop.induct)
  case (1 r ss sz fat s v cnt ns)
  show ?case
  proof (cases "s < cfbSentinelThreshold")
    case False
    with "1.prems" have "names = ns" by (simp add: dir_loop.simps [of r ss sz fat s])
    with False show ?thesis by (intro exI [of _ "[]"]) simp
  next
    case True
    with "1.prems" obtain xs nxt where
      g: "s \<notin> set v" "cnt < cfbMaxDirSectors" "cfbSectorInBounds s ss sz"
        "length (r (cfbSectorOffset s ss) ss) = ss"
      and xs: "sector_names (r (cfbSectorOffset s ss) ss) [0..<ss div cfbEntrySize] = Some xs"
      and nxt: "fat s = Some nxt"
      and rec: "dir_loop r ss sz fat nxt (s # v) (cnt + 1) (ns @ xs) = Some (Some names)"
      by (subst (asm) dir_loop.simps)
        (auto simp: Let_def bind_eq_Some_conv not_le split: if_splits option.splits)
    from "1.IH" [OF _ _ _ _ refl _ xs nxt rec] True g obtain path where
      "dir_path fat nxt path" "distinct path" "set path \<inter> set (s # v) = {}"
      "cnt + 1 + length path \<le> max (cnt + 1) cfbMaxDirSectors" "\<forall>x \<in> set path. readable r ss sz x"
      "names = ns @ xs @ concat (map (names_at r ss) path)"
      by auto
    moreover have "names_at r ss s = xs" using xs by (simp add: names_at_def)
    ultimately show ?thesis
      using g nxt by (intro exI [of _ "s # path"]) (auto simp: readable_def)
  qed
qed

lemma path_dir_loop:
  "dir_path fat s path \<Longrightarrow> distinct path \<Longrightarrow> set path \<inter> set v = {} \<Longrightarrow> cnt + length path \<le> cfbMaxDirSectors \<Longrightarrow>
   \<forall>x \<in> set path. readable r ss sz x \<Longrightarrow>
   dir_loop r ss sz fat s v cnt ns = Some (Some (ns @ concat (map (names_at r ss) path)))"
proof (induction path arbitrary: s v cnt ns)
  case Nil
  then show ?case by (simp add: dir_loop.simps [of r ss sz fat s] not_less)
next
  case (Cons x path)
  then obtain nxt where nxt: "x = s" "fat s = Some nxt" "dir_path fat nxt path" by auto
  from Cons.prems have rd: "length (r (cfbSectorOffset s ss) ss) = ss" "cfbSectorInBounds s ss sz"
    by (auto simp: readable_def nxt)
  then obtain xs where xs: "sector_names (r (cfbSectorOffset s ss) ss) [0..<ss div cfbEntrySize] = Some xs"
    using whole_sector_names by blast
  have "names_at r ss s = xs" using xs by (simp add: names_at_def)
  moreover have "s < cfbSentinelThreshold" using rd(2) by (simp add: cfbSectorInBounds_def)
  moreover have "dir_loop r ss sz fat nxt (s # v) (cnt + 1) (ns @ xs) =
      Some (Some ((ns @ xs) @ concat (map (names_at r ss) path)))"
    using Cons.prems nxt by (intro Cons.IH) auto
  ultimately show ?case
    using Cons.prems nxt rd xs by (subst dir_loop.simps) (simp add: Let_def)
qed

text \<open>The names a file presents: those of a complete, acyclic, bounded and readable directory chain.\<close>

definition cfb_names :: "reader_at \<Rightarrow> nat \<Rightarrow> name list \<Rightarrow> bool" where
  "cfb_names r sz names \<longleftrightarrow> cfb_header_ok r sz \<and>
     (\<exists>fat path. buildCFBFAT r (r 0 512) (cfb_sector_size r) sz = Some (Some fat)
        \<and> dir_path fat (cfb_first_dir r) path \<and> distinct path \<and> length path \<le> 4096
        \<and> (\<forall>x \<in> set path. readable r (cfb_sector_size r) sz x)
        \<and> names = concat (map (names_at r (cfb_sector_size r)) path))"

lemma walk_names:
  assumes "cfb_header_ok r sz" "buildCFBFAT r (r 0 512) (cfb_sector_size r) sz = Some (Some fat)"
  shows "cfbWalkDirectory r (cfb_first_dir r) (cfb_sector_size r) sz fat = Some (Some names)
    \<longleftrightarrow> cfb_names r sz names"
proof
  assume "cfbWalkDirectory r (cfb_first_dir r) (cfb_sector_size r) sz fat = Some (Some names)"
  from dir_loop_path [OF this [unfolded cfbWalkDirectory_def]] assms show "cfb_names r sz names"
    by (fastforce simp: cfb_names_def cfbMaxDirSectors_def)
next
  assume "cfb_names r sz names"
  then obtain path where "dir_path fat (cfb_first_dir r) path" "distinct path" "length path \<le> 4096"
    "\<forall>x \<in> set path. readable r (cfb_sector_size r) sz x"
    "names = concat (map (names_at r (cfb_sector_size r)) path)"
    using assms(2) by (auto simp: cfb_names_def)
  with path_dir_loop [of fat "cfb_first_dir r" path "[]" 0 r "cfb_sector_size r" sz "[]"]
  show "cfbWalkDirectory r (cfb_first_dir r) (cfb_sector_size r) sz fat = Some (Some names)"
    by (simp add: cfbWalkDirectory_def cfbMaxDirSectors_def)
qed

subsection \<open>Property\<close>

text \<open>C22: Classifying a compound file always terminates without a panic, whatever bytes it holds and
  however short the reads are, and the verdict rests on complete evidence: the names of a directory
  chain that starts at the header's sector, follows the FAT to a sentinel, visits at most 4096
  sectors, none twice and all inside the file. Without such a chain the verdict is unknown.\<close>

theorem cfb_verdict:
  "ClassifyCFB r sz = Some c \<longleftrightarrow>
     (\<exists>names. cfb_names r sz names \<and> c = classifyCFBNames names)
     \<or> (c = CFBUnknown \<and> (\<nexists>names. cfb_names r sz names))"
proof (cases "cfb_header_ok r sz")
  case False
  then show ?thesis by (auto simp: ClassifyCFB_eq cfb_names_def)
next
  case ok: True
  then obtain f where f: "buildCFBFAT r (r 0 512) (cfb_sector_size r) sz = Some f"
    using buildCFBFAT_total [of "r 0 512" r "cfb_sector_size r" sz] unfolding cfb_header_ok_def by blast
  show ?thesis
  proof (cases f)
    case None
    with ok f show ?thesis by (auto simp: ClassifyCFB_eq cfb_names_def)
  next
    case (Some fat)
    obtain w where w: "cfbWalkDirectory r (cfb_first_dir r) (cfb_sector_size r) sz fat = Some w"
      using cfbWalkDirectory_total by blast
    have names: "cfb_names r sz names \<longleftrightarrow> w = Some names" for names
      using walk_names [OF ok f [unfolded Some]] w by simp
    have "ClassifyCFB r sz = Some (case w of None \<Rightarrow> CFBUnknown | Some names \<Rightarrow> classifyCFBNames names)"
      unfolding ClassifyCFB_eq by (simp add: ok f Some w)
    then show ?thesis unfolding names by (cases w) auto
  qed
qed

end
