(* ===== verification/Sniff.thy ===== *)
theory Sniff
  imports Dimensions Cfb
begin

text \<open>
  Content detection: the signature table of \<open>internal/convert/sniff.go\<close>, the office containers of
  \<open>docsniff.go\<close>, \<open>htmlsniff.go\<close>, the EBML walk of \<open>avsniff.go\<close> and \<open>audiosniff.go\<close>. The stream
  detectors peek at a bounded prefix and stitch it back. The central directory an archive yields is
  a parameter, and so is the outcome of a positional read (its bytes, and whether it failed).
\<close>

subsection \<open>Fixed signatures\<close>

definition sniffLen :: nat where "sniffLen = 12"

definition brands :: "string list \<Rightarrow> bytes list" where
  "brands bs = map bytes_of bs"

definition heicBrands :: "string list" where
  "heicBrands = [''heic'', ''heix'', ''hevc'', ''hevx'', ''mif1'', ''msf1'']"

definition mp4VideoBrands :: "string list" where
  "mp4VideoBrands = [''isom'', ''mp41'', ''mp42'', ''mp4v'', ''avc1'', ''iso2'', ''iso3'', ''iso4'', ''iso5'',
     ''iso6'', ''iso7'', ''iso8'', ''iso9'', ''3gp4'', ''3gp5'', ''3g2a'', ''dash'']"

definition m4aBrands :: "string list" where
  "m4aBrands = [''M4A '', ''M4B '']"

definition matchPNG :: "bytes \<Rightarrow> bool" where
  "matchPNG b \<longleftrightarrow> 8 \<le> length b \<and> take 8 b = [0x89, 0x50, 0x4E, 0x47, 0x0D, 0x0A, 0x1A, 0x0A]"

definition matchJPEG :: "bytes \<Rightarrow> bool" where
  "matchJPEG b \<longleftrightarrow> 3 \<le> length b \<and> take 3 b = [0xFF, 0xD8, 0xFF]"

definition matchWebP :: "bytes \<Rightarrow> bool" where
  "matchWebP b \<longleftrightarrow> 12 \<le> length b \<and> take 4 b = bytes_of ''RIFF'' \<and> take 4 (drop 8 b) = bytes_of ''WEBP''"

definition matchTIFF :: "bytes \<Rightarrow> bool" where
  "matchTIFF b \<longleftrightarrow> 4 \<le> length b
     \<and> (take 4 b = [0x49, 0x49, 0x2A, 0x00] \<or> take 4 b = [0x4D, 0x4D, 0x00, 0x2A])"

definition matchHEIC :: "bytes \<Rightarrow> bool" where
  "matchHEIC b \<longleftrightarrow> \<not> (length b < 12 \<or> take 4 (drop 4 b) \<noteq> bytes_of ''ftyp'')
     \<and> take 4 (drop 8 b) \<in> set (brands heicBrands)"

definition matchMP4 :: "bytes \<Rightarrow> bool" where
  "matchMP4 b \<longleftrightarrow> \<not> (length b < 12 \<or> take 4 (drop 4 b) \<noteq> bytes_of ''ftyp'')
     \<and> take 4 (drop 8 b) \<in> set (brands mp4VideoBrands)"

definition matchMOV :: "bytes \<Rightarrow> bool" where
  "matchMOV b \<longleftrightarrow> \<not> (length b < 12 \<or> take 4 (drop 4 b) \<noteq> bytes_of ''ftyp'')
     \<and> take 4 (drop 8 b) = bytes_of ''qt  ''"

definition matchAVI :: "bytes \<Rightarrow> bool" where
  "matchAVI b \<longleftrightarrow> 12 \<le> length b \<and> take 4 b = bytes_of ''RIFF'' \<and> take 4 (drop 8 b) = bytes_of ''AVI ''"

definition signatures :: "(string \<times> (bytes \<Rightarrow> bool)) list" where
  "signatures =
     [(''png'', matchPNG), (''jpg'', matchJPEG), (''webp'', matchWebP), (''heic'', matchHEIC),
      (''tiff'', matchTIFF), (''mp4'', matchMP4), (''mov'', matchMOV), (''avi'', matchAVI)]"

definition Sniff :: "reader \<Rightarrow> read_error + string \<times> reader" where
  "Sniff r =
     (case peek sniffLen r of
        Inl e \<Rightarrow> Inl e
      | Inr (buf, r') \<Rightarrow>
          Inr (case find (\<lambda>(fm, mt). mt buf) signatures of
                 Some (fm, mt) \<Rightarrow> NormalizeFormat fm
               | None \<Rightarrow> [],
               stitch buf r'))"

subsection \<open>Office containers\<close>

text \<open>An entry of a ZIP central directory; \<open>z_payload\<close> is what opening and reading it yields, if that works.\<close>

record zip_file =
  z_name :: string
  z_size :: u64
  z_store :: bool
  z_payload :: "bytes option"

record ContainerResult =
  cr_Format :: string
  cr_TotalUncompressed :: u64
  cr_HasMacro :: bool
  cr_DuplicateRootPart :: bool

definition ooxmlRootParts :: "(string \<times> string) list" where
  "ooxmlRootParts = [(''word/document.xml'', ''docx''), (''xl/workbook.xml'', ''xlsx''), (''ppt/presentation.xml'', ''pptx'')]"

definition odfMimetypes :: "(bytes \<times> string) list" where
  "odfMimetypes =
     [(bytes_of ''application/vnd.oasis.opendocument.text'', ''odt''),
      (bytes_of ''application/vnd.oasis.opendocument.spreadsheet'', ''ods''),
      (bytes_of ''application/vnd.oasis.opendocument.presentation'', ''odp'')]"

definition ooxmlMacroParts :: "string list" where
  "ooxmlMacroParts = [''word/vbaProject.bin'', ''xl/vbaProject.bin'', ''ppt/vbaProject.bin'']"

definition hasBasicPrefix :: "string \<Rightarrow> bool" where
  "hasBasicPrefix n \<longleftrightarrow> 6 \<le> length n \<and> take 6 n = ''Basic/''"

definition readBounded :: "zip_file \<Rightarrow> nat \<Rightarrow> bytes option" where
  "readBounded f limit = map_option (take limit) (z_payload f)"

text \<open>The body of the loop for entry \<open>i\<close>; \<open>nameCount\<close> is kept as the list of counted names.\<close>

definition container_entry :: "nat \<Rightarrow> zip_file \<Rightarrow> ContainerResult \<times> string list \<Rightarrow> ContainerResult \<times> string list" where
  "container_entry i f st =
     (let (res, names) = st;
          res1 = res\<lparr>cr_TotalUncompressed := cr_TotalUncompressed res + z_size f\<rparr>;
          macro = (z_name f \<in> set ooxmlMacroParts \<or> hasBasicPrefix (z_name f));
          (res2, names2) = (if macro then (res1\<lparr>cr_HasMacro := True\<rparr>, z_name f # names) else (res1, names));
          (res3, names3) = (case map_of ooxmlRootParts (z_name f) of
              Some fm \<Rightarrow> (res2\<lparr>cr_Format := fm\<rparr>, z_name f # names2)
            | None \<Rightarrow> (res2, names2));
          res4 = (if i = 0 \<and> z_name f = ''mimetype'' \<and> z_store f
                  then (case readBounded f 128 of
                          Some payload \<Rightarrow> (case map_of odfMimetypes payload of
                              Some fm \<Rightarrow> res3\<lparr>cr_Format := fm\<rparr> | None \<Rightarrow> res3)
                        | None \<Rightarrow> res3)
                  else res3)
      in (res4, names3))"

fun container_loop :: "nat \<Rightarrow> zip_file list \<Rightarrow> ContainerResult \<times> string list \<Rightarrow> ContainerResult \<times> string list" where
  "container_loop i [] st = st"
| "container_loop i (f # fs) st = container_loop (i + 1) fs (container_entry i f st)"

definition empty_result :: ContainerResult where
  "empty_result = \<lparr>cr_Format = [], cr_TotalUncompressed = 0, cr_HasMacro = False, cr_DuplicateRootPart = False\<rparr>"

text \<open>\<open>SniffContainer\<close> on what \<open>zip.NewReader\<close> returned; \<open>None\<close> is \<open>ErrNotAZip\<close>.\<close>

definition SniffContainer :: "zip_file list option \<Rightarrow> ContainerResult option" where
  "SniffContainer zr =
     (case zr of
        None \<Rightarrow> None
      | Some files \<Rightarrow>
          (let (res, names) = container_loop 0 files (empty_result, [])
           in Some (res\<lparr>cr_DuplicateRootPart := \<not> distinct names\<rparr>)))"

subsection \<open>HTML\<close>

definition htmlSniffCap :: nat where "htmlSniffCap = 2 ^ 20"

text \<open>\<open>utf8.Valid\<close>\<close>

definition cont :: "u8 \<Rightarrow> u8 \<Rightarrow> u8 \<Rightarrow> bool" where
  "cont lo hi x \<longleftrightarrow> lo \<le> x \<and> x \<le> hi"

fun utf8_valid :: "bytes \<Rightarrow> bool" where
  "utf8_valid [] = True"
| "utf8_valid (a # r0) =
     (if a < 0x80 then utf8_valid r0
      else if cont 0xC2 0xDF a then
        (case r0 of b # r1 \<Rightarrow> cont 0x80 0xBF b \<and> utf8_valid r1 | [] \<Rightarrow> False)
      else if cont 0xE0 0xEF a then
        (case r0 of
           b # c # r2 \<Rightarrow> cont (if a = 0xE0 then 0xA0 else 0x80) (if a = 0xED then 0x9F else 0xBF) b
             \<and> cont 0x80 0xBF c \<and> utf8_valid r2
         | _ \<Rightarrow> False)
      else if cont 0xF0 0xF4 a then
        (case r0 of
           b # c # d # r3 \<Rightarrow> cont (if a = 0xF0 then 0x90 else 0x80) (if a = 0xF4 then 0x8F else 0xBF) b
             \<and> cont 0x80 0xBF c \<and> cont 0x80 0xBF d \<and> utf8_valid r3
         | _ \<Rightarrow> False)
      else False)"

text \<open>\<open>bytes.ToLower\<close> on the letters that occur in the markers; no other character lowers to one of them.\<close>

definition lower_byte :: "u8 \<Rightarrow> u8" where
  "lower_byte x = (if 0x41 \<le> x \<and> x \<le> 0x5A then x + 0x20 else x)"

definition html_space :: "u8 list" where
  "html_space = [0x20, 0x09, 0x0D, 0x0A, 0x0C, 0x0B]"

definition html_marker :: "bytes \<Rightarrow> bool" where
  "html_marker buf =
     (let buf1 = (if has_prefix buf [0xEF, 0xBB, 0xBF] then drop 3 buf else buf);
          buf2 = dropWhile (\<lambda>x. x \<in> set html_space) buf1;
          lower = map lower_byte buf2
      in if has_prefix lower (bytes_of ''<!doctype html'') then True
         else if has_prefix lower (bytes_of ''<html'') then
           (case drop 5 lower of
              [] \<Rightarrow> False
            | x # _ \<Rightarrow> x \<in> {0x3E, 0x2F, 0x20, 0x09, 0x0D, 0x0A})
         else False)"

definition LooksLikeHTML :: "reader_at \<Rightarrow> (nat \<Rightarrow> nat \<Rightarrow> bool) \<Rightarrow> nat \<Rightarrow> bool" where
  "LooksLikeHTML r failed sz =
     (if sz = 0 then False
      else
        let n = min sz htmlSniffCap; buf = r 0 n in
        if failed 0 n then False
        else if buf = [] then False
        else if 0 \<in> set buf then False
        else if \<not> utf8_valid buf then False
        else html_marker buf)"

subsection \<open>Matroska and WebM\<close>

definition avPeekLen :: nat where "avPeekLen = 4 * 1024"

definition ebmlMagic :: bytes where "ebmlMagic = [0x1A, 0x45, 0xDF, 0xA3]"

definition ebmlDocTypeID :: u32 where "ebmlDocTypeID = 0x4282"

definition vintLen :: "u8 \<Rightarrow> nat" where
  "vintLen first = (case find (\<lambda>i. first AND drop_bit i 0x80 \<noteq> 0) [0..<8] of Some i \<Rightarrow> i + 1 | None \<Rightarrow> 0)"

text \<open>Appending the bytes at positions \<open>ps\<close> to a value, most significant first.\<close>

fun vint_bytes :: "bytes \<Rightarrow> nat list \<Rightarrow> 'w word \<Rightarrow> 'w::len word option" where
  "vint_bytes buf [] v = Some v"
| "vint_bytes buf (p # ps) v = do { x \<leftarrow> gidx buf p; vint_bytes buf ps (push_bit 8 v OR ucast x) }"

definition readSizeVint :: "bytes \<Rightarrow> nat \<Rightarrow> (u64 \<times> nat) option option" where
  "readSizeVint buf pos =
     (if length buf \<le> pos then Some None
      else do {
        b0 \<leftarrow> gidx buf pos;
        let n = vintLen b0;
        if n = 0 \<or> length buf < pos + n then Some None
        else do {
          v \<leftarrow> vint_bytes buf [pos + 1..<pos + n] (ucast b0 AND NOT (push_bit (8 - n) 0xFF));
          Some (Some (v, n))
        }
      })"

definition readIDVint :: "bytes \<Rightarrow> nat \<Rightarrow> (u32 \<times> nat) option option" where
  "readIDVint buf pos =
     (if length buf \<le> pos then Some None
      else do {
        b0 \<leftarrow> gidx buf pos;
        let n = vintLen b0;
        if n = 0 \<or> 4 < n \<or> length buf < pos + n then Some None
        else do {
          v \<leftarrow> vint_bytes buf [pos..<pos + n] 0;
          Some (Some (v, n))
        }
      })"

lemma readIDVint_length: "readIDVint buf pos = Some (Some (i, n)) \<Longrightarrow> 1 \<le> n \<and> pos + n \<le> length buf"
  by (auto simp: readIDVint_def Let_def bind_eq_Some_conv split: if_splits)

lemma readSizeVint_length: "readSizeVint buf pos = Some (Some (v, n)) \<Longrightarrow> 1 \<le> n \<and> pos + n \<le> length buf"
  by (auto simp: readSizeVint_def Let_def bind_eq_Some_conv split: if_splits)

text \<open>The element loop of \<open>matchEBML\<close>. The sum of a position and a size below \<open>2^56\<close> is taken in 64 bits.\<close>

function ebml_loop :: "bytes \<Rightarrow> nat \<Rightarrow> nat \<Rightarrow> string option option" where
  "ebml_loop buf en pos =
     (if \<not> pos < en then Some None
      else do {
        idr \<leftarrow> readIDVint buf pos;
        (case idr of
           None \<Rightarrow> Some None
         | Some (eid, idLen) \<Rightarrow> do {
             szr \<leftarrow> readSizeVint buf (pos + idLen);
             (case szr of
                None \<Rightarrow> Some None
              | Some (sz, sizeLen) \<Rightarrow>
                  let pos' = pos + idLen + sizeLen in
                  if (of_nat (length buf) :: u64) < of_nat pos' + sz then Some None
                  else if eid = ebmlDocTypeID then do {
                    dt \<leftarrow> gslice buf pos' (pos' + unat sz);
                    Some (if dt = bytes_of ''matroska'' then Some ''mkv''
                          else if dt = bytes_of ''webm'' then Some ''webm'' else None)
                  }
                  else ebml_loop buf en (pos' + unat sz))
           })
      })"
  by pat_completeness auto

termination
  by (relation "measure (\<lambda>(buf, en, pos). length buf - pos)") (auto dest: readIDVint_length)

declare ebml_loop.simps [simp del]

definition matchEBML :: "bytes \<Rightarrow> string option option" where
  "matchEBML buf =
     (if length buf < 5 \<or> take 4 buf \<noteq> ebmlMagic then Some None
      else do {
        hs \<leftarrow> readSizeVint buf 4;
        (case hs of
           None \<Rightarrow> Some None
         | Some (headerSize, sizeLen) \<Rightarrow>
             let pos = 4 + sizeLen;
                 en = (if of_nat pos + headerSize < (of_nat (length buf) :: u64) then pos + unat headerSize
                       else length buf)
             in ebml_loop buf en pos)
      })"

definition SniffVideo :: "reader \<Rightarrow> (read_error + string \<times> reader) option" where
  "SniffVideo r =
     (case peek avPeekLen r of
        Inl e \<Rightarrow> Some (Inl e)
      | Inr (buf, r') \<Rightarrow> do {
          m \<leftarrow> matchEBML buf;
          Some (Inr (case m of Some fm \<Rightarrow> NormalizeFormat fm | None \<Rightarrow> [], stitch buf r'))
        })"

subsection \<open>Audio\<close>

definition mp3PeekLen :: nat where "mp3PeekLen = 512 * 1024"

definition matchWAV :: "bytes \<Rightarrow> bool" where
  "matchWAV b \<longleftrightarrow> 12 \<le> length b \<and> take 4 b = bytes_of ''RIFF'' \<and> take 4 (drop 8 b) = bytes_of ''WAVE''"

definition matchOGG :: "bytes \<Rightarrow> bool" where
  "matchOGG b \<longleftrightarrow> 4 \<le> length b \<and> take 4 b = bytes_of ''OggS''"

definition matchM4A :: "bytes \<Rightarrow> bool" where
  "matchM4A b \<longleftrightarrow> \<not> (length b < 12 \<or> take 4 (drop 4 b) \<noteq> bytes_of ''ftyp'')
     \<and> take 4 (drop 8 b) \<in> set (brands m4aBrands)"

definition frame_sync :: "u8 \<Rightarrow> u8 \<Rightarrow> bool" where
  "frame_sync x y \<longleftrightarrow> x = 0xFF \<and> y AND 0xE0 = 0xE0"

text \<open>\<open>int (b) << k\<close> for a byte \<open>b\<close>; the sum stays below \<open>2^29\<close>.\<close>

definition matchMP3 :: "bytes \<Rightarrow> bool option" where
  "matchMP3 b =
     (if 3 \<le> length b \<and> take 3 b = bytes_of ''ID3'' then
        (if length b < 10 then Some False
         else do {
           b5 \<leftarrow> gidx b 5; b6 \<leftarrow> gidx b 6; b7 \<leftarrow> gidx b 7; b8 \<leftarrow> gidx b 8; b9 \<leftarrow> gidx b 9;
           let sz = push_bit 21 (unat b6) OR push_bit 14 (unat b7) OR push_bit 7 (unat b8) OR unat b9;
           let tagEnd = 10 + sz + (if b5 AND 0x10 \<noteq> 0 then 10 else 0);
           if length b \<le> tagEnd + 1 then Some False
           else do { x \<leftarrow> gidx b tagEnd; y \<leftarrow> gidx b (tagEnd + 1); Some (frame_sync x y) }
         })
      else if 2 \<le> length b then do { x \<leftarrow> gidx b 0; y \<leftarrow> gidx b 1; Some (frame_sync x y) }
      else Some False)"

definition SniffAudio :: "reader \<Rightarrow> (read_error + string \<times> reader) option" where
  "SniffAudio r =
     (case peek mp3PeekLen r of
        Inl e \<Rightarrow> Some (Inl e)
      | Inr (buf, r') \<Rightarrow>
          if matchWAV buf then Some (Inr (NormalizeFormat ''wav'', stitch buf r'))
          else if matchOGG buf then Some (Inr (NormalizeFormat ''ogg'', stitch buf r'))
          else if matchM4A buf then Some (Inr (NormalizeFormat ''m4a'', stitch buf r'))
          else do {
            m \<leftarrow> matchMP3 buf;
            Some (Inr (if m then NormalizeFormat ''mp3'' else [], stitch buf r'))
          })"

subsection \<open>No panic, and the stream stays whole\<close>

definition bits_below :: "nat \<Rightarrow> 'w::len word \<Rightarrow> bool" where
  "bits_below m w \<longleftrightarrow> (\<forall>k. bit w k \<longrightarrow> k < m)"

lemma bits_below_unat: "bits_below m w \<Longrightarrow> unat w < 2 ^ m" for w :: "'w::len word"
proof -
  assume "bits_below m w"
  then have "take_bit m w = w" by (auto simp: bits_below_def bit_eq_iff bit_simps)
  then have "unat w = take_bit m (unat w)" by (metis unsigned_take_bit_eq)
  then show ?thesis by (metis take_bit_nat_less_exp)
qed

lemma vint_bytes_total: "\<forall>p \<in> set ps. p < length buf \<Longrightarrow> \<exists>v'. vint_bytes buf ps v = Some v'"
  by (induction ps arbitrary: v) (simp_all add: go_simps)

lemma vint_bytes_below:
  "vint_bytes buf ps v = Some v' \<Longrightarrow> bits_below m v \<Longrightarrow> bits_below (m + 8 * length ps) v'"
proof (induction ps arbitrary: v m)
  case (Cons p ps)
  then obtain x where x: "gidx buf p = Some x" "vint_bytes buf ps (push_bit 8 v OR ucast x) = Some v'"
    by (auto simp: bind_eq_Some_conv)
  have "bits_below (m + 8) (push_bit 8 v OR ucast x)"
    using Cons.prems(2) by (auto simp: bits_below_def bit_simps dest: bit_imp_le_length)
  from Cons.IH [OF x(2) this] show ?case by (simp add: algebra_simps)
qed simp

lemma vintLen_le: "vintLen x \<le> 8"
  by (auto simp: vintLen_def find_Some_iff split: option.split)

lemma readIDVint_total: "\<exists>res. readIDVint buf pos = Some res"
proof (cases "pos < length buf")
  case True
  let ?n = "vintLen (buf ! pos)"
  have "\<exists>v. vint_bytes buf [pos..<pos + ?n] (0 :: u32) = Some v" if "pos + ?n \<le> length buf"
    using that by (intro vint_bytes_total) auto
  with True show ?thesis by (auto simp: readIDVint_def gidx_def Let_def)
qed (simp add: readIDVint_def)

lemma readSizeVint_total: "\<exists>res. readSizeVint buf pos = Some res"
proof (cases "pos < length buf")
  case True
  let ?n = "vintLen (buf ! pos)"
  have "\<exists>v. vint_bytes buf [pos + 1..<pos + ?n] w = Some v" if "pos + ?n \<le> length buf" for w :: u64
    using that by (intro vint_bytes_total) auto
  from this [of "ucast (buf ! pos) AND NOT (push_bit (8 - ?n) 0xFF)"] True show ?thesis
    by (auto simp: readSizeVint_def gidx_def Let_def)
qed (simp add: readSizeVint_def)

lemma marker_masked: "bits_below j (ucast b AND NOT (push_bit j 0xFF) :: u64)" for b :: u8
  unfolding bits_below_def
proof (intro allI impI)
  fix k
  assume "bit (ucast b AND NOT (push_bit j 0xFF) :: u64) k"
  then have k: "bit b k" "\<not> bit (push_bit j (0xFF :: u64)) k" "k < 64"
    by (simp_all add: bit_and_iff bit_not_iff bit_ucast_iff possible_bit_word)
  have "(0xFF :: u64) = mask 8" by (simp add: mask_eq_exp_minus_1)
  with k(2,3) have "\<not> (j \<le> k \<and> k - j < 8)"
    by (simp only: bit_push_bit_iff bit_mask_iff possible_bit_word) auto
  with bit_imp_le_length [OF k(1)] show "k < j" by auto
qed

lemma readSizeVint_bound: "readSizeVint buf pos = Some (Some (v, n)) \<Longrightarrow> unat v < 2 ^ 56"
proof -
  assume "readSizeVint buf pos = Some (Some (v, n))"
  then obtain b0 where b0: "n = vintLen b0" "n \<noteq> 0"
    "vint_bytes buf [pos + 1..<pos + n] (ucast b0 AND NOT (push_bit (8 - n) 0xFF)) = Some v"
    by (auto simp: readSizeVint_def Let_def bind_eq_Some_conv split: if_splits)
  from vint_bytes_below [OF b0(3) marker_masked] have "unat v < 2 ^ (8 - n + 8 * (n - 1))"
    by (auto dest: bits_below_unat)
  also have "\<dots> \<le> 2 ^ 56"
    using vintLen_le [of b0] b0(1,2) by (intro power_increasing) auto
  finally show ?thesis .
qed

text \<open>The 64-bit bounds check is exact for a size a vint can hold.\<close>

lemma element_fits:
  assumes "\<not> (of_nat (length buf) :: u64) < of_nat pos + sz" "unat sz < 2 ^ 56" "pos \<le> length buf"
    "length buf \<le> avPeekLen"
  shows "pos + unat sz \<le> length buf"
proof -
  have "unat (of_nat pos + sz :: u64) = pos + unat sz"
    using assms(2-4) by (simp add: unat_word_ariths unat_of_nat avPeekLen_def)
  moreover have "unat (of_nat (length buf) :: u64) = length buf"
    using assms(4) by (simp add: unat_of_nat avPeekLen_def)
  ultimately show ?thesis using assms(1) by (simp add: word_less_nat_alt)
qed

lemma ebml_loop_total: "length buf \<le> avPeekLen \<Longrightarrow> \<exists>res. ebml_loop buf en pos = Some res"
proof (induction buf en pos rule: ebml_loop.induct)
  case (1 buf en pos)
  obtain idr where idr: "readIDVint buf pos = Some idr" using readIDVint_total by blast
  show ?case
  proof (cases idr)
    case None
    then show ?thesis by (subst ebml_loop.simps) (simp add: idr)
  next
    case (Some x)
    then obtain eid idLen where x: "idr = Some (eid, idLen)" by (cases x) auto
    obtain szr where szr: "readSizeVint buf (pos + idLen) = Some szr" using readSizeVint_total by blast
    show ?thesis
    proof (cases szr)
      case None
      then show ?thesis by (subst ebml_loop.simps) (simp add: idr x szr)
    next
      case (Some y)
      then obtain sz sizeLen where y: "szr = Some (sz, sizeLen)" by (cases y) auto
      let ?p = "pos + idLen + sizeLen"
      have "unat sz < 2 ^ 56" "?p \<le> length buf"
        using readSizeVint_bound readSizeVint_length szr y by blast+
      then have "gslice buf ?p (?p + unat sz) \<noteq> None"
        if "\<not> (of_nat (length buf) :: u64) < of_nat ?p + sz"
        using element_fits [OF that _ _ "1.prems"] by (simp add: gslice_def)
      then show ?thesis
        using "1.IH" [OF _ idr x refl szr y refl refl] "1.prems"
        by (subst ebml_loop.simps) (auto simp: idr x szr y Let_def)
    qed
  qed
qed

lemma matchEBML_total: "length buf \<le> avPeekLen \<Longrightarrow> \<exists>res. matchEBML buf = Some res"
  using readSizeVint_total [of buf 4] ebml_loop_total [of buf]
  by (auto simp: matchEBML_def Let_def split: option.split)

lemma matchMP3_total: "\<exists>res. matchMP3 b = Some res"
  by (cases b) (auto simp: matchMP3_def gidx_def Let_def)

text \<open>What every stream detector does with its stream.\<close>

definition detects :: "nat \<Rightarrow> (bytes \<Rightarrow> string) \<Rightarrow> reader \<Rightarrow> read_error + string \<times> reader" where
  "detects n f r = (if length (avail r) < n \<and> broken r then Inl ReadFailed else Inr (f (take n (avail r)), r))"

lemma detects_peek:
  "(case peek n r of Inl e \<Rightarrow> Inl e | Inr (buf, r') \<Rightarrow> Inr (f buf, stitch buf r')) = detects n f r"
  by (auto simp: detects_def peek_def stitch_def)

definition audio_format :: "bytes \<Rightarrow> string" where
  "audio_format buf =
     (if matchWAV buf then ''wav'' else if matchOGG buf then ''ogg'' else if matchM4A buf then ''m4a''
      else if matchMP3 buf = Some True then ''mp3'' else [])"

definition table_format :: "bytes \<Rightarrow> string" where
  "table_format buf = (case find (\<lambda>(fm, mt). mt buf) signatures of Some (fm, mt) \<Rightarrow> fm | None \<Rightarrow> [])"

definition video_format :: "bytes \<Rightarrow> string" where
  "video_format buf = (case matchEBML buf of Some (Some fm) \<Rightarrow> NormalizeFormat fm | _ \<Rightarrow> [])"

lemma normalized_names [simp]:
  "NormalizeFormat ''wav'' = ''wav''" "NormalizeFormat ''ogg'' = ''ogg''" "NormalizeFormat ''m4a'' = ''m4a''"
  "NormalizeFormat ''mp3'' = ''mp3''" "NormalizeFormat ''mkv'' = ''mkv''" "NormalizeFormat ''webm'' = ''webm''"
  "NormalizeFormat ''png'' = ''png''" "NormalizeFormat ''jpg'' = ''jpg''" "NormalizeFormat ''webp'' = ''webp''"
  "NormalizeFormat ''heic'' = ''heic''" "NormalizeFormat ''tiff'' = ''tiff''" "NormalizeFormat ''mp4'' = ''mp4''"
  "NormalizeFormat ''mov'' = ''mov''" "NormalizeFormat ''avi'' = ''avi''"
  by code_simp+

lemma Sniff_detects: "Sniff r = detects sniffLen table_format r"
proof -
  have "(case find (\<lambda>(fm, mt). mt buf) signatures of Some (fm, mt) \<Rightarrow> NormalizeFormat fm | None \<Rightarrow> []) =
      table_format buf" for buf
    by (auto simp: table_format_def signatures_def)
  then show ?thesis unfolding Sniff_def by (simp add: detects_peek)
qed

lemma SniffVideo_detects: "SniffVideo r = Some (detects avPeekLen video_format r)"
proof (cases "peek avPeekLen r")
  case (Inr p)
  then obtain buf r' where p: "peek avPeekLen r = Inr (buf, r')" by (cases p) auto
  with peek_prefix have "length buf \<le> avPeekLen" by fastforce
  then obtain m where "matchEBML buf = Some m" using matchEBML_total by blast
  with p show ?thesis
    unfolding SniffVideo_def detects_peek [symmetric] by (cases m) (auto simp: video_format_def)
qed (simp add: SniffVideo_def detects_peek [symmetric])

lemma SniffAudio_detects: "SniffAudio r = Some (detects mp3PeekLen audio_format r)"
proof (cases "peek mp3PeekLen r")
  case (Inr p)
  then obtain buf r' where p: "peek mp3PeekLen r = Inr (buf, r')" by (cases p) auto
  obtain m where "matchMP3 buf = Some m" using matchMP3_total by blast
  with p show ?thesis
    unfolding SniffAudio_def detects_peek [symmetric] by (auto simp: audio_format_def)
qed (simp add: SniffAudio_def detects_peek [symmetric])

lemma ebml_loop_formats: "ebml_loop buf en pos = Some (Some fm) \<Longrightarrow> fm = ''mkv'' \<or> fm = ''webm''"
proof (induction buf en pos rule: ebml_loop.induct)
  case (1 buf en pos)
  from 1(2) [unfolded ebml_loop.simps [of buf en pos]] 1(1) show ?case
    by (simp add: Let_def split: if_split_asm option.split_asm prod.split_asm Option.bind_split_asm)
qed

lemma matchEBML_formats: "matchEBML buf = Some (Some fm) \<Longrightarrow> fm = ''mkv'' \<or> fm = ''webm''"
  by (simp add: matchEBML_def Let_def split: if_split_asm option.split_asm prod.split_asm Option.bind_split_asm)
    (erule ebml_loop_formats)+

text \<open>The stream detectors never panic and lose no byte: each answers what its table says of a
  bounded prefix (12 bytes, 4 KiB, 512 KiB) and hands on the whole stream, or reports a read error
  exactly when the connection broke inside that prefix; and what it answers is one of the formats of
  the engines that read such streams, or nothing.\<close>

theorem detectors_read_prefix:
  "Sniff r = detects sniffLen table_format r
   \<and> SniffVideo r = Some (detects avPeekLen video_format r)
   \<and> SniffAudio r = Some (detects mp3PeekLen audio_format r)
   \<and> table_format buf \<in> insert [] (set imageFormats \<union> {''mp4'', ''mov'', ''avi''})
   \<and> video_format buf \<in> {[], ''mkv'', ''webm''}
   \<and> audio_format buf \<in> {[], ''wav'', ''ogg'', ''m4a'', ''mp3''}"
proof (intro conjI)
  show "table_format buf \<in> insert [] (set imageFormats \<union> {''mp4'', ''mov'', ''avi''})"
    by (auto simp: table_format_def signatures_def imageFormats_def)
  show "video_format buf \<in> {[], ''mkv'', ''webm''}"
    by (auto simp: video_format_def split: option.split dest: matchEBML_formats)
qed (simp_all add: Sniff_detects SniffVideo_detects SniffAudio_detects audio_format_def)

subsection \<open>Containers\<close>

definition is_macro :: "zip_file \<Rightarrow> bool" where
  "is_macro f \<longleftrightarrow> z_name f \<in> set ooxmlMacroParts \<or> hasBasicPrefix (z_name f)"

lemma container_entry_total:
  "cr_TotalUncompressed (fst (container_entry i f st)) = cr_TotalUncompressed (fst st) + z_size f"
  "cr_HasMacro (fst (container_entry i f st)) \<longleftrightarrow> cr_HasMacro (fst st) \<or> is_macro f"
  by (auto simp: container_entry_def is_macro_def Let_def split: prod.splits option.splits)

lemma container_loop_total:
  "cr_TotalUncompressed (fst (container_loop i fs st)) = cr_TotalUncompressed (fst st) + sum_list (map z_size fs)"
  "cr_HasMacro (fst (container_loop i fs st)) \<longleftrightarrow> cr_HasMacro (fst st) \<or> (\<exists>f \<in> set fs. is_macro f)"
  by (induction fs arbitrary: i st) (auto simp: container_entry_total add.assoc)

lemma SniffContainer_signals:
  assumes "SniffContainer (Some fs) = Some res"
  shows "cr_TotalUncompressed res = sum_list (map z_size fs)"
    "cr_HasMacro res \<longleftrightarrow> (\<exists>f \<in> set fs. is_macro f)"
  using assms container_loop_total [of 0 fs "(empty_result, [])"]
  by (auto simp: SniffContainer_def empty_result_def split: prod.splits)

lemma sum_sizes_mod: "unat (sum_list (map z_size fs)) = (\<Sum>f \<leftarrow> fs. unat (z_size f)) mod 2 ^ 64"
  by (induction fs) (simp_all add: unat_word_ariths mod_simps)

text \<open>
  The declared total is a sum of 64-bit numbers that wraps: two parts that declare \<open>2^63\<close> bytes each
  make a total of zero, which passes every limit.
\<close>

definition wrapping_archive :: "zip_file list" where
  "wrapping_archive =
     [\<lparr>z_name = ''word/document.xml'', z_size = 2 ^ 63, z_store = False, z_payload = None\<rparr>,
      \<lparr>z_name = ''word/media/a.bin'', z_size = 2 ^ 63, z_store = False, z_payload = None\<rparr>]"

theorem zip_total_wraps:
  "\<exists>res. SniffContainer (Some wrapping_archive) = Some res \<and> cr_Format res = ''docx''
     \<and> \<not> cr_HasMacro res \<and> \<not> cr_DuplicateRootPart res \<and> cr_TotalUncompressed res = 0
     \<and> (\<Sum>f \<leftarrow> wrapping_archive. unat (z_size f)) = 2 ^ 64"
  by (simp add: SniffContainer_def wrapping_archive_def container_entry_def empty_result_def Let_def
      ooxmlMacroParts_def hasBasicPrefix_def ooxmlRootParts_def)

subsection \<open>HTML\<close>

lemma utf8_valid_ascii: "\<forall>x \<in> set xs. x < 0x80 \<Longrightarrow> utf8_valid (xs @ ys) = utf8_valid ys"
  by (induction xs) simp_all

text \<open>
  A well-formed HTML page of more than 1 MiB is refused when the cap falls inside a character:
  the check looks at a truncated copy.
\<close>

definition split_page :: bytes where
  "split_page = bytes_of ''<html>'' @ replicate (htmlSniffCap - 7) 0x20 @ [0xC3, 0xA9] @ bytes_of ''</html>''"

theorem html_cap_splits_character:
  "utf8_valid split_page \<and> 0 \<notin> set split_page \<and> html_marker split_page
   \<and> \<not> LooksLikeHTML (\<lambda>off n. take n (drop off split_page)) (\<lambda>_ _. False) (length split_page)"
proof -
  let ?pre = "bytes_of ''<html>'' @ replicate (htmlSniffCap - 7) (0x20 :: u8)"
  have ascii: "\<forall>x \<in> set ?pre. x < 0x80" by (auto simp: bytes_of_def)
  have len: "length ?pre = htmlSniffCap - 1" by (simp add: htmlSniffCap_def)
  have page: "split_page = ?pre @ [0xC3, 0xA9] @ bytes_of ''</html>''" by (simp add: split_page_def)
  have "utf8_valid split_page"
    unfolding page utf8_valid_ascii [OF ascii] by (simp add: cont_def bytes_of_def)
  moreover have "0 \<notin> set split_page" by (auto simp: split_page_def bytes_of_def)
  moreover have "html_marker split_page"
    by (simp add: html_marker_def split_page_def Let_def has_prefix_def bytes_of_def html_space_def lower_byte_def)
  moreover have "take htmlSniffCap split_page = ?pre @ [0xC3]"
    unfolding page using len by (simp add: take_Cons' htmlSniffCap_def)
  moreover have "\<not> utf8_valid (?pre @ [0xC3])"
    unfolding utf8_valid_ascii [OF ascii] by (simp add: cont_def)
  moreover have "min (length split_page) htmlSniffCap = htmlSniffCap"
    unfolding page by (simp add: htmlSniffCap_def)
  ultimately show ?thesis by (simp add: LooksLikeHTML_def Let_def)
qed

end
