(* ===== verification/Jobs.thy ===== *)
theory Jobs
  imports Complex_Main Prelude
begin

text \<open>
  The job repository \<open>internal/jobs\<close> over the tables of \<open>internal/db/migrations\<close>. A table is a
  list of rows in insertion order and every SQL statement of the repository is a function on
  the database record. A call may lose its connection before or after its transaction commits:
  the parameter of type \<open>net\<close> says which, and the error paths follow it. The second half models
  any interleaving of repository calls by any number of processes as a step relation and proves
  what the event log and the row always agree on.
\<close>

type_synonym uuid = nat
type_synonym time = int

datatype json =
    JsonNull
  | JsonBool bool
  | JsonNum int
  | JsonFrac rat
  | JsonStr string
  | JsonArr "json list"
  | JsonObj "(string \<times> json) list"

type_synonym opts = "(string \<times> json) list"

subsection \<open>Statuses and rows\<close>

definition StatusAwaitingUpload :: string where "StatusAwaitingUpload = ''awaiting_upload''"
definition StatusQueued :: string where "StatusQueued = ''queued''"
definition StatusActive :: string where "StatusActive = ''active''"
definition StatusDone :: string where "StatusDone = ''done''"
definition StatusFailed :: string where "StatusFailed = ''failed''"
definition StatusCanceled :: string where "StatusCanceled = ''canceled''"

lemmas status_defs = StatusAwaitingUpload_def StatusQueued_def StatusActive_def StatusDone_def
  StatusFailed_def StatusCanceled_def

text \<open>A row of the table \<open>jobs\<close>; a nullable column is an option.\<close>

record job_row =
  id :: uuid
  client_id :: "uuid option"
  operation :: string
  engine :: string
  status :: string
  source_format :: "string option"
  target_format :: "string option"
  preset_name :: "string option"
  preset_version :: "int option"
  options :: opts
  callback_url :: "string option"
  attempts :: nat
  error_code :: "string option"
  error_message :: "string option"
  created_at :: time
  started_at :: "time option"
  finished_at :: "time option"

record file_row =
  f_job :: uuid
  ordinal :: nat
  object_key :: string
  filename :: string
  format :: string
  size_bytes :: nat
  content_type :: string

type_synonym detail = "(string \<times> string) list"

record event_row =
  ev_job :: uuid
  from_status :: "string option"
  to_status :: string
  ev_detail :: "detail option"
  ev_at :: time

record delivery_row =
  d_id :: nat
  d_job :: uuid
  d_url :: string
  d_attempt :: nat
  d_status_code :: "nat option"
  d_delivered :: bool
  d_dead_letter :: bool

record db =
  client_ids :: "uuid list"
  jobs_tbl :: "job_row list"
  inputs_tbl :: "file_row list"
  outputs_tbl :: "file_row list"
  events_tbl :: "event_row list"
  deliveries_tbl :: "delivery_row list"

text \<open>The \<open>CHECK\<close> constraints of the table \<open>jobs\<close> after all migrations.\<close>

definition operation_check :: "string \<Rightarrow> bool" where
  "operation_check s \<longleftrightarrow> s \<in> {''convert'', ''extract'', ''archive'', ''inspect'', ''render''}"

definition engine_check :: "string \<Rightarrow> bool" where
  "engine_check s \<longleftrightarrow>
     s \<in> {''image'', ''document'', ''av'', ''cad'', ''archive'', ''probe'', ''html'', ''audio''}"

definition status_check :: "string \<Rightarrow> bool" where
  "status_check s \<longleftrightarrow> s \<in> {StatusAwaitingUpload, StatusQueued, StatusActive, StatusDone, StatusFailed,
     StatusCanceled}"

subsection \<open>Connections and transactions\<close>

text \<open>
  What happens to one database call: it works, the connection is lost before the commit (nothing
  is written), or it is lost after the commit and the caller sees an error all the same.
\<close>

datatype net = Works | LostBefore | LostAfter

datatype repo_error =
    ErrNotFound
  | IllegalTransition string string
  | ConstraintViolation
  | ConnectionLost

text \<open>\<open>pgx.BeginFunc\<close>: the body's error rolls the transaction back.\<close>

definition begin_func :: "net \<Rightarrow> (db \<Rightarrow> repo_error + 'a \<times> db) \<Rightarrow> db \<Rightarrow> (repo_error + 'a) \<times> db" where
  "begin_func n body d =
     (case n of
        LostBefore \<Rightarrow> (Inl ConnectionLost, d)
      | Works \<Rightarrow> (case body d of Inl e \<Rightarrow> (Inl e, d) | Inr (a, d') \<Rightarrow> (Inr a, d'))
      | LostAfter \<Rightarrow> (case body d of Inl e \<Rightarrow> (Inl e, d) | Inr (a, d') \<Rightarrow> (Inl ConnectionLost, d')))"

text \<open>A read-only query: an error or the rows.\<close>

definition query :: "net \<Rightarrow> (db \<Rightarrow> 'a) \<Rightarrow> db \<Rightarrow> repo_error + 'a" where
  "query n q d = (if n = Works then Inr (q d) else Inl ConnectionLost)"

definition find_job :: "uuid \<Rightarrow> db \<Rightarrow> job_row option" where
  "find_job i d = find (\<lambda>j. id j = i) (jobs_tbl d)"

definition update_job :: "uuid \<Rightarrow> (job_row \<Rightarrow> job_row) \<Rightarrow> db \<Rightarrow> db" where
  "update_job i f d = d\<lparr>jobs_tbl := map (\<lambda>j. if id j = i then f j else j) (jobs_tbl d)\<rparr>"

definition insert_event :: "event_row \<Rightarrow> db \<Rightarrow> db" where
  "insert_event e d = d\<lparr>events_tbl := events_tbl d @ [e]\<rparr>"

subsection \<open>Create\<close>

record create_params =
  p_ID :: uuid
  p_ClientID :: uuid
  p_Operation :: string
  p_Engine :: string
  p_SourceFormat :: string
  p_TargetFormat :: string
  p_CallbackURL :: string
  p_Opts :: "opts option"
  p_PresetName :: string
  p_PresetVersion :: int
  p_Input :: file_row

definition new_job :: "time \<Rightarrow> uuid \<Rightarrow> create_params \<Rightarrow> job_row" where
  "new_job now jobID p =
     \<lparr>id = jobID, client_id = Some (p_ClientID p), operation = p_Operation p, engine = p_Engine p,
      status = StatusQueued, source_format = Some (p_SourceFormat p),
      target_format = Some (p_TargetFormat p),
      preset_name = (if p_PresetName p \<noteq> [] then Some (p_PresetName p) else None),
      preset_version = (if p_PresetName p \<noteq> [] then Some (p_PresetVersion p) else None),
      options = (case p_Opts p of Some m \<Rightarrow> m | None \<Rightarrow> []),
      callback_url = Some (p_CallbackURL p), attempts = 0, error_code = None, error_message = None,
      created_at = now, started_at = None, finished_at = None\<rparr>"

text \<open>\<open>fresh\<close> is the identifier \<open>uuid.New\<close> yields; it is used when the caller gave none.\<close>

definition Create :: "net \<Rightarrow> time \<Rightarrow> uuid \<Rightarrow> create_params \<Rightarrow> db \<Rightarrow> (repo_error + uuid) \<times> db" where
  "Create n now fresh p d =
     (let jobID = (if p_ID p = 0 then fresh else p_ID p)
      in begin_func n (\<lambda>d.
           if find_job jobID d \<noteq> None \<or> p_ClientID p \<notin> set (client_ids d)
              \<or> \<not> operation_check (p_Operation p) \<or> \<not> engine_check (p_Engine p)
           then Inl ConstraintViolation
           else Inr (jobID, insert_event
             \<lparr>ev_job = jobID, from_status = None, to_status = StatusQueued, ev_detail = None, ev_at = now\<rparr>
             (d\<lparr>jobs_tbl := jobs_tbl d @ [new_job now jobID p],
                inputs_tbl := inputs_tbl d @ [(p_Input p)\<lparr>f_job := jobID\<rparr>]\<rparr>))) d)"

subsection \<open>Guarded transitions\<close>

definition transition ::
  "net \<Rightarrow> time \<Rightarrow> uuid \<Rightarrow> string \<Rightarrow> string list \<Rightarrow> detail option \<Rightarrow> (job_row \<Rightarrow> job_row) \<Rightarrow> db
     \<Rightarrow> (repo_error + unit) \<times> db" where
  "transition n now i to allowedFrom detl apply_upd d =
     begin_func n (\<lambda>d.
       case find_job i d of
         None \<Rightarrow> Inl ErrNotFound
       | Some j \<Rightarrow>
           if status j \<notin> set allowedFrom then Inl (IllegalTransition (status j) to)
           else Inr ((), insert_event
             \<lparr>ev_job = i, from_status = Some (status j), to_status = to, ev_detail = detl, ev_at = now\<rparr>
             (update_job i apply_upd d))) d"

definition MarkActive :: "net \<Rightarrow> time \<Rightarrow> uuid \<Rightarrow> db \<Rightarrow> (repo_error + unit) \<times> db" where
  "MarkActive n now i =
     transition n now i StatusActive [StatusQueued, StatusActive] None
       (\<lambda>j. j\<lparr>status := StatusActive,
             started_at := (case started_at j of None \<Rightarrow> Some now | Some t \<Rightarrow> Some t),
             attempts := attempts j + 1\<rparr>)"

definition MarkDone :: "net \<Rightarrow> time \<Rightarrow> uuid \<Rightarrow> db \<Rightarrow> (repo_error + unit) \<times> db" where
  "MarkDone n now i =
     transition n now i StatusDone [StatusActive] None
       (\<lambda>j. j\<lparr>status := StatusDone, finished_at := Some now\<rparr>)"

definition MarkFailed ::
  "net \<Rightarrow> time \<Rightarrow> uuid \<Rightarrow> string \<Rightarrow> string \<Rightarrow> detail option \<Rightarrow> db \<Rightarrow> (repo_error + unit) \<times> db" where
  "MarkFailed n now i code message detl =
     transition n now i StatusFailed [StatusQueued, StatusActive] detl
       (\<lambda>j. j\<lparr>status := StatusFailed, finished_at := Some now, error_code := Some code,
             error_message := Some message\<rparr>)"

definition detailActionRecovery :: string where
  "detailActionRecovery = ''reconciler_recovery''"

definition detailActionWebhookGapRecovered :: string where
  "detailActionWebhookGapRecovered = ''webhook_gap_recovered''"

definition RequeueStale :: "net \<Rightarrow> time \<Rightarrow> uuid \<Rightarrow> string \<Rightarrow> db \<Rightarrow> (repo_error + unit) \<times> db" where
  "RequeueStale n now i reason =
     transition n now i StatusQueued [StatusQueued, StatusActive]
       (Some [(''action'', detailActionRecovery), (''reason'', reason)])
       (\<lambda>j. j\<lparr>status := StatusQueued\<rparr>)"

subsection \<open>Queries\<close>

definition has_action :: "string \<Rightarrow> event_row \<Rightarrow> bool" where
  "has_action a e \<longleftrightarrow> (case ev_detail e of None \<Rightarrow> False | Some m \<Rightarrow> map_of m ''action'' = Some a)"

definition recoveries :: "uuid \<Rightarrow> db \<Rightarrow> nat" where
  "recoveries i d = length (filter (\<lambda>e. ev_job e = i \<and> has_action detailActionRecovery e) (events_tbl d))"

definition RecoveryCount :: "net \<Rightarrow> uuid \<Rightarrow> db \<Rightarrow> repo_error + nat" where
  "RecoveryCount n i d = query n (recoveries i) d"

record StaleJob =
  sj_ID :: uuid
  sj_Status :: string
  sj_Engine :: string

definition is_stale :: "time \<Rightarrow> time \<Rightarrow> job_row \<Rightarrow> bool" where
  "is_stale queuedCutoff activeCutoff j \<longleftrightarrow>
     (status j = StatusQueued \<and> created_at j < queuedCutoff)
     \<or> (status j = StatusActive \<and> (case started_at j of None \<Rightarrow> False | Some t \<Rightarrow> t < activeCutoff))"

definition FindStale :: "net \<Rightarrow> time \<Rightarrow> time \<Rightarrow> time \<Rightarrow> db \<Rightarrow> repo_error + StaleJob list" where
  "FindStale n now queuedStaleAfter activeStaleAfter d =
     query n (\<lambda>d. map (\<lambda>j. \<lparr>sj_ID = id j, sj_Status = status j, sj_Engine = engine j\<rparr>)
       (filter (is_stale (now - queuedStaleAfter) (now - activeStaleAfter)) (jobs_tbl d))) d"

definition is_webhook_gap :: "time \<Rightarrow> db \<Rightarrow> job_row \<Rightarrow> bool" where
  "is_webhook_gap cutoff d j \<longleftrightarrow>
     status j \<in> {StatusDone, StatusFailed}
     \<and> (case callback_url j of None \<Rightarrow> False | Some u \<Rightarrow> u \<noteq> [])
     \<and> (case finished_at j of None \<Rightarrow> False | Some t \<Rightarrow> t < cutoff)
     \<and> \<not> (\<exists>w \<in> set (deliveries_tbl d). d_job w = id j)"

definition FindWebhookGaps :: "net \<Rightarrow> time \<Rightarrow> time \<Rightarrow> db \<Rightarrow> repo_error + (uuid \<times> string) list" where
  "FindWebhookGaps n now activeStaleAfter d =
     query n (\<lambda>d. map (\<lambda>j. (id j, status j))
       (filter (is_webhook_gap (now - activeStaleAfter) d) (jobs_tbl d))) d"

definition RecordWebhookGapRecovered ::
  "net \<Rightarrow> time \<Rightarrow> uuid \<Rightarrow> string \<Rightarrow> db \<Rightarrow> (repo_error + unit) \<times> db" where
  "RecordWebhookGapRecovered n now i st d =
     begin_func n (\<lambda>d.
       if find_job i d = None then Inl ConstraintViolation
       else Inr ((), insert_event
         \<lparr>ev_job = i, from_status = Some st, to_status = st,
          ev_detail = Some [(''action'', detailActionWebhookGapRecovered)], ev_at = now\<rparr> d)) d"

definition AddOutput :: "net \<Rightarrow> uuid \<Rightarrow> file_row \<Rightarrow> db \<Rightarrow> (repo_error + unit) \<times> db" where
  "AddOutput n i o_row d =
     begin_func n (\<lambda>d.
       if find_job i d = None then Inl ConstraintViolation
       else Inr ((), d\<lparr>outputs_tbl := outputs_tbl d @ [o_row\<lparr>f_job := i\<rparr>]\<rparr>)) d"

text \<open>The struct \<open>Job\<close> the repository hands out: nullable columns become empty strings.\<close>

record Job =
  ID :: uuid
  ClientID :: uuid
  Operation :: string
  Engine :: string
  Status :: string
  SourceFormat :: string
  TargetFormat :: string
  CallbackURL :: string
  Opts :: opts
  ErrorCode :: string
  ErrorMessage :: string
  CreatedAt :: time
  StartedAt :: "time option"
  FinishedAt :: "time option"

definition deref :: "string option \<Rightarrow> string" where
  "deref s = (case s of None \<Rightarrow> [] | Some x \<Rightarrow> x)"

definition job_of_row :: "job_row \<Rightarrow> Job" where
  "job_of_row j =
     \<lparr>ID = id j, ClientID = (case client_id j of Some c \<Rightarrow> c | None \<Rightarrow> 0), Operation = operation j,
      Engine = engine j, Status = status j, SourceFormat = deref (source_format j),
      TargetFormat = deref (target_format j), CallbackURL = deref (callback_url j),
      Opts = options j, ErrorCode = deref (error_code j), ErrorMessage = deref (error_message j),
      CreatedAt = created_at j, StartedAt = started_at j, FinishedAt = finished_at j\<rparr>"

definition Get :: "net \<Rightarrow> uuid \<Rightarrow> db \<Rightarrow> repo_error + Job" where
  "Get n i d =
     (if n \<noteq> Works then Inl ConnectionLost
      else case find_job i d of None \<Rightarrow> Inl ErrNotFound | Some j \<Rightarrow> Inr (job_of_row j))"

definition Inputs :: "net \<Rightarrow> uuid \<Rightarrow> db \<Rightarrow> repo_error + file_row list" where
  "Inputs n i d = query n (\<lambda>d. sort_key ordinal (filter (\<lambda>f. f_job f = i) (inputs_tbl d))) d"

definition Outputs :: "net \<Rightarrow> uuid \<Rightarrow> db \<Rightarrow> repo_error + file_row list" where
  "Outputs n i d = query n (\<lambda>d. sort_key ordinal (filter (\<lambda>f. f_job f = i) (outputs_tbl d))) d"

subsection \<open>Webhook deliveries\<close>

text \<open>\<open>fresh\<close> is the identifier the database generates for the row.\<close>

definition RecordAttempt ::
  "net \<Rightarrow> nat \<Rightarrow> uuid \<Rightarrow> string \<Rightarrow> nat \<Rightarrow> nat option \<Rightarrow> bool \<Rightarrow> db \<Rightarrow> (repo_error + nat) \<times> db" where
  "RecordAttempt n fresh i url attempt code delivered d =
     begin_func n (\<lambda>d.
       if find_job i d = None then Inl ConstraintViolation
       else Inr (fresh, d\<lparr>deliveries_tbl := deliveries_tbl d @
         [\<lparr>d_id = fresh, d_job = i, d_url = url, d_attempt = attempt, d_status_code = code,
           d_delivered = delivered, d_dead_letter = False\<rparr>]\<rparr>)) d"

definition MarkDeadLetter :: "net \<Rightarrow> nat \<Rightarrow> db \<Rightarrow> (repo_error + unit) \<times> db" where
  "MarkDeadLetter n delivery d =
     begin_func n (\<lambda>d. Inr ((), d\<lparr>deliveries_tbl :=
       map (\<lambda>w. if d_id w = delivery then w\<lparr>d_dead_letter := True\<rparr> else w) (deliveries_tbl d)\<rparr>)) d"

subsection \<open>The event log as a chain of legal moves\<close>

fun legal_move :: "string option \<Rightarrow> string \<Rightarrow> bool" where
  "legal_move None t = (t = StatusQueued)"
| "legal_move (Some s) t =
     (if s = StatusQueued then t \<in> {StatusQueued, StatusActive, StatusFailed}
      else if s = StatusActive then t \<in> {StatusQueued, StatusActive, StatusDone, StatusFailed}
      else (s = StatusDone \<or> s = StatusFailed) \<and> t = s)"

primrec chain :: "string option \<Rightarrow> event_row list \<Rightarrow> bool" where
  "chain cur [] = True"
| "chain cur (e # es) =
     (from_status e = cur \<and> legal_move cur (to_status e) \<and> chain (Some (to_status e)) es)"

primrec chain_end :: "string option \<Rightarrow> event_row list \<Rightarrow> string option" where
  "chain_end cur [] = cur"
| "chain_end cur (e # es) = chain_end (Some (to_status e)) es"

lemma chain_append [simp]: "chain c (xs @ ys) \<longleftrightarrow> chain c xs \<and> chain (chain_end c xs) ys"
  by (induction xs arbitrary: c) auto

lemma chain_end_append [simp]: "chain_end c (xs @ ys) = chain_end (chain_end c xs) ys"
  by (induction xs arbitrary: c) auto

definition history :: "uuid \<Rightarrow> db \<Rightarrow> event_row list" where
  "history i d = filter (\<lambda>e. ev_job e = i) (events_tbl d)"

definition activations :: "event_row list \<Rightarrow> nat" where
  "activations es = length (filter (\<lambda>e. to_status e = StatusActive) es)"

text \<open>What a row and its history agree on.\<close>

definition row_ok :: "job_row \<Rightarrow> event_row list \<Rightarrow> bool" where
  "row_ok j es \<longleftrightarrow>
     chain None es \<and> chain_end None es = Some (status j) \<and> attempts j = activations es
     \<and> (started_at j = None \<longleftrightarrow> attempts j = 0)
     \<and> (finished_at j \<noteq> None \<longleftrightarrow> status j \<in> {StatusDone, StatusFailed})
     \<and> (error_code j \<noteq> None \<longleftrightarrow> status j = StatusFailed)
     \<and> (status j \<in> {StatusActive, StatusDone} \<longrightarrow> attempts j > 0)"

definition db_ok :: "db \<Rightarrow> bool" where
  "db_ok d \<longleftrightarrow> distinct (map id (jobs_tbl d))
     \<and> (\<forall>j \<in> set (jobs_tbl d). row_ok j (history (id j) d))
     \<and> (\<forall>e \<in> set (events_tbl d). ev_job e \<in> id ` set (jobs_tbl d))"

lemma find_job_SomeD: "find_job i d = Some j \<Longrightarrow> j \<in> set (jobs_tbl d) \<and> id j = i"
  by (auto simp: find_job_def find_Some_iff)

lemma find_job_None: "find_job i d = None \<longleftrightarrow> i \<notin> id ` set (jobs_tbl d)"
  by (auto simp: find_job_def find_None_iff)

lemma find_job_unique:
  "distinct (map id (jobs_tbl d)) \<Longrightarrow> j \<in> set (jobs_tbl d) \<Longrightarrow> find_job (id j) d = Some j"
  by (simp add: find_job_def find_by_key)

lemma history_insert:
  "history i (insert_event e d) = history i d @ (if ev_job e = i then [e] else [])"
  by (simp add: history_def insert_event_def)

lemma history_update [simp]: "history i (update_job k f d) = history i d"
  by (simp add: history_def update_job_def)

lemma jobs_update [simp]:
  "jobs_tbl (update_job i f d) = map (\<lambda>j. if id j = i then f j else j) (jobs_tbl d)"
  "events_tbl (update_job i f d) = events_tbl d" "deliveries_tbl (update_job i f d) = deliveries_tbl d"
  by (simp_all add: update_job_def)

lemma tables_insert_event [simp]:
  "jobs_tbl (insert_event e d) = jobs_tbl d" "events_tbl (insert_event e d) = events_tbl d @ [e]"
  "deliveries_tbl (insert_event e d) = deliveries_tbl d"
  by (simp_all add: insert_event_def)

text \<open>
  The one lemma behind every transition: a row update that keeps the identifier, together with
  the event it logs, keeps the invariant when the move is legal and the new row fits it.
\<close>

lemma db_ok_update:
  assumes ok: "db_ok d" and j: "find_job i d = Some j" and e: "ev_job e = i"
    and f: "\<And>k. id (f k) = id k"
    and new: "row_ok (f j) (history i d @ [e])"
  shows "db_ok (insert_event e (update_job i f d))"
proof -
  note ji = find_job_SomeD [OF j]
  have same: "k = j" if "k \<in> set (jobs_tbl d)" "id k = i" for k
    using find_job_unique [of d k] ok j that by (simp add: db_ok_def)
  have ids: "map id (jobs_tbl (update_job i f d)) = map id (jobs_tbl d)"
    by (simp add: f cong: map_cong)
  have "row_ok k' (history (id k') (insert_event e (update_job i f d)))"
    if "k' \<in> set (jobs_tbl (update_job i f d))" for k'
  proof -
    from that obtain k where k: "k \<in> set (jobs_tbl d)" "k' = (if id k = i then f k else k)"
      by auto
    show ?thesis
      using k same new ok e by (auto simp: history_insert f db_ok_def)
  qed
  moreover have "ev_job e' \<in> id ` set (jobs_tbl (update_job i f d))"
    if "e' \<in> set (events_tbl (insert_event e d))" for e'
  proof -
    have "ev_job e' \<in> set (map id (jobs_tbl d))"
      using that ok e ji by (force simp: db_ok_def)
    then show ?thesis by (simp only: ids [symmetric] set_map)
  qed
  moreover have "distinct (map id (jobs_tbl (update_job i f d)))"
    unfolding ids using ok by (simp add: db_ok_def)
  ultimately show ?thesis
    unfolding db_ok_def tables_insert_event jobs_update(2) by blast
qed

lemma begin_func_cases:
  assumes "begin_func n body d = (r, d')"
  obtains "d' = d" | a where "body d = Inr (a, d')"
  using assms by (auto simp: begin_func_def split: net.splits sum.splits prod.splits)

lemma snd_begin_func:
  "P d \<Longrightarrow> (\<And>a d'. body d = Inr (a, d') \<Longrightarrow> P d') \<Longrightarrow> P (snd (begin_func n body d))"
  by (auto simp: begin_func_def split: net.splits sum.splits prod.splits)

lemma transition_keeps:
  assumes "P d"
    and "\<And>j. find_job i d = Some j \<Longrightarrow> status j \<in> set allowed \<Longrightarrow>
      P (insert_event \<lparr>ev_job = i, from_status = Some (status j), to_status = to, ev_detail = dt,
         ev_at = now\<rparr> (update_job i f d))"
  shows "P (snd (transition n now i to allowed dt f d))"
  unfolding transition_def
  by (rule snd_begin_func) (use assms in \<open>auto split: option.splits if_splits\<close>)

lemma db_ok_transition:
  assumes "db_ok d" and "\<And>k. id (f k) = id k"
    and "\<And>j. find_job i d = Some j \<Longrightarrow> row_ok j (history i d) \<Longrightarrow> status j \<in> set allowed \<Longrightarrow>
      row_ok (f j) (history i d @ [\<lparr>ev_job = i, from_status = Some (status j), to_status = to,
         ev_detail = dt, ev_at = now\<rparr>])"
  shows "db_ok (snd (transition n now i to allowed dt f d))"
proof (rule transition_keeps [where P = db_ok, OF assms(1)])
  fix j
  assume j: "find_job i d = Some j" "status j \<in> set allowed"
  then have "row_ok j (history i d)"
    using assms(1) find_job_SomeD [OF j(1)] by (auto simp: db_ok_def)
  with assms j show "db_ok (insert_event \<lparr>ev_job = i, from_status = Some (status j), to_status = to,
      ev_detail = dt, ev_at = now\<rparr> (update_job i f d))"
    by (intro db_ok_update) auto
qed

lemmas row_simps = row_ok_def activations_def status_defs

lemma MarkActive_ok: "db_ok d \<Longrightarrow> db_ok (snd (MarkActive n now i d))"
  unfolding MarkActive_def
  by (rule db_ok_transition) (auto simp: row_simps split: option.splits)

lemma MarkDone_ok: "db_ok d \<Longrightarrow> db_ok (snd (MarkDone n now i d))"
  unfolding MarkDone_def by (rule db_ok_transition) (auto simp: row_simps)

lemma MarkFailed_ok: "db_ok d \<Longrightarrow> db_ok (snd (MarkFailed n now i c m dt d))"
  unfolding MarkFailed_def by (rule db_ok_transition) (auto simp: row_simps)

lemma RequeueStale_ok: "db_ok d \<Longrightarrow> db_ok (snd (RequeueStale n now i r d))"
  unfolding RequeueStale_def by (rule db_ok_transition) (auto simp: row_simps)

lemma Create_ok:
  assumes ok: "db_ok d"
  shows "db_ok (snd (Create n now fresh p d))"
proof -
  define i where "i = (if p_ID p = 0 then fresh else p_ID p)"
  have fresh: "db_ok (insert_event
      \<lparr>ev_job = i, from_status = None, to_status = StatusQueued, ev_detail = None, ev_at = now\<rparr>
      (d\<lparr>jobs_tbl := jobs_tbl d @ [new_job now i p],
         inputs_tbl := inputs_tbl d @ [(p_Input p)\<lparr>f_job := i\<rparr>]\<rparr>))" (is "db_ok ?d")
    if none: "find_job i d = None"
  proof -
    have new: "id (new_job now i p) = i" by (simp add: new_job_def)
    have empty: "history i d = []"
      using none ok by (auto simp: history_def db_ok_def find_job_None filter_empty_conv)
    have hist: "history k ?d = history k d @ (if k = i then [\<lparr>ev_job = i, from_status = None,
        to_status = StatusQueued, ev_detail = None, ev_at = now\<rparr>] else [])" for k
      by (auto simp: history_def insert_event_def)
    have "row_ok k (history (id k) ?d)" if "k \<in> set (jobs_tbl d)" for k
      using ok none that by (auto simp: hist db_ok_def find_job_None)
    moreover have "row_ok (new_job now i p) (history i ?d)"
      unfolding hist empty by (simp add: row_simps new_job_def)
    ultimately show ?thesis
      using ok none by (auto simp: db_ok_def find_job_None new)
  qed
  show ?thesis
    unfolding Create_def Let_def i_def [symmetric]
    by (rule snd_begin_func [where P = db_ok, OF ok]) (auto split: if_splits intro: fresh)
qed

subsection \<open>Processes sharing the database\<close>

text \<open>
  One step is one committed or lost repository call by any process. \<open>seen\<close> holds the rows a
  webhook-gap scan returned, possibly long before the event for one of them is recorded.
\<close>

record sys =
  sdb :: db
  seen :: "(uuid \<times> string) list"

inductive sys_step :: "sys \<Rightarrow> sys \<Rightarrow> bool" where
  create: "sys_step s (s\<lparr>sdb := snd (Create n now fresh p (sdb s))\<rparr>)"
| active: "sys_step s (s\<lparr>sdb := snd (MarkActive n now i (sdb s))\<rparr>)"
| finish: "sys_step s (s\<lparr>sdb := snd (MarkDone n now i (sdb s))\<rparr>)"
| failed: "sys_step s (s\<lparr>sdb := snd (MarkFailed n now i c m dt (sdb s))\<rparr>)"
| requeue: "sys_step s (s\<lparr>sdb := snd (RequeueStale n now i r (sdb s))\<rparr>)"
| add_output: "sys_step s (s\<lparr>sdb := snd (AddOutput n i f (sdb s))\<rparr>)"
| attempt: "sys_step s (s\<lparr>sdb := snd (RecordAttempt n fr i u a c b (sdb s))\<rparr>)"
| dead_letter: "sys_step s (s\<lparr>sdb := snd (MarkDeadLetter n w (sdb s))\<rparr>)"
| find_gaps: "FindWebhookGaps n now a (sdb s) = Inr gs \<Longrightarrow> sys_step s (s\<lparr>seen := seen s @ gs\<rparr>)"
| record_gap: "(i, st) \<in> set (seen s) \<Longrightarrow>
    sys_step s (s\<lparr>sdb := snd (RecordWebhookGapRecovered n now i st (sdb s))\<rparr>)"

definition empty_db :: "uuid list \<Rightarrow> db" where
  "empty_db cs = \<lparr>client_ids = cs, jobs_tbl = [], inputs_tbl = [], outputs_tbl = [], events_tbl = [],
     deliveries_tbl = []\<rparr>"

inductive sys_reachable :: "sys \<Rightarrow> bool" where
  init: "sys_reachable \<lparr>sdb = empty_db cs, seen = []\<rparr>"
| step: "sys_reachable s \<Longrightarrow> sys_step s t \<Longrightarrow> sys_reachable t"

definition terminal :: "string \<Rightarrow> bool" where
  "terminal st \<longleftrightarrow> st = StatusDone \<or> st = StatusFailed"

definition sys_ok :: "sys \<Rightarrow> bool" where
  "sys_ok s \<longleftrightarrow> db_ok (sdb s)
     \<and> (\<forall>(i, st) \<in> set (seen s). \<exists>j. find_job i (sdb s) = Some j \<and> status j = st \<and> terminal st)"

lemma find_job_update:
  assumes "\<And>k. id (f k) = id k"
  shows "find_job i (update_job k f d) = map_option (\<lambda>j. if id j = k then f j else j) (find_job i d)"
proof -
  have "find (\<lambda>j. id j = i) (map (\<lambda>j. if id j = k then f j else j) xs)
      = map_option (\<lambda>j. if id j = k then f j else j) (find (\<lambda>j. id j = i) xs)" for xs
    by (induction xs) (auto simp: assms)
  then show ?thesis by (simp add: find_job_def)
qed

lemma find_job_other_tables [simp]:
  "find_job i (insert_event e d) = find_job i d"
  "find_job i (d\<lparr>outputs_tbl := os\<rparr>) = find_job i d"
  "find_job i (d\<lparr>deliveries_tbl := ws\<rparr>) = find_job i d"
  by (simp_all add: find_job_def insert_event_def)

text \<open>
  How any repository call may change one row: not at all when it is terminal, and never what the
  client asked for, its creation time, or a start time once set.
\<close>

definition row_frame :: "job_row \<Rightarrow> job_row \<Rightarrow> bool" where
  "row_frame j j' \<longleftrightarrow> id j' = id j \<and> created_at j' = created_at j \<and> engine j' = engine j
     \<and> callback_url j' = callback_url j \<and> client_id j' = client_id j \<and> operation j' = operation j
     \<and> source_format j' = source_format j \<and> target_format j' = target_format j \<and> options j' = options j
     \<and> preset_name j' = preset_name j \<and> preset_version j' = preset_version j
     \<and> (started_at j \<noteq> None \<longrightarrow> started_at j' = started_at j)
     \<and> (terminal (status j) \<longrightarrow> j' = j)"

definition keeps_rows :: "db \<Rightarrow> db \<Rightarrow> bool" where
  "keeps_rows d d' \<longleftrightarrow> (\<forall>i j. find_job i d = Some j \<longrightarrow> (\<exists>j'. find_job i d' = Some j' \<and> row_frame j j'))"

lemma row_frame_refl [simp]: "row_frame j j"
  by (simp add: row_frame_def)

lemma keeps_rows_refl [simp]: "keeps_rows d d"
  by (auto simp: keeps_rows_def)

lemma row_frame_trans: "row_frame a b \<Longrightarrow> row_frame b c \<Longrightarrow> row_frame a c"
  by (auto simp: row_frame_def)

lemma keeps_rows_trans: "keeps_rows a b \<Longrightarrow> keeps_rows b c \<Longrightarrow> keeps_rows a c"
  unfolding keeps_rows_def by (meson row_frame_trans)

lemma keeps_rows_transition:
  assumes "\<And>k. id (f k) = id k" and "\<And>j. status j \<in> set allowed \<Longrightarrow> row_frame j (f j)"
  shows "keeps_rows d (snd (transition n now i to allowed dt f d))"
proof (rule transition_keeps [where P = "keeps_rows d"])
  fix j
  assume j: "find_job i d = Some j" "status j \<in> set allowed"
  have "\<exists>j'. find_job k (update_job i f d) = Some j' \<and> row_frame jk j'"
    if "find_job k d = Some jk" for k jk
    using that j assms find_job_SomeD [OF that] by (auto simp: find_job_update)
  then show "keeps_rows d (insert_event \<lparr>ev_job = i, from_status = Some (status j), to_status = to,
      ev_detail = dt, ev_at = now\<rparr> (update_job i f d))"
    by (simp add: keeps_rows_def)
qed simp

lemma keeps_rows_ops:
  "keeps_rows d (snd (MarkActive n now i d))" "keeps_rows d (snd (MarkDone n now i d))"
  "keeps_rows d (snd (MarkFailed n now i c m dt d))" "keeps_rows d (snd (RequeueStale n now i r d))"
  unfolding MarkActive_def MarkDone_def MarkFailed_def RequeueStale_def
  by (rule keeps_rows_transition; auto simp: row_frame_def terminal_def status_defs split: option.splits)+

lemma keeps_rows_inserts:
  "keeps_rows d (snd (AddOutput n i f d))"
  "keeps_rows d (snd (RecordAttempt n fr i u a c b d))"
  "keeps_rows d (snd (MarkDeadLetter n w d))"
  "keeps_rows d (snd (RecordWebhookGapRecovered n now i st d))"
  unfolding AddOutput_def RecordAttempt_def MarkDeadLetter_def RecordWebhookGapRecovered_def
  by (rule snd_begin_func [where P = "keeps_rows d"], simp,
      fastforce simp: keeps_rows_def split: if_splits)+

lemma keeps_rows_create: "keeps_rows d (snd (Create n now fresh p d))"
  unfolding Create_def Let_def
  by (rule snd_begin_func [where P = "keeps_rows d"], simp)
    (fastforce simp: keeps_rows_def find_job_def find_append split: if_splits option.splits)

lemma sys_step_keeps_rows: "sys_step s t \<Longrightarrow> keeps_rows (sdb s) (sdb t)"
  by (induction rule: sys_step.induct) (simp_all add: keeps_rows_ops keeps_rows_inserts keeps_rows_create)

lemma db_ok_other_tables:
  "db_ok d \<Longrightarrow> db_ok (d\<lparr>outputs_tbl := os\<rparr>)" "db_ok d \<Longrightarrow> db_ok (d\<lparr>deliveries_tbl := ws\<rparr>)"
  by (simp_all add: db_ok_def history_def)

lemma db_ok_inserts:
  "db_ok d \<Longrightarrow> db_ok (snd (AddOutput n i f d))"
  "db_ok d \<Longrightarrow> db_ok (snd (RecordAttempt n fr i u a c b d))"
  "db_ok d \<Longrightarrow> db_ok (snd (MarkDeadLetter n w d))"
  unfolding AddOutput_def RecordAttempt_def MarkDeadLetter_def
  by (rule snd_begin_func [where P = db_ok], assumption,
      force simp: db_ok_other_tables split: if_splits)+

lemma update_job_id [simp]: "update_job i (\<lambda>j. j) d = d"
  by (simp add: update_job_def)

lemma RecordWebhookGapRecovered_ok:
  assumes "db_ok d" "find_job i d = Some j" "status j = st" "terminal st"
  shows "db_ok (snd (RecordWebhookGapRecovered n now i st d))"
proof -
  have "row_ok j (history i d)"
    using assms(1,2) find_job_SomeD [OF assms(2)] by (auto simp: db_ok_def)
  then have "db_ok (insert_event e (update_job i (\<lambda>j. j) d))"
    if "e = \<lparr>ev_job = i, from_status = Some st, to_status = st,
      ev_detail = Some [(''action'', detailActionWebhookGapRecovered)], ev_at = now\<rparr>" for e
    using assms that by (intro db_ok_update) (auto simp: row_simps terminal_def)
  then show ?thesis
    unfolding RecordWebhookGapRecovered_def
    by (intro snd_begin_func [where P = db_ok]) (use assms in \<open>auto split: if_splits\<close>)
qed

lemma FindWebhookGaps_terminal:
  assumes "db_ok d" "FindWebhookGaps n now a d = Inr gs" "(i, st) \<in> set gs"
  shows "\<exists>j. find_job i d = Some j \<and> status j = st \<and> terminal st"
  using assms find_job_unique
  by (fastforce simp: FindWebhookGaps_def query_def is_webhook_gap_def terminal_def db_ok_def
      split: if_splits)

lemma seen_stays:
  "keeps_rows d d' \<Longrightarrow> find_job i d = Some j \<Longrightarrow> terminal (status j) \<Longrightarrow> find_job i d' = Some j"
  by (auto simp: keeps_rows_def row_frame_def)

lemma sys_step_db_ok: "sys_step s t \<Longrightarrow> sys_ok s \<Longrightarrow> db_ok (sdb t)"
proof (induction rule: sys_step.induct)
  case (record_gap i st s n now)
  then obtain j where "find_job i (sdb s) = Some j" "status j = st" "terminal st"
    by (auto simp: sys_ok_def)
  with record_gap show ?case by (simp add: RecordWebhookGapRecovered_ok sys_ok_def)
qed (simp_all add: sys_ok_def Create_ok MarkActive_ok MarkDone_ok MarkFailed_ok RequeueStale_ok
    db_ok_inserts)

lemma sys_step_seen:
  "sys_step s t \<Longrightarrow> db_ok (sdb s) \<Longrightarrow> (i, st) \<in> set (seen t) \<Longrightarrow>
   (i, st) \<in> set (seen s) \<or> (\<exists>j. find_job i (sdb t) = Some j \<and> status j = st \<and> terminal st)"
  by (induction rule: sys_step.induct) (auto dest: FindWebhookGaps_terminal)

lemma sys_step_ok:
  assumes step: "sys_step s t" and ok: "sys_ok s"
  shows "sys_ok t"
proof -
  have "\<exists>j. find_job i (sdb t) = Some j \<and> status j = st \<and> terminal st" if "(i, st) \<in> set (seen t)" for i st
  proof -
    have "db_ok (sdb s)" using ok by (simp add: sys_ok_def)
    from sys_step_seen [OF step this that] show ?thesis
      using ok seen_stays [OF sys_step_keeps_rows [OF step]] by (fastforce simp: sys_ok_def)
  qed
  then show ?thesis using sys_step_db_ok [OF step ok] by (auto simp: sys_ok_def)
qed

lemma sys_reachable_ok: "sys_reachable s \<Longrightarrow> sys_ok s"
  by (induction rule: sys_reachable.induct)
    (auto simp: sys_ok_def [of "\<lparr>sdb = _, seen = _\<rparr>"] db_ok_def empty_db_def intro: sys_step_ok)

subsection \<open>The contract every repository call keeps\<close>

locale repo_call =
  fixes call :: "db \<Rightarrow> db"
  assumes call_ok: "db_ok d \<Longrightarrow> db_ok (call d)"
    and call_keeps: "keeps_rows d (call d)"
begin

lemma calls_ok: "db_ok d \<Longrightarrow> db_ok ((call ^^ k) d)"
  by (induction k) (simp_all add: call_ok)

lemma calls_keep: "keeps_rows d ((call ^^ k) d)"
  by (induction k) (auto intro: keeps_rows_trans call_keeps)

lemma terminal_absorbs:
  "find_job i d = Some j \<Longrightarrow> terminal (status j) \<Longrightarrow> find_job i ((call ^^ k) d) = Some j"
  by (rule seen_stays [OF calls_keep])

end

interpretation create_call: repo_call "\<lambda>d. snd (Create n now fresh p d)" for n now fresh p
  by unfold_locales (rule Create_ok, assumption, rule keeps_rows_create)

interpretation active_call: repo_call "\<lambda>d. snd (MarkActive n now i d)" for n now i
  by unfold_locales (rule MarkActive_ok, assumption, rule keeps_rows_ops)

interpretation done_call: repo_call "\<lambda>d. snd (MarkDone n now i d)" for n now i
  by unfold_locales (rule MarkDone_ok, assumption, rule keeps_rows_ops)

interpretation failed_call: repo_call "\<lambda>d. snd (MarkFailed n now i c m dt d)" for n now i c m dt
  by unfold_locales (rule MarkFailed_ok, assumption, rule keeps_rows_ops)

interpretation requeue_call: repo_call "\<lambda>d. snd (RequeueStale n now i r d)" for n now i r
  by unfold_locales (rule RequeueStale_ok, assumption, rule keeps_rows_ops)

interpretation output_call: repo_call "\<lambda>d. snd (AddOutput n i f d)" for n i f
  by unfold_locales (rule db_ok_inserts, assumption, rule keeps_rows_inserts)

interpretation attempt_call: repo_call "\<lambda>d. snd (RecordAttempt n fr i u a c b d)" for n fr i u a c b
  by unfold_locales (rule db_ok_inserts, assumption, rule keeps_rows_inserts)

subsection \<open>Counting recoveries\<close>

lemma recoveries_insert:
  "recoveries k (insert_event e d) =
     recoveries k d + (if ev_job e = k \<and> has_action detailActionRecovery e then 1 else 0)"
  by (simp add: recoveries_def)

lemma recoveries_update [simp]: "recoveries k (update_job i f d) = recoveries k d"
  by (simp add: recoveries_def)

lemma recoveries_transition:
  "recoveries k (snd (transition n now i to allowed dt f d)) =
     recoveries k d +
     (if k = i \<and> n \<noteq> LostBefore \<and> (\<exists>j. find_job i d = Some j \<and> status j \<in> set allowed)
         \<and> has_action detailActionRecovery \<lparr>ev_job = i, from_status = None, to_status = to,
              ev_detail = dt, ev_at = now\<rparr>
      then 1 else 0)"
  by (auto simp: transition_def begin_func_def recoveries_insert has_action_def
      split: net.splits option.splits)

lemma recoveries_other:
  "recoveries k (snd (MarkActive n now i d)) = recoveries k d"
  "recoveries k (snd (MarkDone n now i d)) = recoveries k d"
  "recoveries k (snd (MarkFailed n now i c m (Some [(''action'', ''reconciler_exhausted'')]) d)) = recoveries k d"
  "recoveries k (snd (RecordWebhookGapRecovered n now i st d)) = recoveries k d"
  unfolding MarkActive_def MarkDone_def MarkFailed_def recoveries_transition
  by (auto simp: has_action_def detailActionRecovery_def RecordWebhookGapRecovered_def
      begin_func_def recoveries_insert detailActionWebhookGapRecovered_def
      split: net.splits if_splits)

lemma recoveries_requeue:
  "recoveries k (snd (RequeueStale n now i r d)) =
     recoveries k d +
     (if k = i \<and> n \<noteq> LostBefore
         \<and> (\<exists>j. find_job i d = Some j \<and> status j \<in> {StatusQueued, StatusActive}) then 1 else 0)"
  unfolding RequeueStale_def recoveries_transition by (simp add: has_action_def)

subsection \<open>A small history\<close>

definition demo_input :: file_row where
  "demo_input = \<lparr>f_job = 0, ordinal = 0, object_key = ''k'', filename = ''a.png'', format = ''png'',
     size_bytes = 3, content_type = ''image/png''\<rparr>"

definition demo_params :: create_params where
  "demo_params = \<lparr>p_ID = 5, p_ClientID = 1, p_Operation = ''convert'', p_Engine = ''image'',
     p_SourceFormat = ''png'', p_TargetFormat = ''jpg'', p_CallbackURL = ''https://x'', p_Opts = None,
     p_PresetName = [], p_PresetVersion = 0, p_Input = demo_input\<rparr>"

definition demo_created :: db where
  "demo_created = snd (Create Works 10 0 demo_params (empty_db [1]))"

definition demo_active :: db where
  "demo_active = snd (MarkActive Works 20 5 demo_created)"

definition demo_finished :: db where
  "demo_finished = snd (MarkDone Works 30 5 demo_active)"

lemma demo_created_reachable: "sys_reachable \<lparr>sdb = demo_created, seen = []\<rparr>"
  using sys_reachable.step [OF sys_reachable.init [of "[1]"] sys_step.create [of _ Works 10 0 demo_params]]
  by (simp add: demo_created_def)

lemma demo_active_reachable: "sys_reachable \<lparr>sdb = demo_active, seen = []\<rparr>"
  using sys_reachable.step [OF demo_created_reachable sys_step.active [of _ Works 20 5]]
  by (simp add: demo_active_def)

lemma demo_finished_reachable: "sys_reachable \<lparr>sdb = demo_finished, seen = []\<rparr>"
  using sys_reachable.step [OF demo_active_reachable sys_step.finish [of _ Works 30 5]]
  by (simp add: demo_finished_def)

subsection \<open>Properties\<close>

text \<open>C8: In every state any interleaving of repository calls can reach, with calls lost before or
  after their commit, the events of a job form a chain of legal moves from creation to its
  current status; the row's attempt counter is the number of activations; it has a start time
  iff it was ever activated, a finish time iff it is done or failed, an error code iff it
  failed; and no job is active or done without having been activated.\<close>

theorem job_history_legal:
  assumes "sys_reachable s" and "find_job i (sdb s) = Some j"
  shows "chain None (history i (sdb s)) \<and> chain_end None (history i (sdb s)) = Some (status j)
    \<and> attempts j = activations (history i (sdb s))
    \<and> (started_at j = None \<longleftrightarrow> attempts j = 0)
    \<and> (finished_at j \<noteq> None \<longleftrightarrow> status j \<in> {StatusDone, StatusFailed})
    \<and> (error_code j \<noteq> None \<longleftrightarrow> status j = StatusFailed)
    \<and> (status j \<in> {StatusActive, StatusDone} \<longrightarrow> attempts j > 0)"
  using sys_reachable_ok [OF assms(1)] find_job_SomeD [OF assms(2)]
  by (auto simp: sys_ok_def db_ok_def row_ok_def)

theorem job_history_legal_witness:
  "\<exists>j. find_job 5 demo_finished = Some j \<and> status j = ''done''
     \<and> chain None (history 5 demo_finished) \<and> attempts j = 1"
proof -
  obtain j where j: "find_job 5 demo_finished = Some j" "status j = ''done''" "attempts j = 1"
    by (simp add: demo_finished_def demo_active_def demo_created_def empty_db_def demo_params_def
        Create_def MarkActive_def MarkDone_def transition_def begin_func_def find_job_def
        update_job_def insert_event_def new_job_def operation_check_def engine_check_def status_defs)
  with job_history_legal [OF demo_finished_reachable, of 5 j] show ?thesis by simp
qed

text \<open>C9: A done or failed job is final: no sequence of repository calls by any processes changes
  any column of its row.\<close>

theorem terminal_row_frozen:
  assumes "sys_step\<^sup>*\<^sup>* s t" and "find_job i (sdb s) = Some j" and "terminal (status j)"
  shows "find_job i (sdb t) = Some j"
  using assms(1)
proof (induction rule: rtranclp_induct)
  case base
  show ?case by (rule assms(2))
next
  case (step y z)
  with assms(3) show ?case by (blast intro: seen_stays sys_step_keeps_rows)
qed

definition finished_job :: job_row where
  "finished_job = (new_job 10 5 demo_params)\<lparr>status := StatusDone, started_at := Some 20,
     finished_at := Some 30, attempts := 1\<rparr>"

lemma find_demo_finished: "find_job 5 demo_finished = Some finished_job"
  by (simp add: demo_finished_def demo_active_def demo_created_def empty_db_def demo_params_def
      Create_def MarkActive_def MarkDone_def transition_def begin_func_def find_job_def
      update_job_def insert_event_def new_job_def operation_check_def engine_check_def status_defs
      finished_job_def)

theorem terminal_row_frozen_witness:
  "find_job 5 (snd (RequeueStale Works 40 5 ''stale_active'' demo_finished)) = Some finished_job"
proof -
  let ?s = "\<lparr>sdb = demo_finished, seen = []\<rparr>"
  have "sys_step\<^sup>*\<^sup>* ?s (?s\<lparr>sdb := snd (RequeueStale Works 40 5 ''stale_active'' (sdb ?s))\<rparr>)"
    by (rule r_into_rtranclp) (rule sys_step.requeue)
  from terminal_row_frozen [OF this, of 5 finished_job] show ?thesis
    by (simp add: find_demo_finished finished_job_def terminal_def)
qed

text \<open>The start time stays pinned to the first activation, and the creation time, engine and
  callback URL never change, whatever retries and recoveries follow: staleness is measured from
  fixed points.\<close>

theorem started_at_pinned:
  assumes "sys_step\<^sup>*\<^sup>* s t" and "find_job i (sdb s) = Some j" and "started_at j = Some t0"
  shows "\<exists>j'. find_job i (sdb t) = Some j' \<and> started_at j' = Some t0
    \<and> created_at j' = created_at j \<and> engine j' = engine j \<and> callback_url j' = callback_url j"
proof -
  from assms(1) have "keeps_rows (sdb s) (sdb t)"
    by (induction rule: rtranclp_induct) (auto intro: keeps_rows_trans sys_step_keeps_rows)
  with assms(2,3) show ?thesis by (fastforce simp: keeps_rows_def row_frame_def)
qed

theorem started_at_pinned_witness:
  "\<exists>j'. find_job 5 (snd (MarkActive Works 99 5 demo_active)) = Some j' \<and> started_at j' = Some 20"
proof -
  let ?s = "\<lparr>sdb = demo_active, seen = []\<rparr>"
  have step: "sys_step\<^sup>*\<^sup>* ?s (?s\<lparr>sdb := snd (MarkActive Works 99 5 (sdb ?s))\<rparr>)"
    by (rule r_into_rtranclp) (rule sys_step.active)
  obtain j where "find_job 5 demo_active = Some j" "started_at j = Some 20"
    by (simp add: demo_active_def demo_created_def empty_db_def demo_params_def
        Create_def MarkActive_def transition_def begin_func_def find_job_def
        update_job_def insert_event_def new_job_def operation_check_def engine_check_def status_defs)
  with started_at_pinned [OF step, of 5 j 20] show ?thesis by auto
qed

text \<open>Outcome of a guarded transition: over a working connection it succeeds exactly when the
  row exists in an allowed status and then logs exactly one event from that status; a missing
  row and a disallowed status give their errors; and every error except a connection lost after
  the commit leaves the database untouched.\<close>

theorem transition_outcome:
  "fst (transition Works now i to allowed dt f d) =
     (case find_job i d of
        None \<Rightarrow> Inl ErrNotFound
      | Some j \<Rightarrow> if status j \<in> set allowed then Inr () else Inl (IllegalTransition (status j) to))
   \<and> (\<forall>j. find_job i d = Some j \<and> status j \<in> set allowed \<longrightarrow>
        history i (snd (transition Works now i to allowed dt f d)) = history i d @
          [\<lparr>ev_job = i, from_status = Some (status j), to_status = to, ev_detail = dt, ev_at = now\<rparr>])
   \<and> (\<forall>n e. fst (transition n now i to allowed dt f d) = Inl e \<and> n \<noteq> LostAfter \<longrightarrow>
        snd (transition n now i to allowed dt f d) = d)"
  by (auto simp: transition_def begin_func_def history_insert split: option.splits net.splits)

theorem transition_outcome_witness:
  "fst (MarkDone Works 30 5 demo_created) = Inl (IllegalTransition ''queued'' ''done'')"
proof -
  have "find_job 5 demo_created = Some (new_job 10 5 demo_params)"
    by (simp add: demo_created_def empty_db_def demo_params_def Create_def begin_func_def find_job_def
        insert_event_def new_job_def operation_check_def engine_check_def)
  with transition_outcome [of 30 5 StatusDone "[StatusActive]" None
      "\<lambda>j. j\<lparr>status := StatusDone, finished_at := Some 30\<rparr>" demo_created]
  show ?thesis by (simp add: MarkDone_def new_job_def status_defs)
qed

text \<open>Recovery accounting is exact: requeueing a stale job adds one counted recovery to that
  job and no other, precisely when the transaction committed on a queued or active row.\<close>

theorem requeue_counts_once:
  "recoveries k (snd (RequeueStale n now i r d)) =
     recoveries k d +
     (if k = i \<and> n \<noteq> LostBefore
         \<and> (\<exists>j. find_job i d = Some j \<and> status j \<in> {StatusQueued, StatusActive}) then 1 else 0)"
  by (rule recoveries_requeue)

lemma Create_row:
  assumes "Create n now fresh p d = (Inr i, d')"
  shows "n = Works \<and> i = (if p_ID p = 0 then fresh else p_ID p) \<and> find_job i d = None
    \<and> find_job i d' = Some (new_job now i p) \<and> inputs_tbl d' = inputs_tbl d @ [(p_Input p)\<lparr>f_job := i\<rparr>]"
proof -
  from assms have n: "n = Works" and none: "find_job i d = None" and i: "i = (if p_ID p = 0 then fresh else p_ID p)"
    and d': "jobs_tbl d' = jobs_tbl d @ [new_job now i p]"
      "inputs_tbl d' = inputs_tbl d @ [(p_Input p)\<lparr>f_job := i\<rparr>]"
    by (auto simp: Create_def Let_def begin_func_def insert_event_def split: if_splits net.splits)
  from none d' have "find_job i d' = Some (new_job now i p)"
    by (simp add: find_job_def find_append new_job_def)
  with n none i d' show ?thesis by blast
qed

text \<open>What was created is read back: after a successful creation the job is found, owned by
  its client, queued, with the given formats, engine, callback URL and options, and its input
  row is the one given.\<close>

theorem create_get_roundtrip:
  assumes "Create Works now fresh p d = (Inr i, d')"
    and "i \<notin> f_job ` set (inputs_tbl d)"
  shows "(\<exists>job. Get Works i d' = Inr job \<and> ID job = i \<and> ClientID job = p_ClientID p
      \<and> Engine job = p_Engine p \<and> Status job = StatusQueued \<and> SourceFormat job = p_SourceFormat p
      \<and> TargetFormat job = p_TargetFormat p \<and> CallbackURL job = p_CallbackURL p
      \<and> Opts job = (case p_Opts p of Some m \<Rightarrow> m | None \<Rightarrow> []))
    \<and> Inputs Works i d' = Inr [(p_Input p)\<lparr>f_job := i\<rparr>]"
proof -
  have "filter (\<lambda>f. f_job f = i) (inputs_tbl d) = []"
    using assms(2) by (auto simp: filter_empty_conv)
  moreover have "find_job i d' = Some (new_job now i p)" "inputs_tbl d' = inputs_tbl d @ [(p_Input p)\<lparr>f_job := i\<rparr>]"
    using Create_row [OF assms(1)] by blast+
  ultimately show ?thesis
    by (simp add: Get_def Inputs_def query_def job_of_row_def new_job_def deref_def)
qed

theorem create_get_roundtrip_witness:
  "\<exists>job. Get Works 5 demo_created = Inr job \<and> ClientID job = 1 \<and> TargetFormat job = ''jpg''"
proof -
  have c: "Create Works 10 0 demo_params (empty_db [1]) = (Inr 5, demo_created)"
    by (simp add: demo_created_def empty_db_def demo_params_def Create_def begin_func_def find_job_def
        insert_event_def operation_check_def engine_check_def)
  from create_get_roundtrip [OF c] show ?thesis
    by (auto simp: empty_db_def demo_params_def)
qed

end
