(* ===== verification/Opts.thy ===== *)
theory Opts
  imports Formats Jobs
begin

text \<open>
  The closed option sets of \<open>internal/convert\<close> (\<open>opts.go\<close>, \<open>htmlopts.go\<close>, \<open>audioopts.go\<close>,
  \<open>avopts.go\<close>): strict parsing, applicability, normalization for storage and the print style sheet.
  The input bytes are the JSON document they hold, with its keys in order and duplicates kept;
  \<open>encoding/json\<close> is modelled as far as the parsers use it, including its case-insensitive
  matching of field names. A \<open>float64\<close> is the rational number it was written as.
\<close>

subsection \<open>Strict decoding\<close>

datatype json_doc = Malformed | Doc json bool

datatype opts_error =
    BadJSON
  | NotObject
  | DuplicateKey
  | TrailingData
  | UnknownField
  | BadType
  | Unsupported

text \<open>The flag of a document says whether other data follows the first value.\<close>

definition checkStrictObject :: "json_doc \<Rightarrow> opts_error + (string \<times> json) list" where
  "checkStrictObject raw =
     (case raw of
        Malformed \<Rightarrow> Inl BadJSON
      | Doc v trailing \<Rightarrow>
          (case v of
             JsonObj kvs \<Rightarrow>
               if \<not> distinct (map fst kvs) then Inl DuplicateKey
               else if trailing then Inl TrailingData else Inr kvs
           | _ \<Rightarrow> Inl NotObject))"

type_synonym 'o setter = "json \<Rightarrow> 'o \<Rightarrow> 'o option"

definition find_field :: "(string \<times> 'o setter) list \<Rightarrow> string \<Rightarrow> 'o setter option" where
  "find_field flds k =
     (case map_of flds k of
        Some s \<Rightarrow> Some s
      | None \<Rightarrow> map_option snd (find (\<lambda>f. ToLower (fst f) = ToLower k) flds))"

text \<open>\<open>Decode\<close> with \<open>DisallowUnknownFields\<close>: the fields of the object in order.\<close>

primrec decode_fields ::
  "(string \<times> 'o setter) list \<Rightarrow> (string \<times> json) list \<Rightarrow> 'o \<Rightarrow> opts_error + 'o" where
  "decode_fields flds [] o0 = Inr o0"
| "decode_fields flds (kv # kvs) o0 =
     (case find_field flds (fst kv) of
        None \<Rightarrow> Inl UnknownField
      | Some s \<Rightarrow> (case s (snd kv) o0 of None \<Rightarrow> Inl BadType | Some o1 \<Rightarrow> decode_fields flds kvs o1))"

definition set_string :: "(string \<Rightarrow> 'o \<Rightarrow> 'o) \<Rightarrow> 'o setter" where
  "set_string upd v o0 = (case v of JsonStr s \<Rightarrow> Some (upd s o0) | JsonNull \<Rightarrow> Some o0 | _ \<Rightarrow> None)"

definition set_bool :: "(bool \<Rightarrow> 'o \<Rightarrow> 'o) \<Rightarrow> 'o setter" where
  "set_bool upd v o0 = (case v of JsonBool b \<Rightarrow> Some (upd b o0) | JsonNull \<Rightarrow> Some o0 | _ \<Rightarrow> None)"

definition int64 :: "int \<Rightarrow> bool" where
  "int64 n \<longleftrightarrow> - (2 ^ 63) \<le> n \<and> n < 2 ^ 63"

definition set_int :: "(int \<Rightarrow> 'o \<Rightarrow> 'o) \<Rightarrow> 'o setter" where
  "set_int upd v o0 =
     (case v of JsonNum n \<Rightarrow> if int64 n then Some (upd n o0) else None | JsonNull \<Rightarrow> Some o0 | _ \<Rightarrow> None)"

definition set_int_ptr :: "(int option \<Rightarrow> 'o \<Rightarrow> 'o) \<Rightarrow> 'o setter" where
  "set_int_ptr upd v o0 =
     (case v of JsonNum n \<Rightarrow> if int64 n then Some (upd (Some n) o0) else None
      | JsonNull \<Rightarrow> Some (upd None o0) | _ \<Rightarrow> None)"

definition set_float_ptr :: "(rat option \<Rightarrow> 'o \<Rightarrow> 'o) \<Rightarrow> 'o setter" where
  "set_float_ptr upd v o0 =
     (case v of JsonNum n \<Rightarrow> Some (upd (Some (of_int n)) o0) | JsonFrac q \<Rightarrow> Some (upd (Some q) o0)
      | JsonNull \<Rightarrow> Some (upd None o0) | _ \<Rightarrow> None)"

lemmas setter_defs = set_string_def set_bool_def set_int_def set_int_ptr_def set_float_ptr_def

text \<open>A number as \<open>json.Marshal\<close> writes it: without a fraction when it has none.\<close>

definition json_number :: "rat \<Rightarrow> json" where
  "json_number q = (if q = of_int \<lfloor>q\<rfloor> then JsonNum \<lfloor>q\<rfloor> else JsonFrac q)"

text \<open>\<open>json.Marshal\<close> of a map writes its keys in sorted order.\<close>

definition marshal_map :: "opts \<Rightarrow> json_doc" where
  "marshal_map m = Doc (JsonObj (sort_key fst m)) False"

subsection \<open>Document options\<close>

record DocOpts =
  PDFProfile :: string

definition pdfProfileA2b :: string where "pdfProfileA2b = ''pdf/a-2b''"

definition pdfaFilterOptionsSuffix :: string where
  "pdfaFilterOptionsSuffix = ''{\"SelectPdfVersion\":{\"type\":\"long\",\"value\":\"2\"},\"EmbedStandardFonts\":{\"type\":\"boolean\",\"value\":true}}''"

definition doc_fields :: "(string \<times> DocOpts setter) list" where
  "doc_fields = [(''pdf_profile'', set_string (\<lambda>s o0. o0\<lparr>PDFProfile := s\<rparr>))]"

definition zero_DocOpts :: DocOpts where "zero_DocOpts = \<lparr>PDFProfile = []\<rparr>"

definition ParseDocOpts :: "json_doc \<Rightarrow> opts_error + DocOpts" where
  "ParseDocOpts raw =
     (case checkStrictObject raw of
        Inl e \<Rightarrow> Inl e
      | Inr kvs \<Rightarrow>
          (case decode_fields doc_fields kvs zero_DocOpts of
             Inl e \<Rightarrow> Inl e
           | Inr opt \<Rightarrow> if PDFProfile opt \<noteq> [] \<and> PDFProfile opt \<noteq> pdfProfileA2b then Inl Unsupported else Inr opt))"

definition DocOptsFromMap :: "opts \<Rightarrow> opts_error + DocOpts" where
  "DocOptsFromMap m = (if m = [] then Inr zero_DocOpts else ParseDocOpts (marshal_map m))"

definition ValidateApplicability :: "string \<Rightarrow> string \<Rightarrow> string \<Rightarrow> DocOpts \<Rightarrow> string option" where
  "ValidateApplicability eng source target opt =
     (if PDFProfile opt = [] then None
      else if eng \<noteq> EngineDocument \<or> NormalizeFormat target \<noteq> ''pdf''
      then Some ''pdf_profile is only valid for document -> pdf conversions'' else None)"

definition PDFAFilterOptions :: "DocOpts \<Rightarrow> string \<times> bool" where
  "PDFAFilterOptions opt =
     (if PDFProfile opt \<noteq> pdfProfileA2b then ([], False) else (pdfaFilterOptionsSuffix, True))"

definition doc_map :: "DocOpts \<Rightarrow> opts" where
  "doc_map opt = (if PDFProfile opt \<noteq> [] then [(''pdf_profile'', JsonStr (PDFProfile opt))] else [])"

subsection \<open>Print options\<close>

record HTMLOpts =
  PageSize :: string
  MarginMM :: "int option"
  Landscape :: bool
  PrintBackground :: bool

definition htmlPageSizeCSS :: "(string \<times> string) list" where
  "htmlPageSizeCSS = [(''a4'', ''A4''), (''letter'', ''letter''), (''legal'', ''legal''), (''a3'', ''A3''),
     (''a5'', ''A5'')]"

definition htmlMarginMMMin :: int where "htmlMarginMMMin = 0"
definition htmlMarginMMMax :: int where "htmlMarginMMMax = 50"

definition html_fields :: "(string \<times> HTMLOpts setter) list" where
  "html_fields =
     [(''page_size'', set_string (\<lambda>s o0. o0\<lparr>PageSize := s\<rparr>)),
      (''margin_mm'', set_int_ptr (\<lambda>n o0. o0\<lparr>MarginMM := n\<rparr>)),
      (''landscape'', set_bool (\<lambda>b o0. o0\<lparr>Landscape := b\<rparr>)),
      (''print_background'', set_bool (\<lambda>b o0. o0\<lparr>PrintBackground := b\<rparr>))]"

definition zero_HTMLOpts :: HTMLOpts where
  "zero_HTMLOpts = \<lparr>PageSize = [], MarginMM = None, Landscape = False, PrintBackground = False\<rparr>"

definition ParseHTMLOpts :: "json_doc \<Rightarrow> opts_error + HTMLOpts" where
  "ParseHTMLOpts raw =
     (case checkStrictObject raw of
        Inl e \<Rightarrow> Inl e
      | Inr kvs \<Rightarrow>
          (case decode_fields html_fields kvs zero_HTMLOpts of
             Inl e \<Rightarrow> Inl e
           | Inr opt \<Rightarrow>
               if PageSize opt \<noteq> [] \<and> map_of htmlPageSizeCSS (PageSize opt) = None then Inl Unsupported
               else if (case MarginMM opt of None \<Rightarrow> False
                        | Some mm \<Rightarrow> mm < htmlMarginMMMin \<or> mm > htmlMarginMMMax) then Inl Unsupported
               else Inr opt))"

definition HTMLOptsFromMap :: "opts \<Rightarrow> opts_error + HTMLOpts" where
  "HTMLOptsFromMap m = (if m = [] then Inr zero_HTMLOpts else ParseHTMLOpts (marshal_map m))"

definition isZeroHTMLOpts :: "HTMLOpts \<Rightarrow> bool" where
  "isZeroHTMLOpts opt \<longleftrightarrow> opt = zero_HTMLOpts"

definition ValidateHTMLApplicability :: "string \<Rightarrow> string \<Rightarrow> string \<Rightarrow> HTMLOpts \<Rightarrow> string option" where
  "ValidateHTMLApplicability eng source target opt =
     (if isZeroHTMLOpts opt then None
      else if eng \<noteq> EngineHTML \<or> NormalizeFormat target \<noteq> ''pdf''
      then Some ''html print options are only valid for html -> pdf conversions'' else None)"

definition html_map :: "HTMLOpts \<Rightarrow> opts" where
  "html_map opt =
     (if PageSize opt \<noteq> [] then [(''page_size'', JsonStr (PageSize opt))] else [])
     @ (case MarginMM opt of None \<Rightarrow> [] | Some n \<Rightarrow> [(''margin_mm'', JsonNum n)])
     @ (if Landscape opt then [(''landscape'', JsonBool True)] else [])
     @ (if PrintBackground opt then [(''print_background'', JsonBool True)] else [])"

fun nat_digits :: "nat \<Rightarrow> string" where
  "nat_digits n = (if n < 10 then [char_of (48 + n)] else nat_digits (n div 10) @ [char_of (48 + n mod 10)])"

declare nat_digits.simps [simp del]

definition itoa :: "int \<Rightarrow> string" where
  "itoa n = (if n < 0 then CHR ''-'' # nat_digits (nat (- n)) else nat_digits (nat n))"

definition newline :: string where "newline = [CHR 0x0A]"

definition buildPrintCSS :: "HTMLOpts \<Rightarrow> string" where
  "buildPrintCSS opt =
     (let size0 = (case map_of htmlPageSizeCSS (PageSize opt) of Some s \<Rightarrow> s | None \<Rightarrow> []);
          size1 = (if size0 = [] then ''A4'' else size0);
          size2 = (if Landscape opt then size1 @ '' landscape'' else size1);
          css1 = (case MarginMM opt of
              Some mm \<Rightarrow> ''@page { size: '' @ size2 @ '' !important; margin: '' @ itoa mm @ ''mm !important; }'' @ newline
            | None \<Rightarrow> ''@page { size: '' @ size2 @ '' !important; }'' @ newline);
          css2 = (if PrintBackground opt
            then ''*, *::before, *::after { -webkit-print-color-adjust: exact !important; print-color-adjust: exact !important; }'' @ newline
            else ''*, *::before, *::after { -webkit-print-color-adjust: economy !important; print-color-adjust: economy !important; ''
              @ ''background: none !important; background-color: transparent !important; background-image: none !important; }'' @ newline)
      in ''<style>'' @ (css1 @ css2) @ ''</style>'')"

subsection \<open>Transcription options\<close>

record AudioOpts =
  Language :: string
  Translate :: bool

definition audioLanguageAllowlist :: "string list" where
  "audioLanguageAllowlist = [''auto'', ''en'', ''ru'', ''es'', ''fr'', ''de'']"

definition audio_fields :: "(string \<times> AudioOpts setter) list" where
  "audio_fields =
     [(''language'', set_string (\<lambda>s o0. o0\<lparr>Language := s\<rparr>)),
      (''translate'', set_bool (\<lambda>b o0. o0\<lparr>Translate := b\<rparr>))]"

definition zero_AudioOpts :: AudioOpts where "zero_AudioOpts = \<lparr>Language = [], Translate = False\<rparr>"

definition ParseAudioOpts :: "json_doc \<Rightarrow> opts_error + AudioOpts" where
  "ParseAudioOpts raw =
     (case checkStrictObject raw of
        Inl e \<Rightarrow> Inl e
      | Inr kvs \<Rightarrow>
          (case decode_fields audio_fields kvs zero_AudioOpts of
             Inl e \<Rightarrow> Inl e
           | Inr opt \<Rightarrow> if Language opt \<noteq> [] \<and> Language opt \<notin> set audioLanguageAllowlist then Inl Unsupported
                      else Inr opt))"

definition AudioOptsFromMap :: "opts \<Rightarrow> opts_error + AudioOpts" where
  "AudioOptsFromMap m = (if m = [] then Inr zero_AudioOpts else ParseAudioOpts (marshal_map m))"

definition isZeroAudioOpts :: "AudioOpts \<Rightarrow> bool" where
  "isZeroAudioOpts opt \<longleftrightarrow> opt = zero_AudioOpts"

definition ValidateAudioApplicability :: "string \<Rightarrow> string \<Rightarrow> string \<Rightarrow> AudioOpts \<Rightarrow> string option" where
  "ValidateAudioApplicability eng source target opt =
     (if isZeroAudioOpts opt then None
      else if eng \<noteq> EngineAudio
      then Some ''audio transcription options are only valid for audio-engine conversions'' else None)"

definition audio_map :: "AudioOpts \<Rightarrow> opts" where
  "audio_map opt =
     (if Language opt \<noteq> [] then [(''language'', JsonStr (Language opt))] else [])
     @ (if Translate opt then [(''translate'', JsonBool True)] else [])"

subsection \<open>Video options\<close>

record AVOpts =
  Timecode :: "rat option"
  ResolutionHeight :: int
  Codec :: string

definition avResolutionHeights :: "int list" where "avResolutionHeights = [480, 720, 1080]"
definition avCodecAllowlist :: "string list" where "avCodecAllowlist = [''h264'', ''hevc'']"
definition avThumbnailTargets :: "string list" where "avThumbnailTargets = [''jpg'', ''png'', ''webp'']"
definition avTranscodeTargets :: "string list" where "avTranscodeTargets = [''mp4'', ''webm'']"

definition av_fields :: "(string \<times> AVOpts setter) list" where
  "av_fields =
     [(''timecode'', set_float_ptr (\<lambda>q o0. o0\<lparr>Timecode := q\<rparr>)),
      (''resolution_height'', set_int (\<lambda>n o0. o0\<lparr>ResolutionHeight := n\<rparr>)),
      (''codec'', set_string (\<lambda>s o0. o0\<lparr>Codec := s\<rparr>))]"

definition zero_AVOpts :: AVOpts where
  "zero_AVOpts = \<lparr>Timecode = None, ResolutionHeight = 0, Codec = []\<rparr>"

definition ParseAVOpts :: "json_doc \<Rightarrow> opts_error + AVOpts" where
  "ParseAVOpts raw =
     (case checkStrictObject raw of
        Inl e \<Rightarrow> Inl e
      | Inr kvs \<Rightarrow>
          (case decode_fields av_fields kvs zero_AVOpts of
             Inl e \<Rightarrow> Inl e
           | Inr opt \<Rightarrow>
               if (case Timecode opt of None \<Rightarrow> False | Some q \<Rightarrow> q < 0) then Inl Unsupported
               else if ResolutionHeight opt \<noteq> 0 \<and> ResolutionHeight opt \<notin> set avResolutionHeights then Inl Unsupported
               else if Codec opt \<noteq> [] \<and> Codec opt \<notin> set avCodecAllowlist then Inl Unsupported
               else Inr opt))"

definition AVOptsFromMap :: "opts \<Rightarrow> opts_error + AVOpts" where
  "AVOptsFromMap m = (if m = [] then Inr zero_AVOpts else ParseAVOpts (marshal_map m))"

definition isZeroAVOpts :: "AVOpts \<Rightarrow> bool" where
  "isZeroAVOpts opt \<longleftrightarrow> Timecode opt = None \<and> ResolutionHeight opt = 0 \<and> Codec opt = []"

definition ValidateAVApplicability :: "string \<Rightarrow> string \<Rightarrow> string \<Rightarrow> AVOpts \<Rightarrow> string option" where
  "ValidateAVApplicability eng source target opt =
     (if isZeroAVOpts opt then None
      else if eng \<noteq> EngineAV then Some ''av options are only valid for av-engine conversions''
      else let normTarget = NormalizeFormat target in
        if Timecode opt \<noteq> None \<and> normTarget \<notin> set avThumbnailTargets
        then Some ''timecode is only valid for thumbnail targets''
        else if ResolutionHeight opt \<noteq> 0 \<and> normTarget \<notin> set avTranscodeTargets
        then Some ''resolution_height is only valid for transcode targets''
        else if Codec opt = ''hevc'' \<and> normTarget \<noteq> ''mp4''
        then Some ''codec hevc is only valid for mp4 targets'' else None)"

definition av_map :: "AVOpts \<Rightarrow> opts" where
  "av_map opt =
     (case Timecode opt of None \<Rightarrow> [] | Some q \<Rightarrow> [(''timecode'', json_number q)])
     @ (if ResolutionHeight opt \<noteq> 0 then [(''resolution_height'', JsonNum (ResolutionHeight opt))] else [])
     @ (if Codec opt \<noteq> [] then [(''codec'', JsonStr (Codec opt))] else [])"

subsection \<open>What parsing guarantees\<close>

lemma sorted_keys:
  "''landscape'' \<le> ''margin_mm''" "''landscape'' \<le> ''page_size''" "''landscape'' \<le> ''print_background''"
  "''margin_mm'' \<le> ''page_size''" "''margin_mm'' \<le> ''print_background''" "''page_size'' \<le> ''print_background''"
  "''language'' \<le> ''translate''" "''codec'' \<le> ''resolution_height''" "''codec'' \<le> ''timecode''"
  "''resolution_height'' \<le> ''timecode''"
  by (simp_all add: less_char_def)

lemma unsorted_keys:
  "\<not> ''margin_mm'' \<le> ''landscape''" "\<not> ''page_size'' \<le> ''landscape''" "\<not> ''print_background'' \<le> ''landscape''"
  "\<not> ''page_size'' \<le> ''margin_mm''" "\<not> ''print_background'' \<le> ''margin_mm''" "\<not> ''print_background'' \<le> ''page_size''"
  "\<not> ''translate'' \<le> ''language''" "\<not> ''resolution_height'' \<le> ''codec''" "\<not> ''timecode'' \<le> ''codec''"
  "\<not> ''timecode'' \<le> ''resolution_height''"
  by (simp_all add: less_char_def)

lemmas key_order = sorted_keys unsorted_keys

lemma ParseDocOpts_sound: "ParseDocOpts raw = Inr opt \<Longrightarrow> PDFProfile opt \<in> {[], pdfProfileA2b}"
  by (auto simp: ParseDocOpts_def split: sum.splits if_splits)

lemma ParseHTMLOpts_sound:
  "ParseHTMLOpts raw = Inr opt \<Longrightarrow> (PageSize opt = [] \<or> PageSize opt \<in> fst ` set htmlPageSizeCSS)
     \<and> (\<forall>n. MarginMM opt = Some n \<longrightarrow> 0 \<le> n \<and> n \<le> 50)"
  by (auto simp: ParseHTMLOpts_def htmlMarginMMMin_def htmlMarginMMMax_def map_of_eq_None_iff
      split: sum.splits if_splits option.splits)

lemma ParseAudioOpts_sound:
  "ParseAudioOpts raw = Inr opt \<Longrightarrow> Language opt = [] \<or> Language opt \<in> set audioLanguageAllowlist"
  by (auto simp: ParseAudioOpts_def split: sum.splits if_splits)

lemma ParseAVOpts_sound:
  "ParseAVOpts raw = Inr opt \<Longrightarrow> (\<forall>q. Timecode opt = Some q \<longrightarrow> 0 \<le> q)
     \<and> (ResolutionHeight opt = 0 \<or> ResolutionHeight opt \<in> set avResolutionHeights)
     \<and> (Codec opt = [] \<or> Codec opt \<in> set avCodecAllowlist)"
  by (auto simp: ParseAVOpts_def split: sum.splits if_splits option.splits)

text \<open>Reading back what was stored.\<close>

lemmas decode_simps = marshal_map_def checkStrictObject_def find_field_def setter_defs int64_def

lemma DocOpts_reparse:
  assumes "PDFProfile opt \<in> {[], pdfProfileA2b}"
  shows "DocOptsFromMap (doc_map opt) = Inr opt"
  using assms
  by (cases opt) (auto simp: DocOptsFromMap_def doc_map_def ParseDocOpts_def decode_simps doc_fields_def
      zero_DocOpts_def pdfProfileA2b_def)

lemma AudioOpts_reparse:
  assumes "Language opt = [] \<or> Language opt \<in> set audioLanguageAllowlist"
  shows "AudioOptsFromMap (audio_map opt) = Inr opt"
  using assms
  by (cases opt) (auto simp: AudioOptsFromMap_def audio_map_def ParseAudioOpts_def decode_simps audio_fields_def
      zero_AudioOpts_def key_order)

lemma HTMLOpts_reparse:
  assumes "PageSize opt = [] \<or> PageSize opt \<in> fst ` set htmlPageSizeCSS"
    and "\<And>n. MarginMM opt = Some n \<Longrightarrow> 0 \<le> n \<and> n \<le> 50"
  shows "HTMLOptsFromMap (html_map opt) = Inr opt"
proof -
  have page: "PageSize opt \<noteq> [] \<Longrightarrow> map_of htmlPageSizeCSS (PageSize opt) \<noteq> None"
    using assms(1) by (auto simp: map_of_eq_None_iff)
  show ?thesis
    using page assms(2)
    by (cases opt; cases "MarginMM opt"; cases "Landscape opt"; cases "PrintBackground opt"; cases "PageSize opt = []")
      (simp_all add: HTMLOptsFromMap_def html_map_def ParseHTMLOpts_def decode_simps html_fields_def
        zero_HTMLOpts_def key_order htmlMarginMMMin_def htmlMarginMMMax_def)
qed

lemma json_number_float: "set_float_ptr upd (json_number q) o0 = Some (upd (Some q) o0)"
  by (simp add: set_float_ptr_def json_number_def)

lemma AVOpts_reparse:
  assumes "\<And>q. Timecode opt = Some q \<Longrightarrow> 0 \<le> q"
    and "ResolutionHeight opt = 0 \<or> ResolutionHeight opt \<in> set avResolutionHeights"
    and "Codec opt = [] \<or> Codec opt \<in> set avCodecAllowlist"
  shows "AVOptsFromMap (av_map opt) = Inr opt"
proof -
  have h: "int64 (ResolutionHeight opt)"
    using assms(2) by (auto simp: avResolutionHeights_def int64_def)
  show ?thesis
    using assms h
    by (cases opt; cases "Timecode opt"; cases "ResolutionHeight opt = 0"; cases "Codec opt = []")
      (auto simp: AVOptsFromMap_def av_map_def ParseAVOpts_def marshal_map_def checkStrictObject_def
        find_field_def set_string_def set_int_def json_number_float av_fields_def zero_AVOpts_def key_order)
qed

lemma stored_opts_reparse:
  "ParseDocOpts raw = Inr d \<Longrightarrow> DocOptsFromMap (doc_map d) = Inr d"
  "ParseHTMLOpts raw = Inr h \<Longrightarrow> HTMLOptsFromMap (html_map h) = Inr h"
  "ParseAudioOpts raw = Inr a \<Longrightarrow> AudioOptsFromMap (audio_map a) = Inr a"
  "ParseAVOpts raw = Inr v \<Longrightarrow> AVOptsFromMap (av_map v) = Inr v"
  using ParseDocOpts_sound [of raw d] DocOpts_reparse [of d] ParseHTMLOpts_sound [of raw h] HTMLOpts_reparse [of h]
    ParseAudioOpts_sound [of raw a] AudioOpts_reparse [of a] ParseAVOpts_sound [of raw v] AVOpts_reparse [of v]
  by blast+

text \<open>C40: Options survive storage: whatever option set the API accepted, the normalized map it stores
  is parsed by the worker to the same options, for all four option types, so a stored job never
  fails with invalid options.\<close>

theorem opts_storage_roundtrip:
  "(ParseDocOpts raw = Inr d \<longrightarrow> DocOptsFromMap (doc_map d) = Inr d)
   \<and> (ParseHTMLOpts raw = Inr h \<longrightarrow> HTMLOptsFromMap (html_map h) = Inr h)
   \<and> (ParseAudioOpts raw = Inr a \<longrightarrow> AudioOptsFromMap (audio_map a) = Inr a)
   \<and> (ParseAVOpts raw = Inr v \<longrightarrow> AVOptsFromMap (av_map v) = Inr v)"
  by (simp add: stored_opts_reparse)

theorem opts_storage_roundtrip_witness:
  "HTMLOptsFromMap (html_map \<lparr>PageSize = ''a5'', MarginMM = Some 0, Landscape = True, PrintBackground = False\<rparr>)
     = Inr \<lparr>PageSize = ''a5'', MarginMM = Some 0, Landscape = True, PrintBackground = False\<rparr>"
proof -
  have "ParseHTMLOpts (Doc (JsonObj [(''page_size'', JsonStr ''a5''), (''margin_mm'', JsonNum 0),
      (''landscape'', JsonBool True)]) False)
    = Inr \<lparr>PageSize = ''a5'', MarginMM = Some 0, Landscape = True, PrintBackground = False\<rparr>"
    by (simp add: ParseHTMLOpts_def decode_simps html_fields_def zero_HTMLOpts_def htmlPageSizeCSS_def
        htmlMarginMMMin_def htmlMarginMMMax_def)
  then show ?thesis using opts_storage_roundtrip by blast
qed

lemma digit_code: "k < 10 \<Longrightarrow> of_char (char_of (48 + k :: nat)) = 48 + k"
  by (simp add: of_char_of)

lemma digits_codes: "c \<in> set (nat_digits n) \<Longrightarrow> of_char c \<in> {48 :: nat..57}"
proof (induction n rule: nat_digits.induct)
  case (1 n)
  then show ?case
    using digit_code [of n] digit_code [of "n mod 10"]
    by (subst (asm) (2) nat_digits.simps) (auto split: if_splits)
qed

lemma digits_no_bracket: "CHR ''<'' \<notin> set (nat_digits n)"
  using digits_codes [of "CHR ''<''" n] by auto

lemma digits_no_slash: "CHR ''/'' \<notin> set (nat_digits n)"
  using digits_codes [of "CHR ''/''" n] by auto

text \<open>Print options cannot inject markup: the style sheet is
  one \<open>style\<close> element whose content has no angle bracket, so nothing of it can close the element.\<close>

theorem print_css_no_markup:
  "\<exists>css. buildPrintCSS opt = ''<style>'' @ css @ ''</style>'' \<and> CHR ''<'' \<notin> set css"
proof -
  have page: "CHR ''<'' \<notin> set s" if "map_of htmlPageSizeCSS (PageSize opt) = Some s" for s
    using map_of_SomeD [OF that] by (auto simp: htmlPageSizeCSS_def)
  have mm: "CHR ''<'' \<notin> set (itoa n)" if "MarginMM opt = Some n" for n
    using digits_no_bracket by (auto simp: itoa_def)
  show ?thesis
    unfolding buildPrintCSS_def Let_def
    by (rule exI, rule conjI, rule refl) (use page mm in \<open>auto simp: newline_def split: option.splits\<close>)
qed

text \<open>The duplicate-key check does not see keys that differ in case: the document with
  \<open>pdf_profile\<close> and \<open>PDF_PROFILE\<close> is accepted and its last value wins, since the decoder matches
  field names without regard to case.\<close>

theorem case_variant_duplicate_accepted:
  "ParseDocOpts (Doc (JsonObj [(''pdf_profile'', JsonStr ''pdf/a-2b''), (''PDF_PROFILE'', JsonStr [])]) False)
     = Inr \<lparr>PDFProfile = []\<rparr>
   \<and> ParseDocOpts (Doc (JsonObj [(''PDF_PROFILE'', JsonStr []), (''pdf_profile'', JsonStr ''pdf/a-2b'')]) False)
     = Inr \<lparr>PDFProfile = ''pdf/a-2b''\<rparr>"
proof -
  have "ToLower ''PDF_PROFILE'' = ToLower ''pdf_profile''" by code_simp
  then show ?thesis
    by (simp add: ParseDocOpts_def decode_simps doc_fields_def zero_DocOpts_def pdfProfileA2b_def)
qed

end
