(* ===== verification/Storage.thy ===== *)
theory Storage
  imports Opts
begin

text \<open>
  Object keys (\<open>internal/storage/keys.go\<close>) and the functions \<open>Base\<close> and \<open>Ext\<close> of the package
  \<open>path\<close> they and the upload handler use. The text of an identifier is the parameter \<open>us\<close>: what is
  used of it is that different identifiers have different texts and that it has no slash.
\<close>

definition path_Base :: "string \<Rightarrow> string" where
  "path_Base p =
     (if p = [] then ''.''
      else let stripped = rev (dropWhile (\<lambda>c. c = CHR ''/'') (rev p));
               last_elem = rev (takeWhile (\<lambda>c. c \<noteq> CHR ''/'') (rev stripped))
           in if last_elem = [] then ''/'' else last_elem)"

definition path_Ext :: "string \<Rightarrow> string" where
  "path_Ext p =
     (let t = takeWhile (\<lambda>c. c \<noteq> CHR ''/'' \<and> c \<noteq> CHR ''.'') (rev p)
      in case drop (length t) (rev p) of
           c # _ \<Rightarrow> if c = CHR ''.'' then CHR ''.'' # rev t else []
         | [] \<Rightarrow> [])"

definition InputKey :: "(uuid \<Rightarrow> string) \<Rightarrow> uuid \<Rightarrow> nat \<Rightarrow> string \<Rightarrow> string" where
  "InputKey us jobID ord file = ''uploads/'' @ us jobID @ ''/'' @ itoa (int ord) @ ''-'' @ path_Base file"

definition OutputKey :: "(uuid \<Rightarrow> string) \<Rightarrow> uuid \<Rightarrow> nat \<Rightarrow> string \<Rightarrow> string" where
  "OutputKey us jobID ord file = ''results/'' @ us jobID @ ''/'' @ itoa (int ord) @ ''-'' @ path_Base file"

lemma path_Base_no_slash: "path_Base p = ''/'' \<or> CHR ''/'' \<notin> set (path_Base p)"
  by (auto simp: path_Base_def Let_def dest: set_takeWhileD)

lemma path_Base_plain:
  assumes "q \<noteq> []" "CHR ''/'' \<notin> set q"
  shows "path_Base q = q"
proof -
  have dw: "dropWhile (\<lambda>c. c = CHR ''/'') (rev q) = rev q"
    using assms hd_in_set [of "rev q"] by (auto simp: dropWhile_eq_self_iff)
  have tw: "takeWhile (\<lambda>c. c \<noteq> CHR ''/'') (rev q) = rev q"
    using assms(2) by (auto simp: takeWhile_eq_all_conv)
  show ?thesis unfolding path_Base_def Let_def dw rev_rev_ident tw using assms(1) by simp
qed

lemma path_Base_idem: "path_Base p \<noteq> ''/'' \<Longrightarrow> path_Base (path_Base p) = path_Base p"
proof (rule path_Base_plain)
  show "path_Base p \<noteq> []" by (simp add: path_Base_def Let_def)
qed (use path_Base_no_slash in blast)

lemma split_at_slash:
  "CHR ''/'' \<notin> set a \<Longrightarrow> CHR ''/'' \<notin> set b \<Longrightarrow> a @ CHR ''/'' # x = b @ CHR ''/'' # y \<Longrightarrow> a = b \<and> x = y"
proof (induction a arbitrary: b)
  case Nil
  then show ?case by (cases b) auto
next
  case (Cons c a)
  then show ?case by (cases b) auto
qed

lemma path_Base_slash_iff: "path_Base p = ''/'' \<longleftrightarrow> p \<noteq> [] \<and> set p \<subseteq> {CHR ''/''}"
proof (cases "set p \<subseteq> {CHR ''/''}")
  case True
  then have "dropWhile (\<lambda>c. c = CHR ''/'') (rev p) = []"
    by (auto simp: dropWhile_eq_Nil_conv)
  then have "path_Base p = (if p = [] then ''.'' else ''/'')"
    unfolding path_Base_def Let_def by (simp only: rev.simps takeWhile.simps if_True HOL.simp_thms)
  with True show ?thesis by simp
next
  case False
  let ?s = "dropWhile (\<lambda>c. c = CHR ''/'') (rev p)"
  let ?t = "takeWhile (\<lambda>c. c \<noteq> CHR ''/'') (rev (rev ?s))"
  from False have ne: "?s \<noteq> []" by (auto simp: dropWhile_eq_Nil_conv)
  then have "hd ?s \<noteq> CHR ''/''" by (rule hd_dropWhile)
  with ne have t: "?t \<noteq> []" by (cases ?s) auto
  have "CHR ''/'' \<notin> set ?t" by (auto dest: set_takeWhileD)
  then have "rev ?t \<noteq> ''/''" by (metis list.set_intros(1) set_rev)
  moreover have "path_Base p = rev ?t"
    using False t unfolding path_Base_def Let_def by (metis empty_set empty_subsetI rev_is_Nil_conv)
  ultimately show ?thesis using False by simp
qed

lemma slashes_path_Base:
  "count_list (path_Base f) CHR ''/'' = (if f \<noteq> [] \<and> set f \<subseteq> {CHR ''/''} then 1 else 0)"
  using path_Base_no_slash [of f] path_Base_slash_iff [of f] by (auto simp: count_list_0_iff)

lemma slashes_itoa: "count_list (itoa n) CHR ''/'' = 0"
  using digits_no_slash by (auto simp: count_list_0_iff itoa_def)

text \<open>Objects of different jobs never collide: with injective, slash-free identifier texts, an upload
  key never equals a result key, and two keys of the same kind are equal only for the same job,
  whatever file names the clients chose. Nor can a file name open a directory below the job's own:
  a key has exactly two slashes, apart from a trailing third one when the name is all slashes.\<close>

theorem object_keys_isolated:
  assumes "inj us" and "\<And>i. CHR ''/'' \<notin> set (us i)"
  shows "InputKey us i a f \<noteq> OutputKey us j b g
    \<and> (InputKey us i a f = InputKey us j b g \<longrightarrow> i = j)
    \<and> (OutputKey us i a f = OutputKey us j b g \<longrightarrow> i = j)
    \<and> count_list (InputKey us i a f) CHR ''/'' = (if f \<noteq> [] \<and> set f \<subseteq> {CHR ''/''} then 3 else 2)
    \<and> count_list (OutputKey us i a f) CHR ''/'' = (if f \<noteq> [] \<and> set f \<subseteq> {CHR ''/''} then 3 else 2)"
proof -
  have same: "i = j" if "us i @ CHR ''/'' # x = us j @ CHR ''/'' # y" for x y
    using split_at_slash [OF assms(2) assms(2) that] injD [OF assms(1)] by blast
  have "count_list (us i) CHR ''/'' = 0"
    by (simp add: count_list_0_iff assms(2))
  with same show ?thesis
    by (auto simp: InputKey_def OutputKey_def count_list_append slashes_itoa slashes_path_Base)
qed

theorem object_keys_isolated_witness:
  "InputKey (\<lambda>i. replicate i CHR ''a'') 1 0 ''../x'' \<noteq> OutputKey (\<lambda>i. replicate i CHR ''a'') 2 0 ''out.pdf''
   \<and> count_list (InputKey (\<lambda>i. replicate i CHR ''a'') 1 0 ''../x'') CHR ''/'' = 2"
  using object_keys_isolated [of "\<lambda>i. replicate i CHR ''a''" 1 0 "''../x''" 2 0 "''out.pdf''"]
  by (auto simp: inj_def)

end
