(* ===== verification/Callback.thy ===== *)
theory Callback
  imports Formats "HOL-Library.Word"
begin

unbundle bit_operations_syntax

text \<open>
  The check of client-supplied callback addresses, \<open>internal/api/callbackurl.go\<close>. The predicates of
  \<open>net/netip\<close> are written out over 32-bit and 128-bit words; parsing a URL or an address and asking the
  resolver are the three functions of the record \<open>net_lib\<close>.
\<close>

subsection \<open>Addresses\<close>

text \<open>\<open>netip.Addr\<close>: an IPv4 address, or an IPv6 address with its zone.\<close>

datatype addr = V4 "32 word" | V6 "128 word" string

definition v4_byte :: "nat \<Rightarrow> 32 word \<Rightarrow> 32 word" where
  "v4_byte k a = drop_bit (24 - 8 * k) a AND 0xFF"

text \<open>An IPv4-mapped IPv6 address \<open>::ffff:a.b.c.d\<close> and its IPv4 form.\<close>

definition Is4In6 :: "128 word \<Rightarrow> bool" where
  "Is4In6 a \<longleftrightarrow> drop_bit 32 a = 0xFFFF"

fun Unmap :: "addr \<Rightarrow> addr" where
  "Unmap (V4 a) = V4 a"
| "Unmap (V6 a zone) = (if Is4In6 a then V4 (ucast a) else V6 a zone)"

definition IsLoopback :: "addr \<Rightarrow> bool" where
  "IsLoopback ip = (case Unmap ip of V4 a \<Rightarrow> v4_byte 0 a = 127 | V6 a _ \<Rightarrow> a = 1)"

definition IsPrivate :: "addr \<Rightarrow> bool" where
  "IsPrivate ip =
     (case Unmap ip of
        V4 a \<Rightarrow> v4_byte 0 a = 10
          \<or> (v4_byte 0 a = 172 \<and> v4_byte 1 a AND 0xF0 = 16)
          \<or> (v4_byte 0 a = 192 \<and> v4_byte 1 a = 168)
      | V6 a _ \<Rightarrow> drop_bit 120 a AND 0xFE = 0xFC)"

definition IsLinkLocalUnicast :: "addr \<Rightarrow> bool" where
  "IsLinkLocalUnicast ip =
     (case Unmap ip of
        V4 a \<Rightarrow> v4_byte 0 a = 169 \<and> v4_byte 1 a = 254
      | V6 a _ \<Rightarrow> drop_bit 112 a AND 0xFFC0 = 0xFE80)"

definition IsLinkLocalMulticast :: "addr \<Rightarrow> bool" where
  "IsLinkLocalMulticast ip =
     (case Unmap ip of
        V4 a \<Rightarrow> v4_byte 0 a = 224 \<and> v4_byte 1 a = 0 \<and> v4_byte 2 a = 0
      | V6 a _ \<Rightarrow> drop_bit 112 a AND 0xFF0F = 0xFF02)"

text \<open>Unlike the others, this one is a comparison with \<open>0.0.0.0\<close> and \<open>::\<close>, zone included.\<close>

definition IsUnspecified :: "addr \<Rightarrow> bool" where
  "IsUnspecified ip \<longleftrightarrow> ip = V4 0 \<or> ip = V6 0 []"

definition isBlockedIP :: "bool \<Rightarrow> addr \<Rightarrow> bool" where
  "isBlockedIP allowPrivate a \<longleftrightarrow>
     IsLoopback a \<or> (\<not> allowPrivate \<and> IsPrivate a) \<or> IsLinkLocalUnicast a \<or> IsLinkLocalMulticast a
     \<or> IsUnspecified a"

subsection \<open>The URL\<close>

record url =
  Scheme :: string
  Host :: string
  Hostname :: string

record net_lib =
  url_Parse :: "string \<Rightarrow> url option"
  ParseAddr :: "string \<Rightarrow> addr option"
  LookupHost :: "string \<Rightarrow> string list option"

text \<open>The two environment variables the check reads.\<close>

record callback_env =
  WEBHOOK_ALLOW_INSECURE_HTTP :: string
  WEBHOOK_ALLOW_PRIVATE_IPS :: string

fun blocked_answer :: "net_lib \<Rightarrow> bool \<Rightarrow> string list \<Rightarrow> bool" where
  "blocked_answer lib allowPrivate [] = False"
| "blocked_answer lib allowPrivate (a # rest) =
     (case ParseAddr lib a of
        None \<Rightarrow> blocked_answer lib allowPrivate rest
      | Some ip \<Rightarrow> isBlockedIP allowPrivate ip \<or> blocked_answer lib allowPrivate rest)"

definition validateCallbackURL :: "net_lib \<Rightarrow> callback_env \<Rightarrow> string \<Rightarrow> string option" where
  "validateCallbackURL lib env raw =
     (if raw = [] then Some ''callback_url: empty''
      else case url_Parse lib raw of
        None \<Rightarrow> Some ''callback_url: invalid URL''
      | Some u \<Rightarrow>
          if Host u = [] then Some ''callback_url: missing host''
          else
            let allowInsecureHTTP = (WEBHOOK_ALLOW_INSECURE_HTTP env = ''true'');
                allowPrivate = (WEBHOOK_ALLOW_PRIVATE_IPS env = ''true'') in
            if Scheme u = ''http'' \<and> \<not> allowInsecureHTTP then Some ''callback_url: http scheme not allowed''
            else if Scheme u \<noteq> ''https'' \<and> Scheme u \<noteq> ''http'' then Some ''callback_url: unsupported scheme''
            else if Hostname u = [] then Some ''callback_url: missing host''
            else case ParseAddr lib (Hostname u) of
              Some ip \<Rightarrow> if isBlockedIP allowPrivate ip then Some ''callback_url: blocked address'' else None
            | None \<Rightarrow>
                (case LookupHost lib (Hostname u) of
                   None \<Rightarrow> Some ''callback_url: cannot resolve host''
                 | Some addrs \<Rightarrow>
                     if blocked_answer lib allowPrivate addrs then Some ''callback_url: blocked address''
                     else None))"

subsection \<open>The blocked ranges as networks\<close>

text \<open>A network: the first \<open>k\<close> bits of a \<open>w\<close>-bit address are those of \<open>net\<close>.\<close>

definition in_net :: "'w::len word \<Rightarrow> nat \<Rightarrow> 'w word \<Rightarrow> bool" where
  "in_net net k a \<longleftrightarrow> (\<forall>i \<in> set [LENGTH('w) - k..<LENGTH('w)]. bit a i = bit net i)"

definition v4_networks :: "bool \<Rightarrow> (32 word \<times> nat) list" where
  "v4_networks allowPrivate =
     [(0x7F000000, 8), (0xA9FE0000, 16), (0xE0000000, 24)]
     @ (if allowPrivate then [] else [(0x0A000000, 8), (0xAC100000, 12), (0xC0A80000, 16)])"

definition v6_networks :: "bool \<Rightarrow> (128 word \<times> nat) list" where
  "v6_networks allowPrivate =
     [(1, 128), (push_bit 112 0xFE80, 10)] @ (if allowPrivate then [] else [(push_bit 120 0xFC, 7)])"

fun internal :: "bool \<Rightarrow> addr \<Rightarrow> bool" where
  "internal allowPrivate (V4 a) \<longleftrightarrow> (\<exists>(net, k) \<in> set (v4_networks allowPrivate). in_net net k a)"
| "internal allowPrivate (V6 a zone) \<longleftrightarrow>
     (\<exists>(net, k) \<in> set (v6_networks allowPrivate). in_net net k a) \<or> drop_bit 112 a AND 0xFF0F = 0xFF02"


lemma word_bits: "x = y \<longleftrightarrow> (\<forall>i \<in> set [0..<LENGTH('w)]. bit x i = bit y i)" for x y :: "'w::len word"
  by (auto simp: bit_eq_iff bit_imp_le_length) (metis atLeast0LessThan bit_imp_le_length lessThan_iff)+

lemmas bit_expand = word_bits in_net_def bit_and_iff bit_drop_bit_eq upt_conv_Cons

lemma v4_nets:
  "v4_byte 0 a = 127 \<longleftrightarrow> in_net 0x7F000000 8 a"
  "v4_byte 0 a = 10 \<longleftrightarrow> in_net 0x0A000000 8 a"
  "v4_byte 0 a = 172 \<and> v4_byte 1 a AND 0xF0 = 16 \<longleftrightarrow> in_net 0xAC100000 12 a"
  "v4_byte 0 a = 192 \<and> v4_byte 1 a = 168 \<longleftrightarrow> in_net 0xC0A80000 16 a"
  "v4_byte 0 a = 169 \<and> v4_byte 1 a = 254 \<longleftrightarrow> in_net 0xA9FE0000 16 a"
  "v4_byte 0 a = 224 \<and> v4_byte 1 a = 0 \<and> v4_byte 2 a = 0 \<longleftrightarrow> in_net 0xE0000000 24 a"
  by (simp_all add: v4_byte_def bit_expand bit_numeral_rec conj_ac)

lemma in_net_full: "in_net net LENGTH('w) a \<longleftrightarrow> a = net" for a net :: "'w::len word"
  by (auto simp: in_net_def word_bits)

lemma v6_one: "a = 1 \<longleftrightarrow> in_net 1 128 a" for a :: "128 word"
  using in_net_full [of 1 a] by simp

lemma masked_eq:
  fixes x m c :: "'w::len word"
  assumes "take_bit k m = m" "take_bit k c = c"
  shows "x AND m = c \<longleftrightarrow> (\<forall>i \<in> set [0..<k]. (bit x i \<and> bit m i) = bit c i)"
proof -
  have high: "\<not> bit m i" "\<not> bit c i" if "k \<le> i" for i
    using that assms [symmetric] bit_take_bit_iff [of k] by (metis not_le)+
  have "x AND m = c \<longleftrightarrow> (\<forall>i. (bit x i \<and> bit m i) = bit c i)"
    unfolding bit_and_iff [symmetric] by (auto intro: bit_word_eqI)
  also have "\<dots> \<longleftrightarrow> (\<forall>i < k. (bit x i \<and> bit m i) = bit c i)"
    using high by (metis not_le)
  finally show ?thesis by auto
qed

lemma v6_nets:
  "drop_bit 112 a AND 0xFFC0 = 0xFE80 \<longleftrightarrow> in_net (push_bit 112 0xFE80) 10 a"
  "drop_bit 120 a AND 0xFE = 0xFC \<longleftrightarrow> in_net (push_bit 120 0xFC) 7 a" for a :: "128 word"
  by (simp_all del: push_bit_numeral add: masked_eq [where k = 16] masked_eq [where k = 8] in_net_def
      upt_conv_Cons bit_drop_bit_eq bit_numeral_rec bit_push_bit_iff conj_ac)

lemma isBlockedIP_networks:
  "isBlockedIP allowPrivate ip \<longleftrightarrow> internal allowPrivate (Unmap ip) \<or> ip = V4 0 \<or> ip = V6 0 []"
proof (cases "Unmap ip")
  case (V4 a)
  then show ?thesis
    by (cases allowPrivate) (simp_all add: isBlockedIP_def IsLoopback_def IsPrivate_def IsLinkLocalUnicast_def
      IsLinkLocalMulticast_def IsUnspecified_def v4_networks_def v4_nets [symmetric] disj_ac)
next
  case (V6 a zone)
  then show ?thesis
    by (cases allowPrivate) (simp_all del: push_bit_numeral add: isBlockedIP_def IsLoopback_def IsPrivate_def
      IsLinkLocalUnicast_def IsLinkLocalMulticast_def IsUnspecified_def v6_networks_def v6_one [symmetric]
      v6_nets [symmetric] disj_ac)
qed

text \<open>The addresses behind a host name: the literal itself, or those of the resolver's answer.\<close>

definition addresses :: "net_lib \<Rightarrow> string \<Rightarrow> addr list option" where
  "addresses lib host =
     (case ParseAddr lib host of
        Some ip \<Rightarrow> Some [ip]
      | None \<Rightarrow> map_option (\<lambda>as. map (the \<circ> ParseAddr lib) (filter (\<lambda>a. ParseAddr lib a \<noteq> None) as)) (LookupHost lib host))"

definition refused :: "callback_env \<Rightarrow> addr \<Rightarrow> bool" where
  "refused env ip \<longleftrightarrow> internal (WEBHOOK_ALLOW_PRIVATE_IPS env = ''true'') (Unmap ip) \<or> ip = V4 0 \<or> ip = V6 0 []"

definition secure_scheme :: "callback_env \<Rightarrow> string \<Rightarrow> bool" where
  "secure_scheme env sch \<longleftrightarrow> sch = ''https'' \<or> (sch = ''http'' \<and> WEBHOOK_ALLOW_INSECURE_HTTP env = ''true'')"

lemma blocked_answer_addresses:
  "blocked_answer lib p as \<longleftrightarrow>
   list_ex (isBlockedIP p) (map (the \<circ> ParseAddr lib) (filter (\<lambda>a. ParseAddr lib a \<noteq> None) as))"
  by (induction as) (auto split: option.split)

text \<open>C18: The callback check against request forgery. It accepts an address exactly when the URL parses, its
  host is not empty, its scheme is \<open>https\<close> (or \<open>http\<close> when the operator allows it), the host is an address
  literal or a name the resolver knows, and none of the addresses behind it lies in a loopback,
  link-local or (unless the operator allows them) private network, IPv4-mapped forms included, or is
  an unspecified address. The networks are given as prefixes, independently of the byte tests.\<close>

theorem callback_addresses_checked:
  "validateCallbackURL lib env raw = None \<longleftrightarrow>
     raw \<noteq> []
     \<and> (\<exists>u as. url_Parse lib raw = Some u \<and> Host u \<noteq> [] \<and> Hostname u \<noteq> [] \<and> secure_scheme env (Scheme u)
          \<and> addresses lib (Hostname u) = Some as \<and> list_all (\<lambda>ip. \<not> refused env ip) as)"
proof -
  have "refused env = isBlockedIP (WEBHOOK_ALLOW_PRIVATE_IPS env = ''true'')"
    by (rule ext) (simp add: refused_def isBlockedIP_networks)
  then show ?thesis
    by (auto simp: validateCallbackURL_def addresses_def secure_scheme_def blocked_answer_addresses Let_def
        list_ex_iff list_all_iff split: option.splits if_splits)
qed

text \<open>
  The unspecified addresses are compared as they are, not unmapped: \<open>::ffff:0.0.0.0\<close> and \<open>::\<close> with a zone
  name the local host like the forms that are refused, and pass.
\<close>

theorem mapped_unspecified_passes:
  "\<not> isBlockedIP False (V6 0xFFFF00000000 []) \<and> Unmap (V6 0xFFFF00000000 []) = V4 0 \<and> isBlockedIP True (V4 0)
   \<and> \<not> isBlockedIP False (V6 0 ''eth0'')"
  by (simp add: isBlockedIP_def IsLoopback_def IsPrivate_def IsLinkLocalUnicast_def IsLinkLocalMulticast_def
      IsUnspecified_def Is4In6_def v4_byte_def)

end
