(* ===== verification/Upload.thy ===== *)
theory Upload
  imports Sniff Storage Callback
begin

text \<open>
  The part of \<open>handleCreateJob\<close> (\<open>internal/api/handlers.go\<close>) that decides about an upload before
  anything is written: the chain of content detectors, the checks on the detected format, the engine,
  the size and the pixels, and the options. Each stage is a value of \<open>step\<close>: it goes on, refuses
  with a status and a message, or panics.
\<close>

subsection \<open>Stages\<close>

datatype 'a step = Panic | Refuse nat string | Go 'a

fun and_then :: "'a step \<Rightarrow> ('a \<Rightarrow> 'b step) \<Rightarrow> 'b step" where
  "and_then Panic f = Panic"
| "and_then (Refuse st msg) f = Refuse st msg"
| "and_then (Go x) f = f x"

definition demand :: "bool \<Rightarrow> nat \<Rightarrow> string \<Rightarrow> unit step" where
  "demand c st msg = (if c then Go () else Refuse st msg)"

lemma and_then_Go: "and_then m f = Go y \<longleftrightarrow> (\<exists>x. m = Go x \<and> f x = Go y)"
  by (cases m) auto

lemma and_then_Panic: "and_then m f = Panic \<longleftrightarrow> m = Panic \<or> (\<exists>x. m = Go x \<and> f x = Panic)"
  by (cases m) auto

lemma and_then_Refuse:
  "and_then m f = Refuse st msg \<longleftrightarrow> m = Refuse st msg \<or> (\<exists>x. m = Go x \<and> f x = Refuse st msg)"
  by (cases m) auto

lemma demand_simps [simp]:
  "demand c st msg = Go u \<longleftrightarrow> c" "demand c st msg \<noteq> Panic"
  "demand c st msg = Refuse st' msg' \<longleftrightarrow> \<not> c \<and> st' = st \<and> msg' = msg"
  by (auto simp: demand_def)

lemmas step_simps = and_then_Go and_then_Panic and_then_Refuse

subsection \<open>The server's limits\<close>

record api_config =
  MaxUploadBytes :: int
  MaxImagePixels :: u64
  MaxDocumentUncompressedBytes :: u64
  MaxEngineBytes :: "(string \<rightharpoonup> int) option"
  PresignTTL :: int
  IPRateLimitRPM :: int
  ClientRateLimitRPM :: int
  OperatorClientIDs :: "uuid set option"

record server =
  maxUploadByte :: int
  maxEngineBytes :: "string \<rightharpoonup> int"
  maxImagePixels :: u64
  maxDocumentUncompressedBytes :: u64
  presignTTL :: int
  ipRateRPM :: int
  clientRateRPM :: int
  operators :: "uuid set"

definition default_engine_bytes :: "string \<rightharpoonup> int" where
  "default_engine_bytes = map_of
     [(EngineImage, 100 * 2 ^ 20), (EngineDocument, 100 * 2 ^ 20), (EngineHTML, 100 * 2 ^ 20),
      (EngineAudio, 100 * 2 ^ 20), (EngineAV, 2 * 2 ^ 30)]"

definition NewServer :: "api_config \<Rightarrow> server" where
  "NewServer cfg =
     \<lparr>maxUploadByte = (if MaxUploadBytes cfg = 0 then 100 * 2 ^ 20 else MaxUploadBytes cfg),
      maxEngineBytes = (case MaxEngineBytes cfg of None \<Rightarrow> default_engine_bytes | Some m \<Rightarrow> m),
      maxImagePixels = (if MaxImagePixels cfg = 0 then 100000000 else MaxImagePixels cfg),
      maxDocumentUncompressedBytes =
        (if MaxDocumentUncompressedBytes cfg = 0 then 500 * 2 ^ 20 else MaxDocumentUncompressedBytes cfg),
      presignTTL = (if PresignTTL cfg = 0 then 15 * 60 * 1000000000 else PresignTTL cfg),
      ipRateRPM = (if IPRateLimitRPM cfg = 0 then 60 else IPRateLimitRPM cfg),
      clientRateRPM = (if ClientRateLimitRPM cfg = 0 then 120 else ClientRateLimitRPM cfg),
      operators = (case OperatorClientIDs cfg of None \<Rightarrow> {} | Some s \<Rightarrow> s)\<rparr>"

subsection \<open>Detection\<close>

text \<open>
  An uploaded part: the client's filename and the size of its header, the sequential stream, reads at
  a position (with what can fail there), and what \<open>zip.NewReader\<close> makes of it.
\<close>

record upload =
  up_Filename :: string
  up_Size :: nat
  up_stream :: reader
  up_at :: reader_at
  up_fails :: "nat \<Rightarrow> nat \<Rightarrow> bool"
  up_zip :: "zip_file list option"

definition zip_magic :: bytes where "zip_magic = [0x50, 0x4B, 3, 4]"

definition detect_container :: "server \<Rightarrow> upload \<Rightarrow> string \<Rightarrow> string step" where
  "detect_container s u detected =
     (if detected \<noteq> [] \<or> up_at u 0 4 \<noteq> zip_magic then Go detected
      else case SniffContainer (up_zip u) of
        None \<Rightarrow> Go detected
      | Some cr \<Rightarrow>
          if cr_Format cr \<noteq> [] \<and> \<not> cr_DuplicateRootPart cr then
            (if maxDocumentUncompressedBytes s < cr_TotalUncompressed cr
             then Refuse 422 ''declared uncompressed size exceeds configured limit''
             else if cr_HasMacro cr then Refuse 422 ''macro-carrying documents are not accepted''
             else Go (cr_Format cr))
          else Go detected)"

definition detect_html :: "upload \<Rightarrow> string \<Rightarrow> string \<Rightarrow> string" where
  "detect_html u source detected =
     (if detected = [] \<and> source = ''html'' \<and> LooksLikeHTML (up_at u) (up_fails u) (up_Size u) then ''html''
      else detected)"

definition reject_cfb :: "upload \<Rightarrow> string \<Rightarrow> unit step" where
  "reject_cfb u detected =
     (if detected \<noteq> [] \<or> \<not> IsOLECFB (up_at u) then Go ()
      else case ClassifyCFB (up_at u) (up_Size u) of
        None \<Rightarrow> Panic
      | Some CFBEncrypted \<Rightarrow>
          Refuse 422 ''password-protected Office file is not supported; remove the password and re-upload''
      | Some CFBLegacy \<Rightarrow>
          Refuse 422 ''legacy binary Office format (.doc/.xls/.ppt) is not supported; convert to docx/xlsx/pptx''
      | Some CFBUnknown \<Rightarrow>
          Refuse 422 ''legacy binary or password-protected Office format is not supported; convert to docx/xlsx/pptx or remove the password'')"

text \<open>What is left of a stream after a read of \<open>n\<close> bytes whose result is dropped.\<close>

definition drained :: "nat \<Rightarrow> reader \<Rightarrow> reader" where
  "drained n r = r\<lparr>avail := drop n (avail r)\<rparr>"

definition detect_video :: "string \<times> reader \<Rightarrow> (string \<times> reader) step" where
  "detect_video st =
     (let (detected, rest) = st in
      if detected \<noteq> [] then Go st
      else case SniffVideo rest of
        None \<Rightarrow> Panic
      | Some (Inl _) \<Rightarrow> Go (detected, drained avPeekLen rest)
      | Some (Inr (found, videoRest)) \<Rightarrow> Go (if found \<noteq> [] then found else detected, videoRest))"

definition detect_audio :: "string \<times> reader \<Rightarrow> (string \<times> reader) step" where
  "detect_audio st =
     (let (detected, rest) = st in
      if detected \<noteq> [] then Go st
      else case SniffAudio rest of
        None \<Rightarrow> Panic
      | Some (Inl _) \<Rightarrow> Go (detected, drained mp3PeekLen rest)
      | Some (Inr (found, audioRest)) \<Rightarrow>
          Go (if found \<noteq> [] then (found, audioRest) else (detected, drained mp3PeekLen rest)))"

definition detect :: "server \<Rightarrow> string \<Rightarrow> upload \<Rightarrow> (string \<times> reader) step" where
  "detect s source u =
     (case Sniff (up_stream u) of
        Inl _ \<Rightarrow> Refuse 400 ''invalid multipart form''
      | Inr (d0, rest) \<Rightarrow>
          and_then (detect_container s u d0) (\<lambda>d1.
          let d2 = detect_html u source d1 in
          and_then (reject_cfb u d2) (\<lambda>_.
          and_then (detect_video (d2, rest)) detect_audio)))"

subsection \<open>Checks on the detected format\<close>

definition check_dimensions :: "server \<Rightarrow> string \<Rightarrow> string \<Rightarrow> reader \<Rightarrow> reader step" where
  "check_dimensions s file detected rest =
     (if \<not> HasDimensionLimit detected then Go rest
      else case Dimensions detected rest of
        None \<Rightarrow> Panic
      | Some (Inl _, _) \<Rightarrow> Refuse 422 (''cannot determine declared image dimensions for '' @ file)
      | Some (Inr (width, height), dimRest) \<Rightarrow>
          if maxImagePixels s < ucast width * ucast height
          then Refuse 422 ''declared image dimensions exceed configured limit''
          else (case dimRest of None \<Rightarrow> Panic | Some r \<Rightarrow> Go r))"

definition over_engine_limit :: "server \<Rightarrow> string \<Rightarrow> nat \<Rightarrow> bool" where
  "over_engine_limit s engine_class sz \<longleftrightarrow>
     (case maxEngineBytes s engine_class of None \<Rightarrow> False | Some limit \<Rightarrow> limit < int sz)"

text \<open>The engine class, the detected format and the stream to store.\<close>

definition check_content ::
  "server \<Rightarrow> string \<Rightarrow> string \<Rightarrow> string \<Rightarrow> upload \<Rightarrow> (string \<times> string \<times> reader) step" where
  "check_content s file source target u =
     and_then (detect s source u) (\<lambda>(detected, rest).
     and_then (demand (detected \<noteq> []) 422 (''unrecognized file content for '' @ file)) (\<lambda>_.
     and_then (demand (detected = source) 422
       (''declared format '' @ source @ '' does not match detected content '' @ detected)) (\<lambda>_.
     case EngineFor Default detected target of
       None \<Rightarrow> Refuse 422 (''unsupported conversion: '' @ detected @ '' -> '' @ target)
     | Some eng \<Rightarrow>
         and_then (demand (\<not> over_engine_limit s eng (up_Size u)) 413
           ''file exceeds size limit for this conversion type'') (\<lambda>_.
         and_then (check_dimensions s file detected rest) (\<lambda>r. Go (eng, detected, r))))))"

subsection \<open>Options\<close>

definition maxOptsBytes :: nat where "maxOptsBytes = 4096"

text \<open>One case of the switch: parse, check that the options apply, and keep the normalized map.\<close>

definition normalized ::
  "(opts_error + 'o) \<Rightarrow> ('o \<Rightarrow> string option) \<Rightarrow> ('o \<Rightarrow> opts) \<Rightarrow> opts step" where
  "normalized parse applicable to_map =
     (case parse of
        Inl _ \<Rightarrow> Refuse 422 ''invalid opts''
      | Inr opt \<Rightarrow>
          if applicable opt \<noteq> None then Refuse 422 ''opts not applicable to this conversion''
          else Go (to_map opt))"

definition normalize_opts :: "string \<Rightarrow> string \<Rightarrow> string \<Rightarrow> json_doc \<Rightarrow> opts step" where
  "normalize_opts eng detected target raw =
     (if eng = EngineAudio
      then normalized (ParseAudioOpts raw) (ValidateAudioApplicability eng detected target) audio_map
      else if eng = EngineAV
      then normalized (ParseAVOpts raw) (ValidateAVApplicability eng detected target) av_map
      else if eng = EngineHTML
      then normalized (ParseHTMLOpts raw) (ValidateHTMLApplicability eng detected target) html_map
      else normalized (ParseDocOpts raw) (ValidateApplicability eng detected target) doc_map)"

text \<open>The text of a form field or of a stored preset: nothing, or a document to check. \<open>read\<close> is the JSON scanner.\<close>

definition check_opts :: "(string \<Rightarrow> json_doc) \<Rightarrow> string \<Rightarrow> string \<Rightarrow> string \<Rightarrow> string \<Rightarrow> opts option step" where
  "check_opts read eng detected target rawOpts =
     (if rawOpts = [] \<or> rawOpts = ''{}'' then Go None
      else and_then (demand (length rawOpts \<le> maxOptsBytes) 422 ''opts field too large'') (\<lambda>_.
           and_then (normalize_opts eng detected target (read rawOpts)) (\<lambda>m. Go (Some m))))"

subsection \<open>What survives the checks\<close>

lemma Sniff_cases:
  "Sniff r = (if length (avail r) < sniffLen \<and> broken r then Inl ReadFailed
     else Inr (table_format (take sniffLen (avail r)), r))"
  by (simp add: Sniff_detects detects_def)

lemma SniffVideo_cases:
  "SniffVideo r = Some (if length (avail r) < avPeekLen \<and> broken r then Inl ReadFailed
     else Inr (video_format (take avPeekLen (avail r)), r))"
  by (simp add: SniffVideo_detects detects_def)

lemma SniffAudio_cases:
  "SniffAudio r = Some (if length (avail r) < mp3PeekLen \<and> broken r then Inl ReadFailed
     else Inr (audio_format (take mp3PeekLen (avail r)), r))"
  by (simp add: SniffAudio_detects detects_def)

lemma reject_cfb_no_panic: "reject_cfb u d \<noteq> Panic"
  using ClassifyCFB_total [of "up_at u" "up_Size u"]
  by (auto simp: reject_cfb_def split: option.split CFBClass.split)

lemma detect_video_Go:
  "\<exists>d' rest'. detect_video (d, rest) = Go (d', rest')
     \<and> (rest' = rest \<or> (d' = [] \<and> broken rest \<and> length (avail rest') = 0))"
  by (auto simp: detect_video_def SniffVideo_cases drained_def)

lemma detect_audio_Go:
  "\<exists>d' rest'. detect_audio (d, rest) = Go (d', rest') \<and> (d' = [] \<or> rest' = rest)"
  by (auto simp: detect_audio_def SniffAudio_cases)

lemma detect_no_panic: "detect s source u \<noteq> Panic"
proof -
  have "detect_container s u d \<noteq> Panic" for d
    by (auto simp: detect_container_def split: option.split)
  moreover have "detect_video x \<noteq> Panic" "detect_audio x \<noteq> Panic" for x
    using detect_video_Go detect_audio_Go by (metis step.distinct(3) surj_pair)+
  ultimately show ?thesis
    by (auto simp: detect_def Sniff_cases Let_def and_then_Panic reject_cfb_no_panic)
qed

lemma detect_rest:
  assumes "detect s source u = Go (d, rest)" "d \<noteq> []"
  shows "rest = up_stream u"
proof -
  from assms(1) obtain d2 x where "detect_video (d2, up_stream u) = Go x" and x: "detect_audio x = Go (d, rest)"
    by (auto simp: detect_def Sniff_cases Let_def and_then_Go split: if_splits)
  with detect_video_Go [of d2 "up_stream u"] obtain d' rest' where
    "x = (d', rest')" and "rest' = up_stream u \<or> (d' = [] \<and> broken rest' \<and> length (avail rest') = 0)"
    by (auto simp: detect_video_def SniffVideo_cases drained_def split: if_splits)
  with x assms(2) detect_audio_Go [of d' rest'] show ?thesis
    by (auto simp: detect_audio_def SniffAudio_cases mp3PeekLen_def split: if_splits)
qed

lemma check_dimensions_no_panic: "check_dimensions s file d rest \<noteq> Panic"
  using Dimensions_outcome [of d rest]
  by (auto simp: check_dimensions_def split: option.split sum.split if_splits)

lemma check_dimensions_Go:
  assumes "check_dimensions s file d rest = Go r"
  shows "r = rest \<and> (HasDimensionLimit d \<longrightarrow>
    (\<exists>wh. Dimensions d rest = Some (Inr wh, Some rest) \<and> pixels wh \<le> unat (maxImagePixels s)))"
proof (cases "HasDimensionLimit d")
  case True
  obtain res st where res: "Dimensions d rest = Some (res, st)"
    "st = (if res = Inl DimReadError then None else Some rest)"
    using Dimensions_outcome by blast
  with True assms obtain w h where "res = Inr (w, h)" "\<not> maxImagePixels s < ucast w * ucast h" "r = rest"
    by (auto simp: check_dimensions_def split: sum.splits if_splits)
  with True res show ?thesis by (auto simp: word_less_nat_alt not_less unat_pixels)
qed (use assms in \<open>simp add: check_dimensions_def\<close>)

text \<open>What in the file speaks for a format.\<close>

definition evidence :: "server \<Rightarrow> upload \<Rightarrow> string \<Rightarrow> bool" where
  "evidence s u f \<longleftrightarrow>
     f = table_format (take sniffLen (avail (up_stream u)))
     \<or> (\<exists>fs cr. up_zip u = Some fs \<and> SniffContainer (Some fs) = Some cr \<and> f = cr_Format cr
          \<and> \<not> cr_DuplicateRootPart cr \<and> \<not> list_ex is_macro fs
          \<and> sum_list (map z_size fs) \<le> maxDocumentUncompressedBytes s)
     \<or> (f = ''html'' \<and> LooksLikeHTML (up_at u) (up_fails u) (up_Size u))
     \<or> f = video_format (take avPeekLen (avail (up_stream u)))
     \<or> f = audio_format (take mp3PeekLen (avail (up_stream u)))"

lemma detect_container_Go:
  assumes "detect_container s u d = Go d'" "d' \<noteq> d"
  shows "\<exists>fs cr. up_zip u = Some fs \<and> SniffContainer (Some fs) = Some cr \<and> d' = cr_Format cr
    \<and> \<not> cr_DuplicateRootPart cr \<and> \<not> list_ex is_macro fs
    \<and> sum_list (map z_size fs) \<le> maxDocumentUncompressedBytes s"
proof -
  from assms obtain cr where cr: "SniffContainer (up_zip u) = Some cr" "d' = cr_Format cr"
    "\<not> maxDocumentUncompressedBytes s < cr_TotalUncompressed cr" "\<not> cr_HasMacro cr" "\<not> cr_DuplicateRootPart cr"
    by (auto simp: detect_container_def split: if_splits option.splits)
  then obtain fs where "up_zip u = Some fs" by (auto simp: SniffContainer_def split: option.splits)
  with cr SniffContainer_signals [of fs cr] show ?thesis by (auto simp: list_ex_iff not_less)
qed

lemma detect_evidence:
  assumes "detect s source u = Go (d, rest)" "d \<noteq> []"
  shows "evidence s u d"
proof -
  let ?d0 = "table_format (take sniffLen (avail (up_stream u)))"
  from assms(1) obtain d1 x where c: "detect_container s u ?d0 = Go d1"
    and v: "detect_video (detect_html u source d1, up_stream u) = Go x" and a: "detect_audio x = Go (d, rest)"
    by (auto simp: detect_def Sniff_cases Let_def and_then_Go split: if_splits)
  have "d1 = ?d0 \<or> evidence s u d1"
    using detect_container_Go [OF c] unfolding evidence_def by blast
  then have "evidence s u d1" unfolding evidence_def by blast
  then have "evidence s u (detect_html u source d1)"
    by (auto simp: detect_html_def evidence_def)
  moreover have "rest = up_stream u" by (rule detect_rest [OF assms])
  ultimately show ?thesis
    using v a assms(2)
    by (auto simp: detect_video_def detect_audio_def SniffVideo_cases SniffAudio_cases drained_def evidence_def
        split: if_splits)
qed

lemma check_content_no_panic: "check_content s file source target u \<noteq> Panic"
  by (auto simp: check_content_def and_then_Panic detect_no_panic check_dimensions_no_panic split: option.split)

lemma detect_status:
  assumes "detect s source u = Refuse st msg"
  shows "st \<in> {400, 422}"
proof -
  have "st = 422" if "detect_container s u d = Refuse st msg" for d
    using that by (auto simp: detect_container_def split: if_splits option.splits)
  moreover have "st = 422" if "reject_cfb u d = Refuse st msg" for d
    using that by (auto simp: reject_cfb_def split: if_splits option.splits CFBClass.splits)
  moreover have "detect_video x \<noteq> Refuse st msg" "detect_audio x \<noteq> Refuse st msg" for x
    using detect_video_Go detect_audio_Go by (metis step.distinct(5) surj_pair)+
  ultimately show ?thesis
    using assms by (auto simp: detect_def Sniff_cases Let_def and_then_Refuse split: if_splits)
qed

lemma check_dimensions_status: "check_dimensions s file d rest = Refuse st msg \<Longrightarrow> st = 422"
  by (auto simp: check_dimensions_def split: if_splits option.splits sum.splits)

lemma check_content_status:
  assumes "check_content s file source target u = Refuse st msg"
  shows "st \<in> {400, 413, 422}"
  using assms detect_status [of s source u st msg] check_dimensions_status
  by (fastforce simp: check_content_def and_then_Refuse split: option.splits prod.splits)

lemma check_content_Go:
  assumes "check_content s file source target u = Go (eng, d, rest)"
  shows "detect s source u = Go (d, up_stream u) \<and> d \<noteq> [] \<and> d = source \<and> EngineFor Default d target = Some eng
    \<and> \<not> over_engine_limit s eng (up_Size u) \<and> check_dimensions s file d (up_stream u) = Go rest"
  using assms detect_rest [of s source u d]
  by (auto simp: check_content_def and_then_Go split: option.splits dest: detect_rest)

text \<open>
  What the checks promise about an accepted upload. The format is the one its filename declares and its
  content shows (magic bytes, a package without macros whose announced size is within the limit, an
  HTML marker, or a container header).
\<close>

lemma check_content_sound:
  assumes "check_content s file source target u = Go (eng, d, rest)"
  shows "d = source \<and> evidence s u d \<and> EngineFor Default d target = Some eng \<and> rest = up_stream u
    \<and> \<not> over_engine_limit s eng (up_Size u)
    \<and> (if HasDimensionLimit d
       then \<exists>wh. Dimensions d rest = Some (Inr wh, Some rest) \<and> pixels wh \<le> unat (maxImagePixels s)
       else True)"
  using check_content_Go [OF assms] detect_evidence check_dimensions_Go by fastforce

text \<open>An upload whose parts agree, and the smallest picture.\<close>

definition upload_of :: "string \<Rightarrow> bytes \<Rightarrow> zip_file list option \<Rightarrow> upload" where
  "upload_of file content files =
     \<lparr>up_Filename = file, up_Size = length content, up_stream = \<lparr>avail = content, broken = False\<rparr>,
      up_at = \<lambda>off n. take n (drop off content), up_fails = \<lambda>_ _. False, up_zip = files\<rparr>"

definition demo_png :: bytes where
  "demo_png =
     [0x89, 0x50, 0x4E, 0x47, 0x0D, 0x0A, 0x1A, 0x0A, 0, 0, 0, 13, 0x49, 0x48, 0x44, 0x52, 0, 0, 0, 2, 0, 0, 0, 3]"

definition demo_server :: server where
  "demo_server = NewServer
     \<lparr>MaxUploadBytes = 0, MaxImagePixels = 0, MaxDocumentUncompressedBytes = 0, MaxEngineBytes = None,
      PresignTTL = 0, IPRateLimitRPM = 0, ClientRateLimitRPM = 0, OperatorClientIDs = None\<rparr>"

lemma demo_png_format: "table_format (take sniffLen demo_png) = ''png''"
  by (simp add: table_format_def signatures_def demo_png_def sniffLen_def matchPNG_def)

lemma demo_png_size: "pngDimensions demo_png = Some (Some (2, 3))"
  by (simp add: pngDimensions_def demo_png_def gslice_def bytes_of_def be32_def be_val_def)

lemma demo_pair: "EngineFor Default ''png'' ''webp'' = Some EngineImage"
proof -
  have "(''png'', ''webp'') \<in> set (Pairs LibvipsConverter)" by (simp add: imageFormats_def)
  then have "Lookup Default ''png'' ''webp'' = Some LibvipsConverter"
    by (simp add: Lookup_Default normalize_pair_def)
  then show ?thesis by (simp add: EngineFor_def)
qed

lemma demo_png_dimensions:
  "Dimensions ''png'' \<lparr>avail = demo_png, broken = False\<rparr> = Some (Inr (2, 3), Some \<lparr>avail = demo_png, broken = False\<rparr>)"
proof -
  have "take dimPeekLen demo_png = demo_png" "drop dimPeekLen demo_png = []"
    by (simp_all add: dimPeekLen_def demo_png_def)
  then show ?thesis
    by (simp add: Dimensions_def peek_def stitch_def dimensionParsers_def demo_png_size)
qed

lemma demo_limits: "maxImagePixels demo_server = 100000000" "maxEngineBytes demo_server EngineImage = Some 104857600"
  by (simp_all add: demo_server_def NewServer_def default_engine_bytes_def engine_defs)

lemma demo_check:
  "check_content demo_server ''cat.png'' ''png'' ''webp'' (upload_of ''cat.png'' demo_png None)
     = Go (EngineImage, ''png'', \<lparr>avail = demo_png, broken = False\<rparr>)"
proof -
  have "length demo_png = 24" by (simp add: demo_png_def)
  then show ?thesis
    by (simp add: check_content_def detect_def Sniff_cases upload_of_def demo_png_format detect_container_def
        detect_html_def reject_cfb_def detect_video_def detect_audio_def demo_pair demand_def
        check_dimensions_def HasDimensionLimit_def dimensionParsers_def demo_png_dimensions over_engine_limit_def
        demo_limits)
qed

text \<open>The worker reads back what the API stored.\<close>

definition readable_opts :: "string \<Rightarrow> opts \<Rightarrow> bool" where
  "readable_opts eng m \<longleftrightarrow>
     (if eng = EngineAudio then \<exists>x. AudioOptsFromMap m = Inr x
      else if eng = EngineAV then \<exists>x. AVOptsFromMap m = Inr x
      else if eng = EngineHTML then \<exists>x. HTMLOptsFromMap m = Inr x
      else \<exists>x. DocOptsFromMap m = Inr x)"

lemma normalized_Go:
  "normalized parse applicable to_map = Go m \<longleftrightarrow> (\<exists>opt. parse = Inr opt \<and> applicable opt = None \<and> m = to_map opt)"
  by (auto simp: normalized_def split: sum.splits)

lemma normalize_opts_readable:
  assumes "normalize_opts eng detected target raw = Go m"
  shows "readable_opts eng m"
  using assms unfolding normalize_opts_def readable_opts_def
  by (auto simp: normalized_Go split: if_splits dest: stored_opts_reparse)

lemma check_opts_status: "check_opts read eng d t raw = Refuse st msg \<Longrightarrow> st = 422"
  by (auto simp: check_opts_def normalize_opts_def normalized_def and_then_Refuse split: if_splits sum.splits)

end
