(* ===== verification/Auth.thy ===== *)
theory Auth
  imports Jobs Formats
begin

text \<open>
  API keys and clients: \<open>internal/auth\<close> (key generation and hashing, the header parser, the
  resolver, the middleware) and the client repository \<open>internal/clients\<close> over the table \<open>clients\<close>.
  SHA-256 is the parameter \<open>sha256\<close>: nothing is used of it but that it is a function, and where two
  keys must differ in the database the hypothesis says so. Header values are ASCII, as in
  \<open>Formats\<close>.
\<close>

unbundle bit_operations_syntax

subsection \<open>Keys\<close>

text \<open>\<open>base64.RawURLEncoding\<close>\<close>

definition b64_alphabet :: string where
  "b64_alphabet = ''ABCDEFGHIJKLMNOPQRSTUVWXYZabcdefghijklmnopqrstuvwxyz0123456789-_''"

definition b64_char :: "nat \<Rightarrow> char" where
  "b64_char n = b64_alphabet ! (n mod 64)"

fun base64url :: "bytes \<Rightarrow> string" where
  "base64url [] = []"
| "base64url [a] = [b64_char (unat a div 4), b64_char (unat a * 16)]"
| "base64url [a, b] =
     [b64_char (unat a div 4), b64_char (unat a * 16 + unat b div 16), b64_char (unat b * 4)]"
| "base64url (a # b # c # r) =
     [b64_char (unat a div 4), b64_char (unat a * 16 + unat b div 16), b64_char (unat b * 4 + unat c div 64),
      b64_char (unat c)] @ base64url r"

text \<open>\<open>rand_read\<close> is what reading 32 random bytes yields, if the source works.\<close>

definition GenerateKey :: "bytes option \<Rightarrow> string option" where
  "GenerateKey rand_read = map_option base64url rand_read"

definition hex_char :: "nat \<Rightarrow> char" where
  "hex_char n = ''0123456789abcdef'' ! n"

definition hex_encode :: "bytes \<Rightarrow> string" where
  "hex_encode bs = concat (map (\<lambda>b. [hex_char (unat b div 16), hex_char (unat b mod 16)]) bs)"

definition HashKey :: "(bytes \<Rightarrow> bytes) \<Rightarrow> bytes \<Rightarrow> string \<Rightarrow> string" where
  "HashKey sha256 salt raw = hex_encode (sha256 (salt @ bytes_of raw))"

subsection \<open>The Authorization header\<close>

text \<open>\<open>strings.Fields\<close>\<close>

fun fields_acc :: "string \<Rightarrow> string \<Rightarrow> string list" where
  "fields_acc cur [] = (if cur = [] then [] else [cur])"
| "fields_acc cur (c # cs) =
     (if is_space c then (if cur = [] then fields_acc [] cs else cur # fields_acc [] cs)
      else fields_acc (cur @ [c]) cs)"

definition Fields :: "string \<Rightarrow> string list" where
  "Fields s = fields_acc [] s"

definition EqualFold :: "string \<Rightarrow> string \<Rightarrow> bool" where
  "EqualFold a b \<longleftrightarrow> ToLower a = ToLower b"

definition authScheme :: string where
  "authScheme = ''ApiKey''"

definition ParseAPIKey :: "string \<Rightarrow> string option" where
  "ParseAPIKey header =
     (case Fields header of
        [scheme, key] \<Rightarrow> if EqualFold scheme authScheme then Some key else None
      | _ \<Rightarrow> None)"

subsection \<open>The table clients\<close>

record client_row =
  c_id :: uuid
  c_name :: string
  api_key_hash :: "string option"
  api_key_hash_secondary :: "string option"
  primary_revoked_at :: "time option"
  secondary_revoked_at :: "time option"

record client =
  cl_ID :: uuid
  cl_Name :: string

datatype client_error =
    ClientNotFound
  | ActiveSecondary uuid
  | InvalidSlot string
  | ClientConstraint
  | ClientConnectionLost

text \<open>\<open>pgx.BeginFunc\<close>, or one statement, on a table; \<open>net\<close> is as in the job repository and \<open>lost\<close> the
  error the caller sees when its connection is gone.\<close>

definition run_tx :: "'e \<Rightarrow> net \<Rightarrow> ('s \<Rightarrow> 'e + 'a \<times> 's) \<Rightarrow> 's \<Rightarrow> ('e + 'a) \<times> 's" where
  "run_tx lost n body d =
     (case n of
        LostBefore \<Rightarrow> (Inl lost, d)
      | Works \<Rightarrow> (case body d of Inl e \<Rightarrow> (Inl e, d) | Inr (a, d') \<Rightarrow> (Inr a, d'))
      | LostAfter \<Rightarrow> (case body d of Inl e \<Rightarrow> (Inl e, d) | Inr (a, d') \<Rightarrow> (Inl lost, d')))"

abbreviation client_tx ::
  "net \<Rightarrow> (client_row list \<Rightarrow> client_error + 'a \<times> client_row list) \<Rightarrow> client_row list
     \<Rightarrow> (client_error + 'a) \<times> client_row list" where
  "client_tx \<equiv> run_tx ClientConnectionLost"

lemma snd_run_tx:
  "P d \<Longrightarrow> (\<And>a d'. body d = Inr (a, d') \<Longrightarrow> P d') \<Longrightarrow> P (snd (run_tx lost n body d))"
  by (auto simp: run_tx_def split: net.splits sum.splits prod.splits)

text \<open>\<open>fresh\<close> is the identifier the database generates.\<close>

definition clients_Create :: "net \<Rightarrow> uuid \<Rightarrow> string \<Rightarrow> string \<Rightarrow> client_row list \<Rightarrow> (client_error + uuid) \<times> client_row list" where
  "clients_Create n fresh nm primaryKeyHash =
     client_tx n (\<lambda>d.
       if fresh \<in> c_id ` set d \<or> Some primaryKeyHash \<in> api_key_hash ` set d then Inl ClientConstraint
       else Inr (fresh, d @ [\<lparr>c_id = fresh, c_name = nm, api_key_hash = Some primaryKeyHash,
         api_key_hash_secondary = None, primary_revoked_at = None, secondary_revoked_at = None\<rparr>]))"

definition active_key :: "string \<Rightarrow> client_row \<Rightarrow> bool" where
  "active_key h c \<longleftrightarrow>
     (api_key_hash c = Some h \<and> primary_revoked_at c = None)
     \<or> (api_key_hash_secondary c = Some h \<and> secondary_revoked_at c = None)"

definition GetByKeyHash :: "net \<Rightarrow> string \<Rightarrow> client_row list \<Rightarrow> client_error + client" where
  "GetByKeyHash n h d =
     (if n \<noteq> Works then Inl ClientConnectionLost
      else case find (active_key h) d of
             None \<Rightarrow> Inl ClientNotFound
           | Some c \<Rightarrow> Inr \<lparr>cl_ID = c_id c, cl_Name = c_name c\<rparr>)"

definition update_client :: "uuid \<Rightarrow> (client_row \<Rightarrow> client_row) \<Rightarrow> client_row list \<Rightarrow> client_row list" where
  "update_client i f d = map (\<lambda>c. if c_id c = i then f c else c) d"

definition AddSecondaryKey :: "net \<Rightarrow> uuid \<Rightarrow> string \<Rightarrow> client_row list \<Rightarrow> (client_error + unit) \<times> client_row list" where
  "AddSecondaryKey n i h =
     client_tx n (\<lambda>d.
       case find (\<lambda>c. c_id c = i) d of
         None \<Rightarrow> Inl ClientNotFound
       | Some c \<Rightarrow>
           if api_key_hash_secondary c \<noteq> None \<and> secondary_revoked_at c = None then Inl (ActiveSecondary i)
           else if \<exists>c' \<in> set d. c_id c' \<noteq> i \<and> api_key_hash_secondary c' = Some h then Inl ClientConstraint
           else Inr ((), update_client i (\<lambda>c. c\<lparr>api_key_hash_secondary := Some h, secondary_revoked_at := None\<rparr>) d))"

definition RevokeKey :: "net \<Rightarrow> time \<Rightarrow> uuid \<Rightarrow> string \<Rightarrow> client_row list \<Rightarrow> (client_error + unit) \<times> client_row list" where
  "RevokeKey n now i slot d =
     (if slot \<noteq> ''primary'' \<and> slot \<noteq> ''secondary'' then (Inl (InvalidSlot slot), d)
      else client_tx n (\<lambda>d.
        if i \<notin> c_id ` set d then Inl ClientNotFound
        else Inr ((), update_client i (\<lambda>c.
          if slot = ''primary'' then c\<lparr>primary_revoked_at := Some now\<rparr>
          else c\<lparr>secondary_revoked_at := Some now\<rparr>) d)) d)"

subsection \<open>Resolver and middleware\<close>

datatype resolve_error = ErrInvalidKey | ResolveFailed

definition ResolveClient ::
  "(bytes \<Rightarrow> bytes) \<Rightarrow> bytes \<Rightarrow> net \<Rightarrow> client_row list \<Rightarrow> string \<Rightarrow> resolve_error + client" where
  "ResolveClient sha256 salt n d rawKey =
     (case GetByKeyHash n (HashKey sha256 salt rawKey) d of
        Inl ClientNotFound \<Rightarrow> Inl ErrInvalidKey
      | Inl _ \<Rightarrow> Inl ResolveFailed
      | Inr c \<Rightarrow> Inr c)"

text \<open>What the middleware does with a request: answer it itself or pass it on with the client.\<close>

datatype verdict = Answer nat string | Next client

definition Middleware :: "(string \<Rightarrow> resolve_error + client) \<Rightarrow> string \<Rightarrow> verdict" where
  "Middleware resolve header =
     (case ParseAPIKey header of
        None \<Rightarrow> Answer 401 ''missing or malformed Authorization header''
      | Some key \<Rightarrow>
          (case resolve key of
             Inl ErrInvalidKey \<Rightarrow> Answer 401 ''invalid api key''
           | Inl ResolveFailed \<Rightarrow> Answer 500 ''failed to resolve api key''
           | Inr c \<Rightarrow> Next c))"

subsection \<open>Keys survive the header\<close>

definition plain_key :: "string \<Rightarrow> bool" where
  "plain_key k \<longleftrightarrow> k \<noteq> [] \<and> (\<forall>c \<in> set k. \<not> is_space c)"

lemma fields_word: "\<forall>c \<in> set w. \<not> is_space c \<Longrightarrow> fields_acc cur (w @ r) = fields_acc (cur @ w) r"
  by (induction w arbitrary: cur) simp_all

lemma Parse_plain: "plain_key k \<Longrightarrow> ParseAPIKey (''ApiKey '' @ k) = Some k"
proof -
  assume k: "plain_key k"
  have "Fields (''ApiKey '' @ k) = [''ApiKey'', k]"
    using k fields_word [of k "[]" "[]"] by (simp add: Fields_def is_space_def plain_key_def)
  then show ?thesis by (simp add: ParseAPIKey_def EqualFold_def authScheme_def)
qed

lemma b64_char_plain: "\<not> is_space (b64_char n)"
proof -
  have "b64_char n \<in> set b64_alphabet"
    unfolding b64_char_def by (rule nth_mem) (simp add: b64_alphabet_def)
  moreover have "\<forall>c \<in> set b64_alphabet. \<not> is_space c" by (simp add: b64_alphabet_def is_space_def)
  ultimately show ?thesis by blast
qed

lemma base64url_plain: "\<forall>c \<in> set (base64url bs). \<not> is_space c"
  by (induction bs rule: base64url.induct) (simp_all add: b64_char_plain)

lemma base64url_length: "length (base64url bs) = (length bs * 4 + 2) div 3"
  by (induction bs rule: base64url.induct) simp_all

lemma generated_plain:
  assumes "GenerateKey (Some buf) = Some k" "length buf = 32"
  shows "plain_key k \<and> length k = 43"
proof -
  have k: "k = base64url buf" using assms(1) by (simp add: GenerateKey_def)
  have len: "length k = 43" unfolding k base64url_length assms(2) by simp
  then have "k \<noteq> []" by fastforce
  with len base64url_plain [of buf] show ?thesis unfolding plain_key_def k by blast
qed

subsection \<open>Lookups\<close>

lemma find_unique:
  assumes "x \<in> set xs" "P x" "\<And>y. y \<in> set xs \<Longrightarrow> P y \<Longrightarrow> y = x"
  shows "find P xs = Some x"
proof (cases "find P xs")
  case None
  with assms(1,2) show ?thesis by (simp add: find_None_iff)
next
  case (Some y)
  then have "y \<in> set xs" "P y" by (auto simp: find_Some_iff)
  with assms(3) Some show ?thesis by simp
qed

lemma find_id: "distinct (map c_id d) \<Longrightarrow> c \<in> set d \<Longrightarrow> find (\<lambda>x. c_id x = c_id c) d = Some c"
  by (rule find_by_key)

text \<open>How the service treats a request that carries a key.\<close>

definition admitted :: "(bytes \<Rightarrow> bytes) \<Rightarrow> bytes \<Rightarrow> client_row list \<Rightarrow> string \<Rightarrow> verdict" where
  "admitted sha256 salt d k = Middleware (ResolveClient sha256 salt Works d) (''ApiKey '' @ k)"

lemma admitted_eq:
  "plain_key k \<Longrightarrow> admitted sha256 salt d k =
     (case find (active_key (HashKey sha256 salt k)) d of
        None \<Rightarrow> Answer 401 ''invalid api key''
      | Some c \<Rightarrow> Next \<lparr>cl_ID = c_id c, cl_Name = c_name c\<rparr>)"
  unfolding admitted_def Middleware_def
  by (subst Parse_plain, assumption) (simp add: ResolveClient_def GetByKeyHash_def split: option.split)

lemma update_client_find:
  assumes "distinct (map c_id d)" "c \<in> set d" "P (f c)" "\<And>c'. c' \<in> set d \<Longrightarrow> c' \<noteq> c \<Longrightarrow> \<not> P c'"
  shows "find P (update_client (c_id c) f d) = Some (f c)"
proof (rule find_unique)
  show "f c \<in> set (update_client (c_id c) f d)" using assms(2) by (auto simp: update_client_def)
  show "P (f c)" by (rule assms(3))
  show "y = f c" if y: "y \<in> set (update_client (c_id c) f d)" "P y" for y
  proof -
    from y(1) obtain x where x: "x \<in> set d" "y = (if c_id x = c_id c then f x else x)"
      by (auto simp: update_client_def)
    show ?thesis
    proof (cases "c_id x = c_id c")
      case True
      with assms(1,2) x(1) have "x = c" by (auto simp: distinct_map inj_on_def)
      with x(2) show ?thesis by simp
    next
      case False
      with x y(2) assms(4) [OF x(1)] show ?thesis by auto
    qed
  qed
qed

lemma update_client_none:
  assumes "\<not> P (f c)" "c \<in> set d" "distinct (map c_id d)" "\<And>c'. c' \<in> set d \<Longrightarrow> c' \<noteq> c \<Longrightarrow> \<not> P c'"
  shows "find P (update_client (c_id c) f d) = None"
proof -
  have "\<not> P y" if "y \<in> set (update_client (c_id c) f d)" for y
    using that assms by (auto simp: update_client_def distinct_map inj_on_def split: if_splits)
  then show ?thesis by (simp add: find_None_iff)
qed

lemma update_client_twice:
  "(\<And>c. c_id (f c) = c_id c) \<Longrightarrow> update_client i g (update_client i f d) = update_client i (\<lambda>c. g (f c)) d"
  by (auto simp: update_client_def)

lemma update_client_other:
  "(\<And>x. x \<in> set d \<Longrightarrow> c_id x = i \<Longrightarrow> \<not> P x \<and> \<not> P (f x)) \<Longrightarrow> find P (update_client i f d) = find P d"
  by (induction d) (auto simp: update_client_def)

subsection \<open>Properties\<close>

text \<open>C20: Key rotation without downtime: a client with an active primary key and a free second slot
  adds a second key and then revokes either slot. Both steps succeed. After the first step both keys
  are admitted as that client; after the second exactly the key of the revoked slot is answered 401
  and the other one still is admitted as that client; and every other key is treated as before the
  rotation. The digests of the two keys differ from each other, the new one is unused, and the old
  one is active for no other client.\<close>

theorem key_rotation:
  assumes keys: "plain_key old" "plain_key new"
    and ids: "distinct (map c_id d)" "c \<in> set d"
    and primary: "api_key_hash c = Some (HashKey sha256 salt old)" "primary_revoked_at c = None"
    and free: "api_key_hash_secondary c = None \<or> secondary_revoked_at c \<noteq> None"
    and diff: "HashKey sha256 salt new \<noteq> HashKey sha256 salt old"
    and unused: "\<And>c'. c' \<in> set d \<Longrightarrow> api_key_hash c' \<noteq> Some (HashKey sha256 salt new)
        \<and> api_key_hash_secondary c' \<noteq> Some (HashKey sha256 salt new)"
    and own: "\<And>c'. c' \<in> set d \<Longrightarrow> c' \<noteq> c \<Longrightarrow> \<not> active_key (HashKey sha256 salt old) c'"
    and slot: "slot = ''primary'' \<or> slot = ''secondary''"
    and d1: "AddSecondaryKey Works (c_id c) (HashKey sha256 salt new) d = (r1, d1)"
    and d2: "RevokeKey Works now (c_id c) slot d1 = (r2, d2)"
  shows "r1 = Inr () \<and> r2 = Inr ()
    \<and> admitted sha256 salt d1 old = Next \<lparr>cl_ID = c_id c, cl_Name = c_name c\<rparr>
    \<and> admitted sha256 salt d1 new = Next \<lparr>cl_ID = c_id c, cl_Name = c_name c\<rparr>
    \<and> admitted sha256 salt d2 (if slot = ''primary'' then new else old)
        = Next \<lparr>cl_ID = c_id c, cl_Name = c_name c\<rparr>
    \<and> admitted sha256 salt d2 (if slot = ''primary'' then old else new) = Answer 401 ''invalid api key''
    \<and> (\<forall>k. plain_key k \<and> HashKey sha256 salt k \<noteq> HashKey sha256 salt old
          \<and> HashKey sha256 salt k \<noteq> HashKey sha256 salt new \<longrightarrow>
          admitted sha256 salt d1 k = admitted sha256 salt d k \<and> admitted sha256 salt d2 k = admitted sha256 salt d k)"
proof -
  let ?f = "\<lambda>x. x\<lparr>api_key_hash_secondary := Some (HashKey sha256 salt new), secondary_revoked_at := None\<rparr>"
  let ?r = "\<lambda>x. if slot = ''primary'' then x\<lparr>primary_revoked_at := Some now\<rparr> else x\<lparr>secondary_revoked_at := Some now\<rparr>"
  let ?g = "\<lambda>x. ?r (?f x)"
  have r1: "r1 = Inr ()" "d1 = update_client (c_id c) ?f d"
    using d1 free unused find_id [OF ids] by (auto simp: AddSecondaryKey_def run_tx_def split: if_splits)
  have "?f c \<in> set d1" using ids(2) by (auto simp: r1 update_client_def)
  then have "c_id c \<in> c_id ` set d1" by (rule rev_image_eqI) simp
  then have r2: "r2 = Inr ()" "d2 = update_client (c_id c) ?g d"
    using d2 slot by (auto simp: RevokeKey_def run_tx_def r1 update_client_twice)
  have other: "\<not> active_key (HashKey sha256 salt new) c'" if "c' \<in> set d" for c'
    using unused [OF that] by (simp add: active_key_def)
  have same: "x = c" if "x \<in> set d" "c_id x = c_id c" for x
    using ids that by (auto simp: distinct_map inj_on_def)
  have "find (active_key (HashKey sha256 salt old)) d1 = Some (?f c)"
    unfolding r1 using ids own primary by (intro update_client_find) (auto simp: active_key_def)
  moreover have "find (active_key (HashKey sha256 salt new)) d1 = Some (?f c)"
    unfolding r1 using ids other by (intro update_client_find) (auto simp: active_key_def)
  moreover have "find (active_key (HashKey sha256 salt (if slot = ''primary'' then new else old))) d2 = Some (?g c)"
    unfolding r2 using ids other own primary by (intro update_client_find) (auto simp: active_key_def)
  moreover have "find (active_key (HashKey sha256 salt (if slot = ''primary'' then old else new))) d2 = None"
    unfolding r2 using ids own other diff primary by (intro update_client_none) (auto simp: active_key_def)
  moreover have "find (active_key h) d1 = find (active_key h) d \<and> find (active_key h) d2 = find (active_key h) d"
    if h: "h \<noteq> HashKey sha256 salt old" "h \<noteq> HashKey sha256 salt new" for h
  proof -
    have "\<not> active_key h c" "\<not> active_key h (?f c)" "\<not> active_key h (?g c)"
      using h primary free by (auto simp: active_key_def)
    then show ?thesis unfolding r1 r2 using same by (intro conjI update_client_other) metis+
  qed
  ultimately show ?thesis using keys by (simp add: admitted_eq r1(1) r2(1))
qed

text \<open>A table with two clients, and a digest that is the identity.\<close>

definition demo_hash :: "string \<Rightarrow> string" where
  "demo_hash k = HashKey (\<lambda>x. x) [] k"

definition demo_row :: client_row where
  "demo_row = \<lparr>c_id = 1, c_name = ''acme'', api_key_hash = Some (demo_hash ''k1''), api_key_hash_secondary = None,
     primary_revoked_at = None, secondary_revoked_at = None\<rparr>"

definition demo_clients :: "client_row list" where
  "demo_clients = [demo_row, demo_row\<lparr>c_id := 2, c_name := ''other'', api_key_hash := Some (demo_hash ''k3'')\<rparr>]"

theorem key_rotation_witness:
  "admitted (\<lambda>x. x) [] (snd (RevokeKey Works 9 1 ''primary''
      (snd (AddSecondaryKey Works 1 (demo_hash ''k2'') demo_clients)))) ''k2'' = Next \<lparr>cl_ID = 1, cl_Name = ''acme''\<rparr>
   \<and> admitted (\<lambda>x. x) [] (snd (RevokeKey Works 9 1 ''secondary''
      (snd (AddSecondaryKey Works 1 (demo_hash ''k2'') demo_clients)))) ''k2'' = Answer 401 ''invalid api key''"
proof -
  let ?a = "AddSecondaryKey Works 1 (demo_hash ''k2'') demo_clients"
  let ?b = "\<lambda>slot. RevokeKey Works 9 1 slot (snd ?a)"
  have h: "demo_hash ''k2'' \<noteq> demo_hash ''k1''" "demo_hash ''k2'' \<noteq> demo_hash ''k3''" "demo_hash ''k1'' \<noteq> demo_hash ''k3''"
    by code_simp+
  have k: "plain_key ''k1''" "plain_key ''k2''" by (simp_all add: plain_key_def is_space_def)
  have d: "distinct (map c_id demo_clients)" "demo_row \<in> set demo_clients"
    by (simp_all add: demo_clients_def demo_row_def)
  have p: "api_key_hash demo_row = Some (HashKey (\<lambda>x. x) [] ''k1'')" "primary_revoked_at demo_row = None"
    "api_key_hash_secondary demo_row = None \<or> secondary_revoked_at demo_row \<noteq> None"
    by (simp_all add: demo_row_def demo_hash_def)
  have u: "api_key_hash c' \<noteq> Some (HashKey (\<lambda>x. x) [] ''k2'') \<and> api_key_hash_secondary c' \<noteq> Some (HashKey (\<lambda>x. x) [] ''k2'')"
    if "c' \<in> set demo_clients" for c'
    using that h by (auto simp: demo_hash_def [symmetric] demo_clients_def demo_row_def)
  have o: "\<not> active_key (HashKey (\<lambda>x. x) [] ''k1'') c'" if "c' \<in> set demo_clients" "c' \<noteq> demo_row" for c'
    using that h by (auto simp: demo_hash_def [symmetric] demo_clients_def demo_row_def active_key_def)
  have i: "c_id demo_row = 1" "c_name demo_row = ''acme''" by (simp_all add: demo_row_def)
  note rot = key_rotation [OF k d p h(1) [unfolded demo_hash_def] u o]
  show ?thesis
    using rot [of "''primary''" "fst ?a" "snd ?a" 9 "fst (?b ''primary'')" "snd (?b ''primary'')"]
      rot [of "''secondary''" "fst ?a" "snd ?a" 9 "fst (?b ''secondary'')" "snd (?b ''secondary'')"]
    by (simp add: i demo_hash_def)
qed

end
