(* ===== verification/Presets.thy ===== *)
theory Presets
  imports Auth Opts
begin

text \<open>
  Named conversion presets: the repository \<open>internal/presets\<close> over the table \<open>presets\<close>. Creation is two
  statements that other processes can come between, so it takes what they do as an argument. The
  row's time stamps, which the repository only hands out, are left out.
\<close>

subsection \<open>The table\<close>

definition ScopeSystem :: string where "ScopeSystem = ''system''"
definition ScopeUser :: string where "ScopeUser = ''user''"
definition OperationConvert :: string where "OperationConvert = ''convert''"

lemmas preset_consts = ScopeSystem_def ScopeUser_def OperationConvert_def

record preset_row =
  pr_ID :: uuid
  pr_Name :: string
  pr_Version :: nat
  pr_Scope :: string
  pr_ClientID :: "uuid option"
  pr_Operation :: string
  pr_TargetFormat :: string
  pr_Options :: opts
  pr_Description :: string
  pr_IsActive :: bool

datatype preset_error = PresetNotFound | AlreadyExists | PresetConstraint | PresetConnectionLost

text \<open>The tuple a row belongs to: the \<open>WHERE\<close> clause on scope, owner and name.\<close>

definition of_tuple :: "string \<Rightarrow> uuid option \<Rightarrow> string \<Rightarrow> preset_row \<Rightarrow> bool" where
  "of_tuple scope cid nm p \<longleftrightarrow> pr_Scope p = scope \<and> pr_ClientID p = cid \<and> pr_Name p = nm"

text \<open>\<open>presets_scope_owner_chk\<close> and the two partial unique indexes.\<close>

definition scope_owner_chk :: "string \<Rightarrow> uuid option \<Rightarrow> bool" where
  "scope_owner_chk scope cid \<longleftrightarrow> (scope = ScopeSystem \<and> cid = None) \<or> (scope = ScopeUser \<and> cid \<noteq> None)"

definition unique_violation :: "preset_row \<Rightarrow> preset_row list \<Rightarrow> bool" where
  "unique_violation p d \<longleftrightarrow>
     (\<exists>q \<in> set d. of_tuple (pr_Scope p) (pr_ClientID p) (pr_Name p) q \<and> pr_Version q = pr_Version p)"

text \<open>\<open>ORDER BY (scope='user') DESC, version DESC LIMIT 1\<close>\<close>

definition preset_rank :: "preset_row \<Rightarrow> int \<times> int" where
  "preset_rank p = (if pr_Scope p = ScopeUser then 0 else 1, - int (pr_Version p))"

definition first_row :: "preset_row list \<Rightarrow> preset_row option" where
  "first_row ps = (case sort_key preset_rank ps of [] \<Rightarrow> None | p # _ \<Rightarrow> Some p)"

subsection \<open>Reading\<close>

definition visible :: "uuid \<Rightarrow> string \<Rightarrow> preset_row \<Rightarrow> bool" where
  "visible cid nm p \<longleftrightarrow> pr_Name p = nm \<and> pr_IsActive p \<and> pr_Operation p = OperationConvert
     \<and> ((pr_Scope p = ScopeSystem \<and> pr_ClientID p = None) \<or> (pr_Scope p = ScopeUser \<and> pr_ClientID p = Some cid))"

definition Resolve :: "net \<Rightarrow> uuid \<Rightarrow> string \<Rightarrow> preset_row list \<Rightarrow> preset_error + preset_row" where
  "Resolve n cid nm d =
     (if n \<noteq> Works then Inl PresetConnectionLost
      else case first_row (filter (visible cid nm) d) of None \<Rightarrow> Inl PresetNotFound | Some p \<Rightarrow> Inr p)"

text \<open>\<open>GetForClient\<close> runs the same query with more columns.\<close>

definition GetForClient :: "net \<Rightarrow> uuid \<Rightarrow> string \<Rightarrow> preset_row list \<Rightarrow> preset_error + preset_row" where
  "GetForClient n cid nm d =
     (if n \<noteq> Works then Inl PresetConnectionLost
      else case first_row (filter (visible cid nm) d) of None \<Rightarrow> Inl PresetNotFound | Some p \<Rightarrow> Inr p)"

definition preset_Get :: "net \<Rightarrow> string \<Rightarrow> uuid option \<Rightarrow> string \<Rightarrow> preset_row list \<Rightarrow> preset_error + preset_row" where
  "preset_Get n scope cid nm d =
     (if n \<noteq> Works then Inl PresetConnectionLost
      else case first_row (filter (\<lambda>p. of_tuple scope cid nm p \<and> pr_IsActive p) d) of
             None \<Rightarrow> Inl PresetNotFound | Some p \<Rightarrow> Inr p)"

definition preset_List :: "net \<Rightarrow> string \<Rightarrow> uuid option \<Rightarrow> bool \<Rightarrow> preset_row list \<Rightarrow> preset_error + preset_row list" where
  "preset_List n scope cid includeInactive d =
     (if n \<noteq> Works then Inl PresetConnectionLost
      else Inr (sort_key (\<lambda>p. (pr_Name p, - int (pr_Version p)))
        (filter (\<lambda>p. pr_Scope p = scope \<and> pr_ClientID p = cid \<and> (includeInactive \<or> pr_IsActive p)) d)))"

text \<open>A system row is listed for a client unless an active row of its own has the same name.\<close>

definition listed_for :: "uuid \<Rightarrow> preset_row list \<Rightarrow> preset_row \<Rightarrow> bool" where
  "listed_for cid d p \<longleftrightarrow>
     (pr_Scope p = ScopeUser \<and> pr_ClientID p = Some cid)
     \<or> (pr_Scope p = ScopeSystem \<and> pr_ClientID p = None
        \<and> \<not> (\<exists>u \<in> set d. of_tuple ScopeUser (Some cid) (pr_Name p) u \<and> pr_IsActive u))"

definition ListForClient :: "net \<Rightarrow> uuid \<Rightarrow> bool \<Rightarrow> preset_row list \<Rightarrow> preset_error + preset_row list" where
  "ListForClient n cid includeInactive d =
     (if n \<noteq> Works then Inl PresetConnectionLost
      else Inr (sort_key (\<lambda>p. (pr_Name p, preset_rank p))
        (filter (\<lambda>p. listed_for cid d p \<and> (includeInactive \<or> pr_IsActive p)) d)))"

subsection \<open>Writing\<close>

record preset_params =
  pp_Name :: string
  pp_Scope :: string
  pp_ClientID :: "uuid option"
  pp_TargetFormat :: string
  pp_Options :: "opts option"
  pp_Description :: string

definition opts_json :: "opts option \<Rightarrow> opts" where
  "opts_json m = (case m of None \<Rightarrow> [] | Some x \<Rightarrow> x)"

definition max_version :: "string \<Rightarrow> uuid option \<Rightarrow> string \<Rightarrow> preset_row list \<Rightarrow> nat" where
  "max_version scope cid nm d = Max (insert 0 (pr_Version ` {p \<in> set d. of_tuple scope cid nm p}))"

definition has_active :: "string \<Rightarrow> uuid option \<Rightarrow> string \<Rightarrow> preset_row list \<Rightarrow> bool" where
  "has_active scope cid nm d \<longleftrightarrow> (\<exists>p \<in> set d. of_tuple scope cid nm p \<and> pr_IsActive p)"

text \<open>The row the \<open>INSERT ... SELECT\<close> of \<open>Create\<close> writes.\<close>

definition new_preset :: "uuid \<Rightarrow> preset_params \<Rightarrow> preset_row list \<Rightarrow> preset_row" where
  "new_preset fresh pp d =
     \<lparr>pr_ID = fresh, pr_Name = pp_Name pp,
      pr_Version = max_version (pp_Scope pp) (pp_ClientID pp) (pp_Name pp) d + 1,
      pr_Scope = pp_Scope pp, pr_ClientID = pp_ClientID pp, pr_Operation = OperationConvert,
      pr_TargetFormat = pp_TargetFormat pp, pr_Options = opts_json (pp_Options pp),
      pr_Description = pp_Description pp, pr_IsActive = True\<rparr>"

definition insert_preset :: "net \<Rightarrow> uuid \<Rightarrow> preset_params \<Rightarrow> preset_row list \<Rightarrow> (preset_error + uuid \<times> nat) \<times> preset_row list" where
  "insert_preset n fresh pp =
     run_tx PresetConnectionLost n (\<lambda>d.
       let p = new_preset fresh pp d in
       if \<not> scope_owner_chk (pp_Scope pp) (pp_ClientID pp) \<or> fresh \<in> pr_ID ` set d then Inl PresetConstraint
       else if unique_violation p d then Inl AlreadyExists
       else Inr ((fresh, pr_Version p), d @ [p]))"

text \<open>\<open>between\<close> is what other processes do between the check and the insert; \<open>n1\<close> and \<open>n2\<close> are the two
  statements' connections.\<close>

definition preset_Create ::
  "net \<Rightarrow> net \<Rightarrow> uuid \<Rightarrow> preset_params \<Rightarrow> (preset_row list \<Rightarrow> preset_row list) \<Rightarrow> preset_row list
     \<Rightarrow> (preset_error + uuid \<times> nat) \<times> preset_row list" where
  "preset_Create n1 n2 fresh pp between d =
     (if n1 \<noteq> Works then (Inl PresetConnectionLost, d)
      else if has_active (pp_Scope pp) (pp_ClientID pp) (pp_Name pp) d then (Inl AlreadyExists, d)
      else insert_preset n2 fresh pp (between d))"

definition preset_Update ::
  "net \<Rightarrow> uuid \<Rightarrow> string \<Rightarrow> uuid option \<Rightarrow> string \<Rightarrow> string \<Rightarrow> opts option \<Rightarrow> string \<Rightarrow> preset_row list
     \<Rightarrow> (preset_error + nat) \<times> preset_row list" where
  "preset_Update n fresh scope cid nm target opt desc =
     run_tx PresetConnectionLost n (\<lambda>d.
       case find (\<lambda>p. of_tuple scope cid nm p \<and> pr_IsActive p) d of
         None \<Rightarrow> Inl PresetNotFound
       | Some cur \<Rightarrow>
           let v = pr_Version cur + 1;
               d1 = map (\<lambda>p. if of_tuple scope cid nm p \<and> pr_Version p = pr_Version cur
                             then p\<lparr>pr_IsActive := False\<rparr> else p) d;
               p = \<lparr>pr_ID = fresh, pr_Name = nm, pr_Version = v, pr_Scope = scope, pr_ClientID = cid,
                    pr_Operation = OperationConvert, pr_TargetFormat = target, pr_Options = opts_json opt,
                    pr_Description = desc, pr_IsActive = True\<rparr>
           in if unique_violation p d1 \<or> \<not> scope_owner_chk scope cid \<or> fresh \<in> pr_ID ` set d
              then Inl PresetConstraint
              else Inr (v, d1 @ [p]))"

definition preset_Deactivate ::
  "net \<Rightarrow> string \<Rightarrow> uuid option \<Rightarrow> string \<Rightarrow> preset_row list \<Rightarrow> (preset_error + unit) \<times> preset_row list" where
  "preset_Deactivate n scope cid nm =
     run_tx PresetConnectionLost n (\<lambda>d.
       case find (\<lambda>p. of_tuple scope cid nm p \<and> pr_IsActive p) d of
         None \<Rightarrow> Inl PresetNotFound
       | Some cur \<Rightarrow> Inr ((), map (\<lambda>p. if pr_ID p = pr_ID cur then p\<lparr>pr_IsActive := False\<rparr> else p) d))"

subsection \<open>Checking options at write time\<close>

definition ValidateOptsJSON :: "opts \<Rightarrow> bool" where
  "ValidateOptsJSON om =
     (if om = [] then True
      else let raw = marshal_map om in
        (case ParseDocOpts raw of
           Inr _ \<Rightarrow> True
         | Inl _ \<Rightarrow> (case ParseHTMLOpts raw of Inr _ \<Rightarrow> True | Inl _ \<Rightarrow> False)))"

text \<open>
  Options the audio engine accepts cannot be stored in a preset: the check knows the document and
  print schemas only, although a resolved preset is applied to every engine.
\<close>

theorem audio_preset_refused:
  "ParseAudioOpts (marshal_map [(''language'', JsonStr ''en'')]) = Inr \<lparr>Language = ''en'', Translate = False\<rparr>
   \<and> \<not> ValidateOptsJSON [(''language'', JsonStr ''en'')]"
  by (simp add: ValidateOptsJSON_def ParseAudioOpts_def ParseDocOpts_def ParseHTMLOpts_def decode_simps
      audio_fields_def doc_fields_def html_fields_def zero_AudioOpts_def zero_DocOpts_def zero_HTMLOpts_def
      audioLanguageAllowlist_def ToLower_def lower_char_def Let_def)

subsection \<open>The version invariant\<close>

abbreviation same_tuple :: "preset_row \<Rightarrow> preset_row \<Rightarrow> bool" where
  "same_tuple p q \<equiv> of_tuple (pr_Scope p) (pr_ClientID p) (pr_Name p) q"

text \<open>Identifiers and versions are unique, and an active row has the highest version of its tuple.\<close>

definition preset_ok :: "preset_row list \<Rightarrow> bool" where
  "preset_ok d \<longleftrightarrow> distinct (map pr_ID d)
     \<and> (\<forall>p \<in> set d. \<forall>q \<in> set d. same_tuple p q \<and> pr_Version p = pr_Version q \<longrightarrow> p = q)
     \<and> (\<forall>p \<in> set d. \<forall>q \<in> set d. pr_IsActive p \<and> same_tuple p q \<longrightarrow> pr_Version q \<le> pr_Version p)
     \<and> (\<forall>p \<in> set d. scope_owner_chk (pr_Scope p) (pr_ClientID p))"

lemma one_active:
  assumes "preset_ok d" "p \<in> set d" "q \<in> set d" "same_tuple p q" "pr_IsActive p" "pr_IsActive q"
  shows "p = q"
proof -
  have "same_tuple q p" using assms(4) by (auto simp: of_tuple_def)
  then have "pr_Version p = pr_Version q" using assms unfolding preset_ok_def by (meson le_antisym)
  with assms show ?thesis by (simp add: preset_ok_def)
qed

lemma max_version_ge: "q \<in> set d \<Longrightarrow> of_tuple s c n q \<Longrightarrow> pr_Version q \<le> max_version s c n d"
  by (auto simp: max_version_def intro!: Max_ge)

lemma ok_append:
  assumes ok: "preset_ok d" and id: "pr_ID p \<notin> pr_ID ` set d" and chk: "scope_owner_chk (pr_Scope p) (pr_ClientID p)"
    and newest: "\<And>q. q \<in> set d \<Longrightarrow> same_tuple p q \<Longrightarrow> pr_Version q < pr_Version p \<and> \<not> pr_IsActive q"
  shows "preset_ok (d @ [p])"
proof -
  have sym: "same_tuple q p \<longleftrightarrow> same_tuple p q" for q by (auto simp: of_tuple_def)
  show ?thesis
    unfolding preset_ok_def
    using ok id chk newest by (fastforce simp: preset_ok_def sym)
qed

lemma ok_deactivate:
  assumes ok: "preset_ok d"
  shows "preset_ok (map (\<lambda>p. if P p then p\<lparr>pr_IsActive := False\<rparr> else p) d)" (is "preset_ok (map ?f d)")
proof -
  have f: "pr_ID (?f p) = pr_ID p" "pr_Version (?f p) = pr_Version p" "pr_Scope (?f p) = pr_Scope p"
    "pr_ClientID (?f p) = pr_ClientID p" "pr_Name (?f p) = pr_Name p" "pr_IsActive (?f p) \<longrightarrow> pr_IsActive p" for p
    by auto
  have ids: "map pr_ID (map ?f d) = map pr_ID d" by (simp add: f(1))
  have "?f p = ?f q" if "p \<in> set d" "q \<in> set d" "same_tuple (?f p) (?f q)" "pr_Version (?f p) = pr_Version (?f q)" for p q
  proof -
    have "p = q" using ok that unfolding preset_ok_def of_tuple_def f by blast
    then show ?thesis by simp
  qed
  moreover have "pr_Version (?f q) \<le> pr_Version (?f p)"
    if "p \<in> set d" "q \<in> set d" "pr_IsActive (?f p)" "same_tuple (?f p) (?f q)" for p q
    using ok that f(6) unfolding preset_ok_def of_tuple_def f(1-5) by blast
  moreover have "scope_owner_chk (pr_Scope (?f p)) (pr_ClientID (?f p))" if "p \<in> set d" for p
    using ok that unfolding preset_ok_def f by blast
  ultimately show ?thesis
    using ok unfolding preset_ok_def ids set_map by blast
qed

subsection \<open>The contract of a write\<close>

text \<open>Every version stays on record with its content, and none is ever activated again.\<close>

definition versions_kept :: "preset_row list \<Rightarrow> preset_row list \<Rightarrow> bool" where
  "versions_kept d d' \<longleftrightarrow>
     (\<forall>p \<in> set d. \<exists>p' \<in> set d'. p'\<lparr>pr_IsActive := pr_IsActive p\<rparr> = p \<and> (pr_IsActive p' \<longrightarrow> pr_IsActive p))"

lemma same_flag [simp]: "p\<lparr>pr_IsActive := pr_IsActive p\<rparr> = p" for p :: preset_row
  by (cases p) simp

lemma kept_refl [simp]: "versions_kept d d"
  unfolding versions_kept_def using same_flag by blast

lemma kept_trans: "versions_kept a b \<Longrightarrow> versions_kept b c \<Longrightarrow> versions_kept a c"
  unfolding versions_kept_def
proof
  fix p
  assume ab: "\<forall>p \<in> set a. \<exists>p' \<in> set b. p'\<lparr>pr_IsActive := pr_IsActive p\<rparr> = p \<and> (pr_IsActive p' \<longrightarrow> pr_IsActive p)"
    and bc: "\<forall>p \<in> set b. \<exists>p' \<in> set c. p'\<lparr>pr_IsActive := pr_IsActive p\<rparr> = p \<and> (pr_IsActive p' \<longrightarrow> pr_IsActive p)"
    and p: "p \<in> set a"
  from ab p obtain q where q: "q \<in> set b" "q\<lparr>pr_IsActive := pr_IsActive p\<rparr> = p" "pr_IsActive q \<longrightarrow> pr_IsActive p"
    by blast
  from bc q(1) obtain r where r: "r \<in> set c" "r\<lparr>pr_IsActive := pr_IsActive q\<rparr> = q" "pr_IsActive r \<longrightarrow> pr_IsActive q"
    by blast
  have "r\<lparr>pr_IsActive := pr_IsActive p\<rparr> = r\<lparr>pr_IsActive := pr_IsActive q, pr_IsActive := pr_IsActive p\<rparr>" by simp
  also have "\<dots> = p" using q(2) r(2) by simp
  finally show "\<exists>p' \<in> set c. p'\<lparr>pr_IsActive := pr_IsActive p\<rparr> = p \<and> (pr_IsActive p' \<longrightarrow> pr_IsActive p)"
    using q r by blast
qed

lemma kept_deactivate: "versions_kept d (map (\<lambda>p. if P p then p\<lparr>pr_IsActive := False\<rparr> else p) d)"
  unfolding versions_kept_def
proof
  fix p
  assume "p \<in> set d"
  then show "\<exists>p' \<in> set (map (\<lambda>p. if P p then p\<lparr>pr_IsActive := False\<rparr> else p) d).
      p'\<lparr>pr_IsActive := pr_IsActive p\<rparr> = p \<and> (pr_IsActive p' \<longrightarrow> pr_IsActive p)"
    by (intro bexI [of _ "if P p then p\<lparr>pr_IsActive := False\<rparr> else p"]) auto
qed

lemma kept_append: "versions_kept d d' \<Longrightarrow> versions_kept d (d' @ xs)"
  by (auto simp: versions_kept_def)

locale preset_write =
  fixes call :: "preset_row list \<Rightarrow> preset_row list"
  assumes call_ok: "preset_ok d \<Longrightarrow> preset_ok (call d)"
    and call_kept: "versions_kept d (call d)"
begin

lemma after_write:
  "preset_ok d \<Longrightarrow> versions_kept d0 d \<Longrightarrow> preset_ok (call d) \<and> versions_kept d0 (call d)"
  using call_ok call_kept kept_trans by blast

end

lemma update_ok:
  assumes ok: "preset_ok d"
  shows "preset_ok (snd (preset_Update n fresh scope cid nm target opt desc d))"
  unfolding preset_Update_def
proof (rule snd_run_tx [where P = preset_ok, OF ok])
  fix a d'
  let ?act = "\<lambda>p. of_tuple scope cid nm p \<and> pr_IsActive p"
  assume "(case find ?act d of None \<Rightarrow> Inl PresetNotFound | Some cur \<Rightarrow>
      let v = pr_Version cur + 1;
          d1 = map (\<lambda>p. if of_tuple scope cid nm p \<and> pr_Version p = pr_Version cur then p\<lparr>pr_IsActive := False\<rparr> else p) d;
          p = \<lparr>pr_ID = fresh, pr_Name = nm, pr_Version = v, pr_Scope = scope, pr_ClientID = cid,
               pr_Operation = OperationConvert, pr_TargetFormat = target, pr_Options = opts_json opt,
               pr_Description = desc, pr_IsActive = True\<rparr>
      in if unique_violation p d1 \<or> \<not> scope_owner_chk scope cid \<or> fresh \<in> pr_ID ` set d
         then Inl PresetConstraint else Inr (v, d1 @ [p])) = Inr (a, d')"
  then obtain cur where cur: "find ?act d = Some cur" and chk: "scope_owner_chk scope cid" "fresh \<notin> pr_ID ` set d"
    and d': "d' = map (\<lambda>p. if of_tuple scope cid nm p \<and> pr_Version p = pr_Version cur then p\<lparr>pr_IsActive := False\<rparr> else p) d
      @ [\<lparr>pr_ID = fresh, pr_Name = nm, pr_Version = pr_Version cur + 1, pr_Scope = scope, pr_ClientID = cid,
          pr_Operation = OperationConvert, pr_TargetFormat = target, pr_Options = opts_json opt,
          pr_Description = desc, pr_IsActive = True\<rparr>]"
    by (auto simp: Let_def split: option.splits if_splits)
  from cur have c: "cur \<in> set d" "of_tuple scope cid nm cur" "pr_IsActive cur"
    by (auto simp: find_Some_iff)
  have newest: "pr_Version q \<le> pr_Version cur" "pr_IsActive q \<longrightarrow> pr_Version q = pr_Version cur"
    if "q \<in> set d" "of_tuple scope cid nm q" for q
    using ok c that one_active [OF ok c(1) that(1)] by (auto simp: preset_ok_def of_tuple_def)
  let ?f = "\<lambda>p. if of_tuple scope cid nm p \<and> pr_Version p = pr_Version cur then p\<lparr>pr_IsActive := False\<rparr> else p"
  have ids: "pr_ID ` set (map ?f d) = pr_ID ` set d"
    unfolding set_map image_image by (rule image_cong) simp_all
  have old: "pr_Version q' < pr_Version cur + 1 \<and> \<not> pr_IsActive q'"
    if "q' \<in> set (map ?f d)" "of_tuple scope cid nm q'" for q'
  proof -
    from that(1) obtain q where q: "q \<in> set d" "q' = ?f q" by auto
    with that(2) have "of_tuple scope cid nm q" by (auto simp: of_tuple_def split: if_splits)
    with newest [OF q(1)] q(2) show ?thesis by (auto split: if_splits)
  qed
  show "preset_ok d'"
    unfolding d'
  proof (rule ok_append)
    show "preset_ok (map ?f d)" by (rule ok_deactivate [OF ok])
  qed (simp_all only: ids chk old preset_row.simps not_False_eq_True simp_thms)
qed

lemma deactivate_ok: "preset_ok d \<Longrightarrow> preset_ok (snd (preset_Deactivate n scope cid nm d))"
  unfolding preset_Deactivate_def
  by (rule snd_run_tx [where P = preset_ok]) (auto split: option.splits intro: ok_deactivate)

lemma update_kept: "versions_kept d (snd (preset_Update n fresh scope cid nm target opt desc d))"
  unfolding preset_Update_def
  by (rule snd_run_tx [where P = "versions_kept d"])
    (auto simp: Let_def split: option.splits if_splits intro: kept_append kept_deactivate)

lemma deactivate_kept: "versions_kept d (snd (preset_Deactivate n scope cid nm d))"
  unfolding preset_Deactivate_def
  by (rule snd_run_tx [where P = "versions_kept d"]) (auto split: option.splits intro: kept_deactivate)

interpretation update_write: preset_write "\<lambda>d. snd (preset_Update n fresh scope cid nm target opt desc d)"
  for n fresh scope cid nm target opt desc
  by unfold_locales (rule update_ok, assumption, rule update_kept)

interpretation deactivate_write: preset_write "\<lambda>d. snd (preset_Deactivate n scope cid nm d)" for n scope cid nm
  by unfold_locales (rule deactivate_ok, assumption, rule deactivate_kept)

text \<open>An insert keeps the invariant when no active row appeared since the check.\<close>

lemma insert_ok:
  assumes "preset_ok d" "\<not> has_active (pp_Scope pp) (pp_ClientID pp) (pp_Name pp) d"
  shows "preset_ok (snd (insert_preset n fresh pp d))"
  unfolding insert_preset_def
proof (rule snd_run_tx [where P = preset_ok, OF assms(1)])
  fix a d'
  assume "(let p = new_preset fresh pp d in
       if \<not> scope_owner_chk (pp_Scope pp) (pp_ClientID pp) \<or> fresh \<in> pr_ID ` set d then Inl PresetConstraint
       else if unique_violation p d then Inl AlreadyExists
       else Inr ((fresh, pr_Version p), d @ [p])) = Inr (a, d')"
  then have "scope_owner_chk (pp_Scope pp) (pp_ClientID pp)" "fresh \<notin> pr_ID ` set d" "d' = d @ [new_preset fresh pp d]"
    by (auto simp: Let_def split: if_splits)
  then show "preset_ok d'"
    using assms max_version_ge by (auto simp: new_preset_def has_active_def less_Suc_eq_le intro!: ok_append)
qed

lemma insert_kept: "versions_kept d (snd (insert_preset n fresh pp d))"
  unfolding insert_preset_def
  by (rule snd_run_tx [where P = "versions_kept d"])
    (auto simp: Let_def split: if_splits intro: kept_append)

text \<open>A creation nobody comes between.\<close>

lemma create_alone_ok: "preset_ok d \<Longrightarrow> preset_ok (snd (preset_Create n1 n2 fresh pp (\<lambda>d. d) d))"
  by (simp add: preset_Create_def insert_ok)

lemma create_alone_kept: "versions_kept d (snd (preset_Create n1 n2 fresh pp (\<lambda>d. d) d))"
  by (simp add: preset_Create_def insert_kept)

interpretation create_write: preset_write "\<lambda>d. snd (preset_Create n1 n2 fresh pp (\<lambda>d. d) d)" for n1 n2 fresh pp
  by unfold_locales (rule create_alone_ok, assumption, rule create_alone_kept)

subsection \<open>Runs\<close>

text \<open>Creations that no other creation comes between, updates and deactivations, by any processes.\<close>

inductive preset_run :: "preset_row list \<Rightarrow> preset_row list \<Rightarrow> bool" where
  start: "preset_run d d"
| create: "preset_run d0 d \<Longrightarrow> preset_run d0 (snd (preset_Create n1 n2 fresh pp (\<lambda>d. d) d))"
| update: "preset_run d0 d \<Longrightarrow> preset_run d0 (snd (preset_Update n fresh scope cid nm target opt desc d))"
| deactivate: "preset_run d0 d \<Longrightarrow> preset_run d0 (snd (preset_Deactivate n scope cid nm d))"

lemma run_keeps: "preset_run d0 d \<Longrightarrow> preset_ok d0 \<Longrightarrow> preset_ok d \<and> versions_kept d0 d"
proof (induction rule: preset_run.induct)
  case (create d0 d n1 n2 fresh pp)
  then show ?case by (intro create_write.after_write) simp_all
next
  case (update d0 d n fresh scope cid nm target opt desc)
  then show ?case by (intro update_write.after_write) simp_all
next
  case (deactivate d0 d n scope cid nm)
  then show ?case by (intro deactivate_write.after_write) simp_all
qed simp

subsection \<open>Resolution\<close>

lemma first_row_best:
  "first_row ps = Some p \<Longrightarrow> p \<in> set ps \<and> (\<forall>q \<in> set ps. preset_rank p \<le> preset_rank q)"
proof -
  assume "first_row ps = Some p"
  then obtain qs where s: "sort_key preset_rank ps = p # qs"
    by (auto simp: first_row_def split: list.splits)
  have "sorted (map preset_rank (p # qs))" unfolding s [symmetric] by (rule sorted_sort_key)
  moreover have "set (p # qs) = set ps" unfolding s [symmetric] by simp
  ultimately show ?thesis by auto
qed

lemma first_row_None: "first_row ps = None \<longleftrightarrow> ps = []"
proof -
  have "sort_key preset_rank ps = [] \<longleftrightarrow> ps = []"
    by (metis length_0_conv length_sort)
  then show ?thesis by (auto simp: first_row_def split: list.splits)
qed

subsection \<open>A race between two creations\<close>

definition demo_preset :: preset_params where
  "demo_preset = \<lparr>pp_Name = ''web'', pp_Scope = ScopeUser, pp_ClientID = Some 1, pp_TargetFormat = ''webp'',
     pp_Options = None, pp_Description = []\<rparr>"

definition web_preset :: "uuid \<Rightarrow> nat \<Rightarrow> preset_row" where
  "web_preset i v = \<lparr>pr_ID = i, pr_Name = ''web'', pr_Version = v, pr_Scope = ScopeUser, pr_ClientID = Some 1,
     pr_Operation = OperationConvert, pr_TargetFormat = ''webp'', pr_Options = [], pr_Description = [],
     pr_IsActive = True\<rparr>"

lemma create_first: "preset_Create Works Works 1 demo_preset (\<lambda>d. d) [] = (Inr (1, 1), [web_preset 1 1])"
  by (simp add: preset_Create_def has_active_def insert_preset_def run_tx_def Let_def new_preset_def demo_preset_def
      max_version_def scope_owner_chk_def unique_violation_def opts_json_def web_preset_def)

text \<open>
  The check and the insert are separate statements: when another creation of the same preset commits
  between them, the insert computes the next version instead of colliding on the unique index. Both
  calls succeed, two versions are active, and an update that locks the older one fails.
\<close>

theorem concurrent_creates_both_active:
  "preset_Create Works Works 2 demo_preset (\<lambda>d. snd (preset_Create Works Works 1 demo_preset (\<lambda>d. d) d)) []
     = (Inr (2, 2), [web_preset 1 1, web_preset 2 2])
   \<and> \<not> preset_ok [web_preset 1 1, web_preset 2 2]
   \<and> fst (preset_Update Works 3 ScopeUser (Some 1) ''web'' ''png'' None [] [web_preset 1 1, web_preset 2 2])
     = Inl PresetConstraint"
proof (intro conjI)
  have "insert_preset Works 2 demo_preset [web_preset 1 1] = (Inr (2, 2), [web_preset 1 1, web_preset 2 2])"
    by (simp add: insert_preset_def run_tx_def Let_def new_preset_def demo_preset_def max_version_def
        of_tuple_def scope_owner_chk_def unique_violation_def opts_json_def web_preset_def)
  then show "preset_Create Works Works 2 demo_preset (\<lambda>d. snd (preset_Create Works Works 1 demo_preset (\<lambda>d. d) d)) []
     = (Inr (2, 2), [web_preset 1 1, web_preset 2 2])"
    unfolding create_first snd_conv preset_Create_def [of _ _ 2] by (simp add: has_active_def)
  show "\<not> preset_ok [web_preset 1 1, web_preset 2 2]"
    by (simp add: preset_ok_def web_preset_def of_tuple_def)
  show "fst (preset_Update Works 3 ScopeUser (Some 1) ''web'' ''png'' None [] [web_preset 1 1, web_preset 2 2])
     = Inl PresetConstraint"
    by (simp add: preset_Update_def run_tx_def Let_def of_tuple_def web_preset_def unique_violation_def)
qed

subsection \<open>What a successful write leaves active\<close>

abbreviation active_rows :: "string \<Rightarrow> uuid option \<Rightarrow> string \<Rightarrow> preset_row list \<Rightarrow> preset_row set" where
  "active_rows scope cid nm d \<equiv> {q \<in> set d. of_tuple scope cid nm q \<and> pr_IsActive q}"

lemma only_active:
  assumes "preset_ok d" "p \<in> set d" "pr_IsActive p"
  shows "active_rows (pr_Scope p) (pr_ClientID p) (pr_Name p) d = {p}"
  using one_active [OF assms(1,2)] assms(2,3) by (auto simp: of_tuple_def)

lemma update_active:
  assumes ok: "preset_ok d" and u: "preset_Update n fresh scope cid nm target opt desc d = (Inr v, d')"
  shows "active_rows scope cid nm d' = {\<lparr>pr_ID = fresh, pr_Name = nm, pr_Version = v, pr_Scope = scope,
      pr_ClientID = cid, pr_Operation = OperationConvert, pr_TargetFormat = target, pr_Options = opts_json opt,
      pr_Description = desc, pr_IsActive = True\<rparr>}" (is "_ = {?p}")
    and "q \<in> set d \<Longrightarrow> of_tuple scope cid nm q \<Longrightarrow> pr_Version q < v"
proof -
  from u obtain cur where cur: "find (\<lambda>p. of_tuple scope cid nm p \<and> pr_IsActive p) d = Some cur"
    and v: "v = pr_Version cur + 1" and p: "?p \<in> set d'"
    by (auto simp: preset_Update_def run_tx_def Let_def split: net.splits option.splits if_splits)
  have "preset_ok d'" using update_ok [OF ok, of n fresh scope cid nm target opt desc] u by simp
  from only_active [OF this p] show "active_rows scope cid nm d' = {?p}" by simp
  from cur have "cur \<in> set d" "of_tuple scope cid nm cur" "pr_IsActive cur" by (auto simp: find_Some_iff)
  then show "pr_Version q < v" if "q \<in> set d" "of_tuple scope cid nm q"
    using ok that unfolding v preset_ok_def of_tuple_def by (metis less_add_one order_le_less_trans)
qed

lemma create_active:
  assumes ok: "preset_ok d" and c: "preset_Create n1 n2 fresh pp (\<lambda>d. d) d = (Inr (i, v), d')"
  shows "active_rows (pp_Scope pp) (pp_ClientID pp) (pp_Name pp) d' = {(new_preset fresh pp d)\<lparr>pr_Version := v\<rparr>}"
    and "q \<in> set d \<Longrightarrow> of_tuple (pp_Scope pp) (pp_ClientID pp) (pp_Name pp) q \<Longrightarrow> pr_Version q < v"
proof -
  from c have v: "v = pr_Version (new_preset fresh pp d)" and p: "new_preset fresh pp d \<in> set d'"
    by (auto simp: preset_Create_def insert_preset_def run_tx_def Let_def split: net.splits if_splits)
  have "preset_ok d'" using create_alone_ok [OF ok, of n1 n2 fresh pp] c by simp
  from only_active [OF this p]
  show "active_rows (pp_Scope pp) (pp_ClientID pp) (pp_Name pp) d' = {(new_preset fresh pp d)\<lparr>pr_Version := v\<rparr>}"
    by (simp add: v new_preset_def)
  show "pr_Version q < v" if "q \<in> set d" "of_tuple (pp_Scope pp) (pp_ClientID pp) (pp_Name pp) q"
    using max_version_ge [OF that] by (simp add: v new_preset_def)
qed

lemma deactivate_active:
  assumes ok: "preset_ok d" and u: "preset_Deactivate n scope cid nm d = (Inr (), d')"
  shows "active_rows scope cid nm d' = {}"
proof -
  from u obtain cur where cur: "find (\<lambda>p. of_tuple scope cid nm p \<and> pr_IsActive p) d = Some cur"
    and d': "d' = map (\<lambda>p. if pr_ID p = pr_ID cur then p\<lparr>pr_IsActive := False\<rparr> else p) d"
    by (auto simp: preset_Deactivate_def run_tx_def split: net.splits option.splits)
  from cur have c: "cur \<in> set d" "of_tuple scope cid nm cur" "pr_IsActive cur" by (auto simp: find_Some_iff)
  have "q = cur" if "q \<in> set d" "of_tuple scope cid nm q" "pr_IsActive q" for q
    using one_active [OF ok c(1) that(1)] c that by (auto simp: of_tuple_def)
  then show ?thesis unfolding d' by (auto split: if_splits)
qed

subsection \<open>Properties\<close>

text \<open>C16: Preset versions are a history: whatever sequence of creations, updates and deactivations runs,
  every version ever written stays with its name, owner, target and options, none becomes active
  again, and at most one version of a preset is active, the newest. From any state so reached, an
  update or creation that succeeds leaves exactly one version active, the row it was asked to write
  under a number above all earlier ones, and a deactivation that succeeds leaves none.\<close>

theorem preset_history:
  assumes "preset_run d0 d" and "preset_ok d0"
  shows "versions_kept d0 d
    \<and> (\<forall>p \<in> set d. \<forall>q \<in> set d. same_tuple p q \<and> pr_IsActive p \<longrightarrow>
        pr_Version q \<le> pr_Version p \<and> (pr_IsActive q \<longrightarrow> q = p))
    \<and> (\<forall>n fresh scope cid nm target opt desc v d'.
        preset_Update n fresh scope cid nm target opt desc d = (Inr v, d') \<longrightarrow>
        active_rows scope cid nm d' = {\<lparr>pr_ID = fresh, pr_Name = nm, pr_Version = v, pr_Scope = scope,
          pr_ClientID = cid, pr_Operation = OperationConvert, pr_TargetFormat = target, pr_Options = opts_json opt,
          pr_Description = desc, pr_IsActive = True\<rparr>}
        \<and> (\<forall>q \<in> set d. of_tuple scope cid nm q \<longrightarrow> pr_Version q < v))
    \<and> (\<forall>n1 n2 fresh pp i v d'. preset_Create n1 n2 fresh pp (\<lambda>d. d) d = (Inr (i, v), d') \<longrightarrow>
        active_rows (pp_Scope pp) (pp_ClientID pp) (pp_Name pp) d'
          = {\<lparr>pr_ID = fresh, pr_Name = pp_Name pp, pr_Version = v, pr_Scope = pp_Scope pp,
              pr_ClientID = pp_ClientID pp, pr_Operation = OperationConvert, pr_TargetFormat = pp_TargetFormat pp,
              pr_Options = opts_json (pp_Options pp), pr_Description = pp_Description pp, pr_IsActive = True\<rparr>}
        \<and> (\<forall>q \<in> set d. of_tuple (pp_Scope pp) (pp_ClientID pp) (pp_Name pp) q \<longrightarrow> pr_Version q < v))
    \<and> (\<forall>n scope cid nm d'. preset_Deactivate n scope cid nm d = (Inr (), d') \<longrightarrow> active_rows scope cid nm d' = {})"
proof (intro conjI allI impI ballI)
  have ok: "preset_ok d" and kept: "versions_kept d0 d" using run_keeps [OF assms] by blast+
  show "versions_kept d0 d" by (rule kept)
  show "pr_Version q \<le> pr_Version p" if "p \<in> set d" "q \<in> set d" "same_tuple p q \<and> pr_IsActive p" for p q
    using ok that unfolding preset_ok_def by blast
  show "q = p" if "p \<in> set d" "q \<in> set d" "same_tuple p q \<and> pr_IsActive p" "pr_IsActive q" for p q
    using one_active [OF ok that(1,2)] that(3,4) by simp
qed (use run_keeps [OF assms] update_active create_active deactivate_active in \<open>force simp: new_preset_def\<close>)+

lemma demo_run: "preset_run [] [web_preset 1 1]"
proof -
  have "preset_run [] (snd (preset_Create Works Works 1 demo_preset (\<lambda>d. d) []))"
    by (intro preset_run.create preset_run.start)
  then show ?thesis unfolding create_first snd_conv .
qed

theorem preset_history_witness:
  "\<exists>d'. preset_Update Works 3 ScopeUser (Some 1) ''web'' ''png'' None ''d'' [web_preset 1 1] = (Inr 2, d')
     \<and> active_rows ScopeUser (Some 1) ''web'' d' = {\<lparr>pr_ID = 3, pr_Name = ''web'', pr_Version = 2, pr_Scope = ScopeUser,
          pr_ClientID = Some 1, pr_Operation = OperationConvert, pr_TargetFormat = ''png'', pr_Options = [],
          pr_Description = ''d'', pr_IsActive = True\<rparr>}"
proof -
  have ok: "preset_ok []" by (simp add: preset_ok_def)
  have "\<exists>d'. preset_Update Works 3 ScopeUser (Some 1) ''web'' ''png'' None ''d'' [web_preset 1 1] = (Inr 2, d')"
    by (simp add: preset_Update_def run_tx_def Let_def of_tuple_def web_preset_def unique_violation_def scope_owner_chk_def)
  then obtain d' where u: "preset_Update Works 3 ScopeUser (Some 1) ''web'' ''png'' None ''d'' [web_preset 1 1] = (Inr 2, d')"
    by blast
  with conjunct1 [OF conjunct2 [OF conjunct2 [OF preset_history [OF demo_run ok]]]] show ?thesis
    by (fastforce simp: opts_json_def)
qed

text \<open>Resolving a preset name: the row returned is active, a conversion, and either a system preset or
  the asking client's own; a client's own preset always shadows a system one of the same name; the
  newest active version of its tuple wins; and not found is answered exactly when the client sees no
  such row, be it missing, inactive or another client's.\<close>

theorem preset_resolution:
  "case Resolve Works cid nm d of
     Inl e \<Rightarrow> e = PresetNotFound \<and> (\<forall>q \<in> set d. \<not> visible cid nm q)
   | Inr p \<Rightarrow> p \<in> set d \<and> visible cid nm p
       \<and> (\<forall>q \<in> set d. visible cid nm q \<longrightarrow>
            (pr_Scope q = ScopeUser \<longrightarrow> pr_Scope p = ScopeUser)
            \<and> (same_tuple p q \<longrightarrow> pr_Version q \<le> pr_Version p))"
proof (cases "first_row (filter (visible cid nm) d)")
  case None
  then have "filter (visible cid nm) d = []" by (simp only: first_row_None)
  moreover have "Resolve Works cid nm d = Inl PresetNotFound" by (simp add: Resolve_def None)
  ultimately show ?thesis by (simp add: filter_empty_conv)
next
  case (Some p)
  from first_row_best [OF this] have p: "p \<in> set d" "visible cid nm p"
    and best: "\<And>q. q \<in> set d \<Longrightarrow> visible cid nm q \<Longrightarrow> preset_rank p \<le> preset_rank q" by auto
  have "(pr_Scope q = ScopeUser \<longrightarrow> pr_Scope p = ScopeUser) \<and> (same_tuple p q \<longrightarrow> pr_Version q \<le> pr_Version p)"
    if "q \<in> set d" "visible cid nm q" for q
    using best [OF that] by (auto simp: preset_rank_def of_tuple_def less_eq_prod_def split: if_splits)
  with p Some show ?thesis by (simp add: Resolve_def)
qed

theorem preset_resolution_witness:
  "Resolve Works 2 ''web'' [web_preset 1 1] = Inl PresetNotFound
   \<and> (\<exists>p. Resolve Works 1 ''web'' [web_preset 1 1, (web_preset 7 3)\<lparr>pr_Scope := ScopeSystem, pr_ClientID := None\<rparr>] = Inr p
        \<and> pr_Scope p = ScopeUser)"
proof
  let ?d = "[web_preset 1 1, (web_preset 7 3)\<lparr>pr_Scope := ScopeSystem, pr_ClientID := None\<rparr>]"
  show "Resolve Works 2 ''web'' [web_preset 1 1] = Inl PresetNotFound"
    using preset_resolution [where cid = 2 and nm = "''web''" and d = "[web_preset 1 1]"]
    by (auto simp: visible_def web_preset_def preset_consts split: sum.splits)
  have v: "visible 1 ''web'' (web_preset 1 1)" by (simp add: visible_def web_preset_def)
  then obtain p where p: "Resolve Works 1 ''web'' ?d = Inr p"
    using preset_resolution [where cid = 1 and nm = "''web''" and d = ?d] by (auto split: sum.splits)
  moreover have "pr_Scope p = ScopeUser"
    using preset_resolution [where cid = 1 and nm = "''web''" and d = ?d] v unfolding p by (auto simp: web_preset_def)
  ultimately show "\<exists>p. Resolve Works 1 ''web'' ?d = Inr p \<and> pr_Scope p = ScopeUser" by blast
qed

end
