(* ===== verification/Queue.thy ===== *)
theory Queue
  imports Complex_Main Formats Jobs
begin

text \<open>
  Task construction, retry schedules and lock lifetimes of \<open>internal/queue\<close>. A \<open>time.Duration\<close> is a
  signed 64-bit count of nanoseconds: it is an \<open>int\<close> and every operation of the code that can
  overflow is wrapped explicitly. The task body is the job identifier it decodes to, \<open>None\<close> for a
  body \<open>json.Unmarshal\<close> rejects. The broker (asynq over Redis) is a parameter: the function that
  enqueues a task. Rounding of \<open>float64\<close> is the parameter \<open>rnd\<close>, the value of \<open>rand.Float64\<close> the
  parameter \<open>u\<close>.
\<close>

subsection \<open>Durations\<close>

definition wrap64 :: "int \<Rightarrow> int" where
  "wrap64 x = (x + 2 ^ 63) mod 2 ^ 64 - 2 ^ 63"

definition Second :: int where "Second = 1000000000"
definition Minute :: int where "Minute = 60 * Second"

definition trunc :: "rat \<Rightarrow> int" where
  "trunc q = (if 0 \<le> q then \<lfloor>q\<rfloor> else \<lceil>q\<rceil>)"

subsection \<open>Task types, queues and tasks\<close>

definition TypeImageConvert :: string where "TypeImageConvert = ''image:convert''"
definition TypeWebhookDeliver :: string where "TypeWebhookDeliver = ''webhook:deliver''"
definition TypeDocumentConvert :: string where "TypeDocumentConvert = ''document:convert''"
definition TypeHTMLConvert :: string where "TypeHTMLConvert = ''html:convert''"
definition TypeAudioConvert :: string where "TypeAudioConvert = ''audio:convert''"
definition TypeAVConvert :: string where "TypeAVConvert = ''av:convert''"

lemmas type_defs = TypeImageConvert_def TypeWebhookDeliver_def TypeDocumentConvert_def
  TypeHTMLConvert_def TypeAudioConvert_def TypeAVConvert_def

definition QueueImage :: string where "QueueImage = EngineImage"
definition QueueWebhook :: string where "QueueWebhook = ''webhook''"
definition QueueDocument :: string where "QueueDocument = EngineDocument"
definition QueueHTML :: string where "QueueHTML = EngineHTML"
definition QueueAudio :: string where "QueueAudio = EngineAudio"
definition QueueAV :: string where "QueueAV = EngineAV"

lemmas queue_defs = QueueImage_def QueueWebhook_def QueueDocument_def QueueHTML_def QueueAudio_def
  QueueAV_def

record Task =
  task_type :: string
  task_payload :: "uuid option"
  task_queue :: string
  task_maxRetry :: int
  task_unique :: int

definition webhookMaxRetry :: int where "webhookMaxRetry = 6"

definition NewImageConvertTask :: "uuid \<Rightarrow> int \<Rightarrow> int \<Rightarrow> Task" where
  "NewImageConvertTask jobID maxRetry uniqueTTL =
     \<lparr>task_type = TypeImageConvert, task_payload = Some jobID, task_queue = QueueImage,
      task_maxRetry = maxRetry, task_unique = uniqueTTL\<rparr>"

definition NewDocumentConvertTask :: "uuid \<Rightarrow> int \<Rightarrow> int \<Rightarrow> Task" where
  "NewDocumentConvertTask jobID maxRetry uniqueTTL =
     \<lparr>task_type = TypeDocumentConvert, task_payload = Some jobID, task_queue = QueueDocument,
      task_maxRetry = maxRetry, task_unique = uniqueTTL\<rparr>"

definition NewHTMLConvertTask :: "uuid \<Rightarrow> int \<Rightarrow> int \<Rightarrow> Task" where
  "NewHTMLConvertTask jobID maxRetry uniqueTTL =
     \<lparr>task_type = TypeHTMLConvert, task_payload = Some jobID, task_queue = QueueHTML,
      task_maxRetry = maxRetry, task_unique = uniqueTTL\<rparr>"

definition NewAudioConvertTask :: "uuid \<Rightarrow> int \<Rightarrow> int \<Rightarrow> Task" where
  "NewAudioConvertTask jobID maxRetry uniqueTTL =
     \<lparr>task_type = TypeAudioConvert, task_payload = Some jobID, task_queue = QueueAudio,
      task_maxRetry = maxRetry, task_unique = uniqueTTL\<rparr>"

definition NewAVConvertTask :: "uuid \<Rightarrow> int \<Rightarrow> int \<Rightarrow> Task" where
  "NewAVConvertTask jobID maxRetry uniqueTTL =
     \<lparr>task_type = TypeAVConvert, task_payload = Some jobID, task_queue = QueueAV,
      task_maxRetry = maxRetry, task_unique = uniqueTTL\<rparr>"

definition NewWebhookDeliverTask :: "uuid \<Rightarrow> int \<Rightarrow> Task" where
  "NewWebhookDeliverTask jobID uniqueTTL =
     \<lparr>task_type = TypeWebhookDeliver, task_payload = Some jobID, task_queue = QueueWebhook,
      task_maxRetry = webhookMaxRetry, task_unique = uniqueTTL\<rparr>"

lemmas task_defs = NewImageConvertTask_def NewDocumentConvertTask_def NewHTMLConvertTask_def
  NewAudioConvertTask_def NewAVConvertTask_def NewWebhookDeliverTask_def

definition ParseConvertPayload :: "uuid option \<Rightarrow> string + uuid" where
  "ParseConvertPayload b = (case b of None \<Rightarrow> Inl ''unmarshal convert payload'' | Some i \<Rightarrow> Inr i)"

definition ParseWebhookPayload :: "uuid option \<Rightarrow> string + uuid" where
  "ParseWebhookPayload b = (case b of None \<Rightarrow> Inl ''unmarshal webhook payload'' | Some i \<Rightarrow> Inr i)"

subsection \<open>Retry schedules\<close>

definition webhookRetrySchedule :: "int list" where
  "webhookRetrySchedule = [30 * Second, 1 * Minute, 2 * Minute, 4 * Minute, 8 * Minute, 15 * Minute]"
definition imageRetrySchedule :: "int list" where
  "imageRetrySchedule = [2 * Second, 5 * Second, 15 * Second]"
definition documentRetrySchedule :: "int list" where
  "documentRetrySchedule = [5 * Second, 15 * Second, 30 * Second]"
definition htmlRetrySchedule :: "int list" where
  "htmlRetrySchedule = [5 * Second, 15 * Second, 30 * Second]"
definition audioRetrySchedule :: "int list" where
  "audioRetrySchedule = [5 * Second, 15 * Second, 30 * Second]"
definition avRetrySchedule :: "int list" where
  "avRetrySchedule = [30 * Second, 2 * Minute]"

lemmas schedule_defs = webhookRetrySchedule_def imageRetrySchedule_def documentRetrySchedule_def
  htmlRetrySchedule_def audioRetrySchedule_def avRetrySchedule_def Second_def Minute_def

text \<open>The clamped index every schedule is read with.\<close>

definition clamp_idx :: "int \<Rightarrow> int list \<Rightarrow> nat" where
  "clamp_idx n s = (let i = (if n < 0 then 0 else n)
     in if i \<ge> int (length s) then length s - 1 else nat i)"

definition ImageRetryDelay :: "int \<Rightarrow> int" where
  "ImageRetryDelay n = imageRetrySchedule ! clamp_idx n imageRetrySchedule"
definition DocumentRetryDelay :: "int \<Rightarrow> int" where
  "DocumentRetryDelay n = documentRetrySchedule ! clamp_idx n documentRetrySchedule"
definition HTMLRetryDelay :: "int \<Rightarrow> int" where
  "HTMLRetryDelay n = htmlRetrySchedule ! clamp_idx n htmlRetrySchedule"
definition AudioRetryDelay :: "int \<Rightarrow> int" where
  "AudioRetryDelay n = audioRetrySchedule ! clamp_idx n audioRetrySchedule"
definition AVRetryDelay :: "int \<Rightarrow> int" where
  "AVRetryDelay n = avRetrySchedule ! clamp_idx n avRetrySchedule"

definition WebhookRetryDelay :: "(rat \<Rightarrow> rat) \<Rightarrow> rat \<Rightarrow> int \<Rightarrow> int" where
  "WebhookRetryDelay rnd u n =
     (let base = webhookRetrySchedule ! clamp_idx n webhookRetrySchedule;
          jitterRange = rnd (rnd (of_int base) * (1 / 4));
          jitter = rnd (rnd (rnd (u * 2) - 1) * jitterRange);
          delay = trunc (rnd (rnd (of_int base) + jitter))
      in if delay < 0 then 0 else delay)"

text \<open>\<open>dflt\<close> is \<open>asynq.DefaultRetryDelayFunc\<close>.\<close>

definition RetryDelayFunc :: "(int \<Rightarrow> int) \<Rightarrow> (rat \<Rightarrow> rat) \<Rightarrow> rat \<Rightarrow> int \<Rightarrow> Task \<Rightarrow> int" where
  "RetryDelayFunc dflt rnd u n t =
     (if task_type t = TypeImageConvert then ImageRetryDelay n
      else if task_type t = TypeWebhookDeliver then WebhookRetryDelay rnd u n
      else if task_type t = TypeDocumentConvert then DocumentRetryDelay n
      else if task_type t = TypeHTMLConvert then HTMLRetryDelay n
      else if task_type t = TypeAudioConvert then AudioRetryDelay n
      else if task_type t = TypeAVConvert then AVRetryDelay n
      else dflt n)"

subsection \<open>Lifetimes of the uniqueness locks\<close>

definition uniqueTTLSafetyMargin :: int where "uniqueTTLSafetyMargin = 2 * Minute"
definition webhookPerAttemptTimeout :: int where "webhookPerAttemptTimeout = 10 * Second"

text \<open>The accumulating loop \<open>for i := 0; i < maxRetry; i++\<close>.\<close>

definition backoff_loop :: "(int \<Rightarrow> int) \<Rightarrow> int \<Rightarrow> int" where
  "backoff_loop delay maxRetry = foldl (\<lambda>s i. wrap64 (s + delay (int i))) 0 [0..<nat maxRetry]"

definition imageBackoffSum :: "int \<Rightarrow> int" where
  "imageBackoffSum = backoff_loop ImageRetryDelay"
definition documentBackoffSum :: "int \<Rightarrow> int" where
  "documentBackoffSum = backoff_loop DocumentRetryDelay"
definition htmlBackoffSum :: "int \<Rightarrow> int" where
  "htmlBackoffSum = backoff_loop HTMLRetryDelay"
definition audioBackoffSum :: "int \<Rightarrow> int" where
  "audioBackoffSum = backoff_loop AudioRetryDelay"
definition avBackoffSum :: "int \<Rightarrow> int" where
  "avBackoffSum = backoff_loop AVRetryDelay"

definition webhookWorstDelay :: "(rat \<Rightarrow> rat) \<Rightarrow> int \<Rightarrow> int" where
  "webhookWorstDelay rnd i =
     trunc (rnd (rnd (of_int (webhookRetrySchedule ! clamp_idx i webhookRetrySchedule)) * (5 / 4)))"
definition webhookBackoffSum :: "(rat \<Rightarrow> rat) \<Rightarrow> int \<Rightarrow> int" where
  "webhookBackoffSum rnd = backoff_loop (webhookWorstDelay rnd)"

text \<open>The expression all six derivations share.\<close>

definition lock_ttl :: "int \<Rightarrow> int \<Rightarrow> int \<Rightarrow> int" where
  "lock_ttl maxRetry timeout backoff =
     wrap64 (wrap64 (wrap64 (wrap64 (maxRetry + 1) * timeout) + backoff) + uniqueTTLSafetyMargin)"

definition ImageUniqueTTL :: "int \<Rightarrow> int \<Rightarrow> int" where
  "ImageUniqueTTL maxRetry engineTimeout = lock_ttl maxRetry engineTimeout (imageBackoffSum maxRetry)"
definition DocumentUniqueTTL :: "int \<Rightarrow> int \<Rightarrow> int" where
  "DocumentUniqueTTL maxRetry engineTimeout = lock_ttl maxRetry engineTimeout (documentBackoffSum maxRetry)"
definition HTMLUniqueTTL :: "int \<Rightarrow> int \<Rightarrow> int" where
  "HTMLUniqueTTL maxRetry engineTimeout = lock_ttl maxRetry engineTimeout (htmlBackoffSum maxRetry)"
definition AudioUniqueTTL :: "int \<Rightarrow> int \<Rightarrow> int" where
  "AudioUniqueTTL maxRetry engineTimeout = lock_ttl maxRetry engineTimeout (audioBackoffSum maxRetry)"
definition AVUniqueTTL :: "int \<Rightarrow> int \<Rightarrow> int" where
  "AVUniqueTTL maxRetry engineTimeout = lock_ttl maxRetry engineTimeout (avBackoffSum maxRetry)"
definition WebhookUniqueTTL :: "(rat \<Rightarrow> rat) \<Rightarrow> int \<Rightarrow> int \<Rightarrow> int" where
  "WebhookUniqueTTL rnd maxRetry perAttemptTimeout =
     lock_ttl maxRetry perAttemptTimeout (webhookBackoffSum rnd maxRetry)"

definition AllConvertQueues :: "string list" where
  "AllConvertQueues = [QueueImage, QueueDocument, QueueHTML, QueueAudio, QueueAV]"

subsection \<open>The client\<close>

datatype enq_error = ErrDuplicateTask | EnqueueFailed

record Client =
  imageMaxRetry :: int
  imageUniqueTTL :: int
  webhookUniqueTTL :: int
  documentMaxRetry :: int
  documentUniqueTTL :: int
  htmlMaxRetry :: int
  htmlUniqueTTL :: int
  audioMaxRetry :: int
  audioUniqueTTL :: int
  avMaxRetry :: int
  avUniqueTTL :: int

text \<open>An environment value: \<open>None\<close> when unset or not parseable. The fields are
  \<open>IMAGE_MAX_RETRY\<close>, \<open>ENGINE_TIMEOUT\<close> and their siblings.\<close>

record client_env =
  e_imageMaxRetry :: "int option"
  e_engineTimeout :: "int option"
  e_documentMaxRetry :: "int option"
  e_documentEngineTimeout :: "int option"
  e_htmlMaxRetry :: "int option"
  e_htmlEngineTimeout :: "int option"
  e_audioMaxRetry :: "int option"
  e_audioEngineTimeout :: "int option"
  e_avMaxRetry :: "int option"
  e_avEngineTimeout :: "int option"

definition env_or :: "int option \<Rightarrow> int \<Rightarrow> int" where
  "env_or v def = (case v of None \<Rightarrow> def | Some x \<Rightarrow> x)"

definition NewClient :: "(rat \<Rightarrow> rat) \<Rightarrow> client_env \<Rightarrow> Client" where
  "NewClient rnd e =
     (let imageR = env_or (e_imageMaxRetry e) 4; imageT = env_or (e_engineTimeout e) (120 * Second);
          documentR = env_or (e_documentMaxRetry e) 3;
          documentT = env_or (e_documentEngineTimeout e) (300 * Second);
          htmlR = env_or (e_htmlMaxRetry e) 3; htmlT = env_or (e_htmlEngineTimeout e) (60 * Second);
          audioR = env_or (e_audioMaxRetry e) 3; audioT = env_or (e_audioEngineTimeout e) (600 * Second);
          avR = env_or (e_avMaxRetry e) 2; avT = env_or (e_avEngineTimeout e) (600 * Second)
      in \<lparr>imageMaxRetry = imageR, imageUniqueTTL = ImageUniqueTTL imageR imageT,
          webhookUniqueTTL = WebhookUniqueTTL rnd webhookMaxRetry webhookPerAttemptTimeout,
          documentMaxRetry = documentR, documentUniqueTTL = DocumentUniqueTTL documentR documentT,
          htmlMaxRetry = htmlR, htmlUniqueTTL = HTMLUniqueTTL htmlR htmlT,
          audioMaxRetry = audioR, audioUniqueTTL = AudioUniqueTTL audioR audioT,
          avMaxRetry = avR, avUniqueTTL = AVUniqueTTL avR avT\<rparr>)"

type_synonym 'q broker = "Task \<Rightarrow> 'q \<Rightarrow> (enq_error + unit) \<times> 'q"

definition EnqueueImageConvert :: "'q broker \<Rightarrow> Client \<Rightarrow> uuid \<Rightarrow> 'q \<Rightarrow> (enq_error + unit) \<times> 'q" where
  "EnqueueImageConvert enq c jobID = enq (NewImageConvertTask jobID (imageMaxRetry c) (imageUniqueTTL c))"
definition EnqueueWebhookDeliver :: "'q broker \<Rightarrow> Client \<Rightarrow> uuid \<Rightarrow> 'q \<Rightarrow> (enq_error + unit) \<times> 'q" where
  "EnqueueWebhookDeliver enq c jobID = enq (NewWebhookDeliverTask jobID (webhookUniqueTTL c))"
definition EnqueueDocumentConvert :: "'q broker \<Rightarrow> Client \<Rightarrow> uuid \<Rightarrow> 'q \<Rightarrow> (enq_error + unit) \<times> 'q" where
  "EnqueueDocumentConvert enq c jobID =
     enq (NewDocumentConvertTask jobID (documentMaxRetry c) (documentUniqueTTL c))"
definition EnqueueHTMLConvert :: "'q broker \<Rightarrow> Client \<Rightarrow> uuid \<Rightarrow> 'q \<Rightarrow> (enq_error + unit) \<times> 'q" where
  "EnqueueHTMLConvert enq c jobID = enq (NewHTMLConvertTask jobID (htmlMaxRetry c) (htmlUniqueTTL c))"
definition EnqueueAudioConvert :: "'q broker \<Rightarrow> Client \<Rightarrow> uuid \<Rightarrow> 'q \<Rightarrow> (enq_error + unit) \<times> 'q" where
  "EnqueueAudioConvert enq c jobID = enq (NewAudioConvertTask jobID (audioMaxRetry c) (audioUniqueTTL c))"
definition EnqueueAVConvert :: "'q broker \<Rightarrow> Client \<Rightarrow> uuid \<Rightarrow> 'q \<Rightarrow> (enq_error + unit) \<times> 'q" where
  "EnqueueAVConvert enq c jobID = enq (NewAVConvertTask jobID (avMaxRetry c) (avUniqueTTL c))"

lemmas enqueue_defs = EnqueueImageConvert_def EnqueueWebhookDeliver_def EnqueueDocumentConvert_def
  EnqueueHTMLConvert_def EnqueueAudioConvert_def EnqueueAVConvert_def

definition firstField :: "string \<Rightarrow> string" where
  "firstField s = takeWhile (\<lambda>c. c \<noteq> CHR '' '' \<and> c \<noteq> CHR 0x09) s"

subsection \<open>Lock lifetimes against the retry schedule\<close>

lemma wrap64_id: "- (2 ^ 63) \<le> x \<Longrightarrow> x < 2 ^ 63 \<Longrightarrow> wrap64 x = x"
  by (simp add: wrap64_def)

text \<open>
  The contract a lock derivation needs of a schedule: the delays the broker actually waits are
  never negative and never above the ones the derivation adds up.
\<close>

locale lock_derivation =
  fixes waited :: "int \<Rightarrow> int" and counted :: "int \<Rightarrow> int" and top :: int
  assumes waited_le: "waited n \<le> counted n" and counted_nonneg: "0 \<le> counted n"
    and counted_top: "counted n \<le> top"
begin

lemma counted_sum: "(\<Sum>i<k. counted (int i)) \<le> int k * top" "0 \<le> (\<Sum>i<k. counted (int i))"
  using sum_bounded_above [of "{..<k}" "\<lambda>i. counted (int i)" top] counted_top counted_nonneg
  by (auto intro: sum_nonneg)

lemma backoff_loop_sum:
  assumes "int (nat r) * top < 2 ^ 63"
  shows "backoff_loop counted r = (\<Sum>i<nat r. counted (int i))"
proof -
  have "foldl (\<lambda>s i. wrap64 (s + counted (int i))) 0 [0..<k] = (\<Sum>i<k. counted (int i))"
    if "int k * top < 2 ^ 63" for k
    using that
  proof (induction k)
    case (Suc k)
    have top: "0 \<le> top" using counted_nonneg counted_top order_trans by blast
    then have "int k * top < 2 ^ 63"
      using Suc.prems by (simp add: distrib_right)
    moreover have "(\<Sum>i<Suc k. counted (int i)) < 2 ^ 63" "0 \<le> (\<Sum>i<Suc k. counted (int i))"
      using counted_sum [of "Suc k"] Suc.prems by linarith+
    ultimately show ?case
      using Suc.IH by (simp add: wrap64_id)
  qed simp
  then show ?thesis using assms by (simp add: backoff_loop_def)
qed

lemma waited_sum: "k \<le> m \<Longrightarrow> (\<Sum>i<k. waited (int i)) \<le> (\<Sum>i<m. counted (int i))"
proof -
  assume "k \<le> m"
  have "(\<Sum>i<k. waited (int i)) \<le> (\<Sum>i<k. counted (int i))"
    by (intro sum_mono waited_le)
  also have "\<dots> \<le> (\<Sum>i<m. counted (int i))"
    by (rule sum_mono2) (use \<open>k \<le> m\<close> counted_nonneg in auto)
  finally show ?thesis .
qed

end

text \<open>
  One run of a task: the attempts with their durations, and before the retry after attempt \<open>i\<close>
  the delay for \<open>i\<close>.
\<close>

definition lifetime :: "(int \<Rightarrow> int) \<Rightarrow> int list \<Rightarrow> int" where
  "lifetime delay ds = sum_list ds + (\<Sum>i<length ds - 1. delay (int i))"

definition possible_run :: "int \<Rightarrow> int \<Rightarrow> int list \<Rightarrow> bool" where
  "possible_run maxRetry timeout ds \<longleftrightarrow>
     ds \<noteq> [] \<and> int (length ds) \<le> maxRetry + 1 \<and> (\<forall>d \<in> set ds. 0 \<le> d \<and> d \<le> timeout)"

lemma sum_list_le: "(\<And>d. d \<in> set ds \<Longrightarrow> d \<le> (b :: int)) \<Longrightarrow> sum_list ds \<le> int (length ds) * b"
  by (induction ds) (force simp: distrib_right)+

context lock_derivation
begin

lemma lock_outlives:
  assumes r: "0 \<le> r" and t: "0 \<le> timeout"
    and small: "(r + 1) * timeout + r * top + uniqueTTLSafetyMargin < 2 ^ 63"
    and run: "possible_run r timeout ds"
  shows "lifetime waited ds + uniqueTTLSafetyMargin \<le> lock_ttl r timeout (backoff_loop counted r)"
proof -
  let ?B = "\<Sum>i<nat r. counted (int i)"
  have top: "0 \<le> top" using counted_nonneg counted_top order_trans by blast
  have B: "0 \<le> ?B" "?B \<le> r * top"
    using counted_sum [of "nat r"] r by simp_all
  have m: "0 \<le> uniqueTTLSafetyMargin" by (simp add: uniqueTTLSafetyMargin_def Minute_def Second_def)
  have rt: "0 \<le> (r + 1) * timeout" "0 \<le> r * top" using r t top by simp_all
  have r1: "timeout = 0 \<or> r + 1 < 2 ^ 63"
  proof (cases "timeout = 0")
    case False
    then have "(r + 1) * 1 \<le> (r + 1) * timeout" using r t by (intro mult_left_mono) auto
    then have "r + 1 < 2 ^ 63" using small rt m by simp
    then show ?thesis ..
  qed simp
  have loop: "backoff_loop counted r = ?B"
    using small r rt m by (intro backoff_loop_sum) simp
  have w1: "wrap64 (wrap64 (r + 1) * timeout) = (r + 1) * timeout"
    using r1 r rt small m B by (auto simp: wrap64_id)
  have ttl: "lock_ttl r timeout (backoff_loop counted r) = (r + 1) * timeout + ?B + uniqueTTLSafetyMargin"
    unfolding lock_ttl_def loop w1 using rt B m small by (simp add: wrap64_id)
  have len: "int (length ds) \<le> r + 1" and le: "\<And>d. d \<in> set ds \<Longrightarrow> d \<le> timeout"
    using run by (auto simp: possible_run_def)
  have "sum_list ds \<le> (r + 1) * timeout"
    using sum_list_le [of ds timeout, OF le] mult_right_mono [OF len t] by linarith
  moreover have "(\<Sum>i<length ds - 1. waited (int i)) \<le> ?B"
    using len by (intro waited_sum) linarith
  ultimately show ?thesis unfolding ttl lifetime_def by linarith
qed

end

text \<open>The five schedules without jitter, and the webhook schedule with it.\<close>

lemma clamp_idx_less: "s \<noteq> [] \<Longrightarrow> clamp_idx n s < length s"
  by (auto simp: clamp_idx_def Let_def)

lemma clamped_delay:
  "s \<noteq> [] \<Longrightarrow> (\<And>x. x \<in> set s \<Longrightarrow> lo \<le> x \<and> x \<le> hi) \<Longrightarrow>
   lo \<le> s ! clamp_idx n s \<and> s ! clamp_idx n s \<le> hi"
  using clamp_idx_less [of s n] nth_mem by blast

lemma delay_bounds:
  "0 \<le> ImageRetryDelay n \<and> ImageRetryDelay n \<le> 19 * Minute"
  "0 \<le> DocumentRetryDelay n \<and> DocumentRetryDelay n \<le> 19 * Minute"
  "0 \<le> HTMLRetryDelay n \<and> HTMLRetryDelay n \<le> 19 * Minute"
  "0 \<le> AudioRetryDelay n \<and> AudioRetryDelay n \<le> 19 * Minute"
  "0 \<le> AVRetryDelay n \<and> AVRetryDelay n \<le> 19 * Minute"
  unfolding ImageRetryDelay_def DocumentRetryDelay_def HTMLRetryDelay_def AudioRetryDelay_def
    AVRetryDelay_def
  by (rule clamped_delay; auto simp: schedule_defs)+

interpretation image_lock: lock_derivation ImageRetryDelay ImageRetryDelay "19 * Minute"
  using delay_bounds(1) by unfold_locales auto

interpretation document_lock: lock_derivation DocumentRetryDelay DocumentRetryDelay "19 * Minute"
  using delay_bounds(2) by unfold_locales auto

interpretation html_lock: lock_derivation HTMLRetryDelay HTMLRetryDelay "19 * Minute"
  using delay_bounds(3) by unfold_locales auto

interpretation audio_lock: lock_derivation AudioRetryDelay AudioRetryDelay "19 * Minute"
  using delay_bounds(4) by unfold_locales auto

interpretation av_lock: lock_derivation AVRetryDelay AVRetryDelay "19 * Minute"
  using delay_bounds(5) by unfold_locales auto

text \<open>What the derivation uses of \<open>float64\<close>: rounding is monotone and exact on the integers up to
  \<open>2 ^ 53\<close>.\<close>

definition float64_rounding :: "(rat \<Rightarrow> rat) \<Rightarrow> bool" where
  "float64_rounding rnd \<longleftrightarrow> mono rnd \<and> (\<forall>n :: int. \<bar>n\<bar> \<le> 2 ^ 53 \<longrightarrow> rnd (of_int n) = of_int n)"

lemma rounding_int: "float64_rounding rnd \<Longrightarrow> \<bar>n\<bar> \<le> 2 ^ 53 \<Longrightarrow> rnd (of_int n) = of_int n"
  by (simp add: float64_rounding_def)

lemma rounding_le: "float64_rounding rnd \<Longrightarrow> \<bar>n\<bar> \<le> 2 ^ 53 \<Longrightarrow> x \<le> of_int n \<Longrightarrow> rnd x \<le> of_int n"
  using rounding_int [of rnd n] by (metis float64_rounding_def monoD)

lemma jittered_le:
  assumes fl: "float64_rounding rnd" and u: "u < 1" and k: "0 \<le> k" "5 * k \<le> 2 ^ 53"
  shows "rnd (of_int (4 * k) + rnd (rnd (rnd (u * 2) - 1) * of_int k)) \<le> of_int (5 * k)"
proof -
  have "rnd (u * 2) \<le> of_int 2" using u by (intro rounding_le [OF fl]) auto
  then have "rnd (rnd (u * 2) - 1) \<le> of_int 1" by (intro rounding_le [OF fl]) auto
  then have "rnd (rnd (u * 2) - 1) * of_int k \<le> 1 * of_int k"
    using k by (intro mult_right_mono) auto
  then have "rnd (rnd (rnd (u * 2) - 1) * of_int k) \<le> of_int k"
    using k by (intro rounding_le [OF fl]) auto
  then show ?thesis using k by (intro rounding_le [OF fl]) auto
qed

lemma trunc_int [simp]: "trunc (of_int n) = n"
  by (simp add: trunc_def)

lemma trunc_le: "q \<le> of_int n \<Longrightarrow> 0 \<le> n \<Longrightarrow> trunc q \<le> n"
  unfolding trunc_def by (simp add: floor_le_iff ceiling_le_iff)

lemma webhook_base:
  obtains k where "webhookRetrySchedule ! clamp_idx n webhookRetrySchedule = 4 * k" "0 \<le> k"
    "5 * k \<le> 19 * Minute"
proof -
  have "webhookRetrySchedule ! clamp_idx n webhookRetrySchedule \<in> set webhookRetrySchedule"
    by (rule nth_mem, rule clamp_idx_less) (simp add: schedule_defs)
  then show ?thesis
    using that [of 7500000000] that [of 15000000000] that [of 30000000000] that [of 60000000000]
      that [of 120000000000] that [of 225000000000]
    by (auto simp: schedule_defs)
qed

lemma webhook_lock:
  assumes fl: "float64_rounding rnd" and u: "\<And>n. u n < 1"
  shows "lock_derivation (\<lambda>n. WebhookRetryDelay rnd (u n) n) (webhookWorstDelay rnd) (19 * Minute)"
proof -
  have "WebhookRetryDelay rnd (u n) n \<le> webhookWorstDelay rnd n \<and> 0 \<le> webhookWorstDelay rnd n
      \<and> webhookWorstDelay rnd n \<le> 19 * Minute" for n
  proof -
    obtain k where k: "webhookRetrySchedule ! clamp_idx n webhookRetrySchedule = 4 * k" "0 \<le> k"
      "5 * k \<le> 19 * Minute" by (rule webhook_base)
    then have small: "5 * k \<le> 2 ^ 53" by (simp add: Minute_def Second_def)
    have base: "rnd (of_int (4 * k)) = of_int (4 * k)" "rnd (of_int (4 * k) * (1 / 4)) = of_int k"
      "rnd (of_int (4 * k) * (5 / 4)) = of_int (5 * k)"
      using small k rounding_int [OF fl, of "4 * k"] rounding_int [OF fl, of k]
        rounding_int [OF fl, of "5 * k"] by simp_all
    have worst: "webhookWorstDelay rnd n = 5 * k"
      unfolding webhookWorstDelay_def k(1) base by (rule trunc_int)
    have "WebhookRetryDelay rnd (u n) n \<le> 5 * k"
      unfolding WebhookRetryDelay_def Let_def k(1) base
      using trunc_le [OF jittered_le [OF fl u k(2) small]] k(2) by simp
    then show ?thesis using worst k by simp
  qed
  then show ?thesis by unfold_locales auto
qed

text \<open>C23: A uniqueness lock outlives its task: for every task the client builds, any run the broker
  can make of it (one attempt and up to its retry budget, each attempt within the timeout the
  lock was derived from, each wait the one \<open>RetryDelayFunc\<close> returns, webhook jitter included)
  ends a safety margin before the lock expires, as long as the derivation does not overflow
  64-bit nanoseconds.\<close>

theorem unique_lock_outlives_task:
  assumes fl: "float64_rounding rnd" and u: "\<And>n. u n < 1"
    and t: "t \<in> {NewImageConvertTask i r (ImageUniqueTTL r timeout),
      NewDocumentConvertTask i r (DocumentUniqueTTL r timeout),
      NewHTMLConvertTask i r (HTMLUniqueTTL r timeout),
      NewAudioConvertTask i r (AudioUniqueTTL r timeout),
      NewAVConvertTask i r (AVUniqueTTL r timeout),
      NewWebhookDeliverTask i (WebhookUniqueTTL rnd webhookMaxRetry timeout)}"
    and r: "0 \<le> task_maxRetry t" and timeout: "0 \<le> timeout"
    and small: "(task_maxRetry t + 1) * timeout + task_maxRetry t * (19 * Minute)
      + uniqueTTLSafetyMargin < 2 ^ 63"
    and run: "possible_run (task_maxRetry t) timeout ds"
  shows "lifetime (\<lambda>n. RetryDelayFunc dflt rnd (u n) n t) ds + uniqueTTLSafetyMargin \<le> task_unique t"
  using t small run
    image_lock.lock_outlives [OF r timeout small run] document_lock.lock_outlives [OF r timeout small run]
    html_lock.lock_outlives [OF r timeout small run] audio_lock.lock_outlives [OF r timeout small run]
    av_lock.lock_outlives [OF r timeout small run]
    lock_derivation.lock_outlives [OF webhook_lock [where u = u, OF fl u] r timeout small run]
  by (auto simp: RetryDelayFunc_def task_defs type_defs ImageUniqueTTL_def DocumentUniqueTTL_def
      HTMLUniqueTTL_def AudioUniqueTTL_def AVUniqueTTL_def WebhookUniqueTTL_def imageBackoffSum_def
      documentBackoffSum_def htmlBackoffSum_def audioBackoffSum_def avBackoffSum_def
      webhookBackoffSum_def)

theorem unique_lock_outlives_task_witness:
  "lifetime (\<lambda>n. RetryDelayFunc (\<lambda>n. 0) (\<lambda>x. x) (1 / 2) n
       (NewImageConvertTask 1 4 (ImageUniqueTTL 4 (120 * Second)))) [120 * Second, 120 * Second]
     + uniqueTTLSafetyMargin \<le> ImageUniqueTTL 4 (120 * Second)"
proof -
  let ?t = "NewImageConvertTask 1 4 (ImageUniqueTTL 4 (120 * Second))"
  have "lifetime (\<lambda>n. RetryDelayFunc (\<lambda>n. 0) (\<lambda>x. x) ((\<lambda>_. 1 / 2) n) n ?t) [120 * Second, 120 * Second]
      + uniqueTTLSafetyMargin \<le> task_unique ?t"
    by (rule unique_lock_outlives_task [where i = 1 and r = 4 and timeout = "120 * Second"])
      (auto simp: float64_rounding_def mono_def task_defs possible_run_def Second_def Minute_def
        uniqueTTLSafetyMargin_def)
  then show ?thesis by (simp add: task_defs)
qed

end
