(* ===== verification/World.thy ===== *)
theory World
  imports Queue
begin

text \<open>
  A process of the service between the database and the broker. Its calls are interleaved with
  those of other processes: a schedule fixes, per call, what the others do first, what happens to
  the connection and the time the database sees. The broker is a parameter; the tasks it accepted
  from this process are kept as a trace.
\<close>

subsection \<open>Calls interleaved with other processes\<close>

record 'q schedule =
  net_of :: "nat \<Rightarrow> net"
  clock :: "nat \<Rightarrow> time"
  others :: "nat \<Rightarrow> db \<times> 'q \<Rightarrow> db \<times> 'q"

record 'q world =
  wdb :: db
  wq :: 'q
  wsent :: "Task list"
  wmetrics :: "string list"
  wtick :: nat

definition db_call :: "'q schedule \<Rightarrow> (net \<Rightarrow> time \<Rightarrow> db \<Rightarrow> 'a \<times> db) \<Rightarrow> 'q world \<Rightarrow> 'a \<times> 'q world" where
  "db_call s f w =
     (let k = wtick w; (d, q) = others s k (wdb w, wq w); (r, d') = f (net_of s k) (clock s k) d
      in (r, w\<lparr>wdb := d', wq := q, wtick := Suc k\<rparr>))"

text \<open>The database the next call sees.\<close>

definition db_seen :: "'q schedule \<Rightarrow> 'q world \<Rightarrow> db" where
  "db_seen s w = fst (others s (wtick w) (wdb w, wq w))"

definition traced :: "'q broker \<Rightarrow> ('q \<times> Task list) broker" where
  "traced enq t ql =
     (let (r, q') = enq t (fst ql) in (r, (q', if r = Inr () then snd ql @ [t] else snd ql)))"

definition q_call ::
  "'q schedule \<Rightarrow> ('q \<times> Task list \<Rightarrow> (enq_error + unit) \<times> ('q \<times> Task list)) \<Rightarrow> 'q world
     \<Rightarrow> (enq_error + unit) \<times> 'q world" where
  "q_call s f w =
     (let k = wtick w; (d, q) = others s k (wdb w, wq w); (r, ql) = f (q, wsent w)
      in (r, w\<lparr>wdb := d, wq := fst ql, wsent := snd ql, wtick := Suc k\<rparr>))"

subsection \<open>What every call keeps\<close>

text \<open>What other processes may do to the database: anything the repository offers.\<close>

definition other_step :: "db \<Rightarrow> db \<Rightarrow> bool" where
  "other_step d d' \<longleftrightarrow> keeps_rows d d' \<and> (db_ok d \<longrightarrow> db_ok d') \<and> (\<forall>i. recoveries i d \<le> recoveries i d')"

lemma other_step_refl [simp]: "other_step d d"
  by (simp add: other_step_def)

lemma other_step_trans: "other_step a b \<Longrightarrow> other_step b c \<Longrightarrow> other_step a c"
  unfolding other_step_def by (meson keeps_rows_trans order_trans)

definition polite :: "'q schedule \<Rightarrow> bool" where
  "polite s \<longleftrightarrow> (\<forall>k d q. other_step d (fst (others s k (d, q))))"

lemma recoveries_failed_le: "recoveries k d \<le> recoveries k (snd (MarkFailed n now i c m dt d))"
  unfolding MarkFailed_def recoveries_transition by simp

lemma other_step_repository:
  "other_step d (snd (Create n now fresh p d))"
  "other_step d (snd (MarkActive n now i d))"
  "other_step d (snd (MarkDone n now i d))"
  "other_step d (snd (AddOutput n i f d))"
  "other_step d (snd (RecordAttempt n fr i u a cd b d))"
  "other_step d (snd (MarkDeadLetter n wh d))"
proof -
  have "recoveries k d \<le> recoveries k (snd (Create n now fresh p d))" for k
    by (auto simp: Create_def begin_func_def Let_def recoveries_insert recoveries_def split: net.splits)
  moreover have "recoveries k (snd (AddOutput n i f d)) = recoveries k d"
    "recoveries k (snd (RecordAttempt n fr i u a cd b d)) = recoveries k d"
    "recoveries k (snd (MarkDeadLetter n wh d)) = recoveries k d" for k
    by (auto simp: AddOutput_def RecordAttempt_def MarkDeadLetter_def begin_func_def recoveries_def split: net.splits)
  ultimately show "other_step d (snd (Create n now fresh p d))" "other_step d (snd (MarkActive n now i d))"
    "other_step d (snd (MarkDone n now i d))" "other_step d (snd (AddOutput n i f d))"
    "other_step d (snd (RecordAttempt n fr i u a cd b d))" "other_step d (snd (MarkDeadLetter n wh d))"
    by (simp_all add: other_step_def keeps_rows_create keeps_rows_ops keeps_rows_inserts Create_ok MarkActive_ok
        MarkDone_ok db_ok_inserts recoveries_other)
qed

lemma other_step_calls:
  "other_step d (snd (MarkFailed n now i c m dt d))"
  "other_step d (snd (RequeueStale n now i r d))"
  by (simp_all add: other_step_def MarkFailed_ok RequeueStale_ok keeps_rows_ops recoveries_failed_le
      recoveries_requeue)

lemma db_call_step:
  assumes "polite s" and "\<And>n t d. other_step d (snd (f n t d))" and "db_call s f w = (r, w')"
  shows "other_step (wdb w) (wdb w') \<and> wsent w' = wsent w \<and> wmetrics w' = wmetrics w"
proof -
  obtain d q where o: "others s (wtick w) (wdb w, wq w) = (d, q)" by force
  then have "other_step (wdb w) d" using assms(1) by (metis fst_conv polite_def)
  moreover have "other_step d (snd (f (net_of s (wtick w)) (clock s (wtick w)) d))" by (rule assms(2))
  ultimately show ?thesis
    using assms(3) o by (auto simp: db_call_def Let_def split: prod.splits intro: other_step_trans)
qed

lemma q_call_step:
  assumes "polite s" and "q_call s f w = (r, w')"
  shows "other_step (wdb w) (wdb w')"
  using assms unfolding polite_def
  by (auto simp: q_call_def Let_def split: prod.splits) (metis fst_conv)

lemma q_call_traced:
  "q_call s (traced enq t) w = (r, w') \<Longrightarrow>
   wsent w' = wsent w @ (if r = Inr () then [t] else []) \<and> wmetrics w' = wmetrics w"
  by (auto simp: q_call_def traced_def Let_def split: prod.splits if_splits)

lemma db_call_query: "db_call s (\<lambda>n t d. (Q n t d, d)) w = (r, w') \<Longrightarrow> polite s \<Longrightarrow>
   other_step (wdb w) (wdb w') \<and> wsent w' = wsent w \<and> wmetrics w' = wmetrics w"
  by (rule db_call_step) auto

lemma db_call_query_result:
  "db_call s (\<lambda>n t d. (Q n t d, d)) w = (r, w') \<Longrightarrow> r = Q (net_of s (wtick w)) (clock s (wtick w)) (wdb w')"
  by (auto simp: db_call_def Let_def split: prod.splits)

subsection \<open>Rows that are finished\<close>

definition gone :: "uuid \<Rightarrow> db \<Rightarrow> bool" where
  "gone i d \<longleftrightarrow> (case find_job i d of None \<Rightarrow> False | Some j \<Rightarrow> terminal (status j))"

definition known :: "uuid \<Rightarrow> db \<Rightarrow> bool" where
  "known i d \<longleftrightarrow> find_job i d \<noteq> None"

lemma other_step_gone: "other_step d d' \<Longrightarrow> gone i d \<Longrightarrow> gone i d'"
  using seen_stays [of d d' i] by (auto simp: other_step_def gone_def split: option.splits)

lemma other_step_known: "other_step d d' \<Longrightarrow> known i d \<Longrightarrow> known i d'"
  unfolding other_step_def known_def keeps_rows_def by (metis option.distinct(1) option.exhaust)

lemma other_step_ok: "other_step d d' \<Longrightarrow> db_ok d \<Longrightarrow> db_ok d'"
  by (simp add: other_step_def)

lemma other_step_recoveries: "other_step d d' \<Longrightarrow> recoveries i d \<le> recoveries i d'"
  by (simp add: other_step_def)

lemma chain_end_status:
  "chain c es \<Longrightarrow> c \<in> insert None (Some ` {StatusQueued, StatusActive, StatusDone, StatusFailed}) \<Longrightarrow>
   chain_end c es \<in> insert None (Some ` {StatusQueued, StatusActive, StatusDone, StatusFailed})"
proof (induction es arbitrary: c)
  case (Cons e es)
  have "to_status e \<in> {StatusQueued, StatusActive, StatusDone, StatusFailed}"
    using Cons.prems by (auto split: if_splits)
  with Cons show ?case by auto
qed simp

lemma live_or_gone:
  assumes "db_ok d" "find_job i d = Some j"
  shows "status j \<in> {StatusQueued, StatusActive} \<or> gone i d"
  using assms find_job_SomeD [OF assms(2)] chain_end_status [of None "history i d"]
  by (auto simp: db_ok_def row_ok_def gone_def terminal_def)

text \<open>A quiet schedule: nobody interferes, no connection is lost, the clock stands still.\<close>

definition quiet :: "time \<Rightarrow> 'q schedule" where
  "quiet now = \<lparr>net_of = \<lambda>_. Works, clock = \<lambda>_. now, others = \<lambda>_ x. x\<rparr>"

lemma quiet_db_call:
  "db_call (quiet now) f w =
     (fst (f Works now (wdb w)), w\<lparr>wdb := snd (f Works now (wdb w)), wtick := Suc (wtick w)\<rparr>)"
  by (simp add: quiet_def db_call_def Let_def split: prod.splits)

lemma transition_row:
  assumes "find_job i d = Some j" "status j \<in> set allowed" "\<And>j. id (f j) = id j"
  shows "find_job i (snd (transition Works now i to allowed dt f d)) = Some (f j)
    \<and> fst (transition Works now i to allowed dt f d) = Inr ()"
  using assms find_job_SomeD [OF assms(1)] by (simp add: transition_def begin_func_def find_job_update)

definition demo_client :: Client where
  "demo_client = NewClient (\<lambda>x. x) \<lparr>e_imageMaxRetry = None, e_engineTimeout = None,
     e_documentMaxRetry = None, e_documentEngineTimeout = None, e_htmlMaxRetry = None,
     e_htmlEngineTimeout = None, e_audioMaxRetry = None, e_audioEngineTimeout = None,
     e_avMaxRetry = None, e_avEngineTimeout = None\<rparr>"

definition demo_world :: "db \<Rightarrow> unit world" where
  "demo_world d = \<lparr>wdb = d, wq = (), wsent = [], wmetrics = [], wtick = 0\<rparr>"

end
