(* ===== verification/Worker.thy ===== *)
theory Worker
  imports World Storage
begin

text \<open>
  The task handlers of \<open>internal/worker\<close>. A Go error is its message and the sentinel errors its
  \<open>%w\<close> chain holds. What the outside world answers during one attempt (the object store, the file
  system, the declared-duration probe, the conversion engine, the receiver of a webhook) is the
  record \<open>attempt_io\<close>; database and broker calls go through the interleaved world.
\<close>

subsection \<open>Errors\<close>

datatype sentinel =
    DeadlineExceeded
  | NoSuchKey
  | ErrAudioDurationExceeded
  | ErrAVOutputMissingOrEmpty
  | ErrAVTimecodeOutOfRange
  | ErrAVResolutionExceeded
  | ErrAVReencodeResolutionExceeded
  | ErrAVNoVideoStream
  | ErrAVTranscodeFailed
  | ErrAVAudioExtractFailed
  | ErrAVThumbnailFailed
  | ErrAVInsufficientDiskSpace

record go_error =
  Error :: string
  chain_of :: "sentinel list"

definition errors_Is :: "go_error \<Rightarrow> sentinel \<Rightarrow> bool" where
  "errors_Is e s \<longleftrightarrow> s \<in> set (chain_of e)"

text \<open>\<open>fmt.Errorf("prefix: %w", err)\<close>.\<close>

definition wrapped :: "string \<Rightarrow> go_error \<Rightarrow> go_error" where
  "wrapped pre e = e\<lparr>Error := pre @ '': '' @ Error e\<rparr>"

primrec str_contains :: "string \<Rightarrow> string \<Rightarrow> bool" where
  "str_contains [] sub = (sub = [])"
| "str_contains (c # cs) sub = (has_prefix (c # cs) sub \<or> str_contains cs sub)"

subsection \<open>Classification\<close>

definition terminalVipsSignatures :: "string list" where
  "terminalVipsSignatures =
     [''is not a known file format'', ''premature end of jpeg file'', ''jpeg datastream contains no image'']"

definition terminalLibreOfficeSignatures :: "string list" where
  "terminalLibreOfficeSignatures =
     [''output missing %pdf- magic bytes'', ''output is empty'', ''no export filter for'',
      ''output does not match expected container format'', ''produced no output file'',
      ''output missing pdf/a outputintent marker'', ''pdf_profile requested for non-pdf target'']"

definition terminalChromiumSignatures :: "string list" where
  "terminalChromiumSignatures = [''output is empty'', ''output missing %pdf- magic bytes'', ''stat output'']"

definition terminalAudioSignatures :: "string list" where
  "terminalAudioSignatures = [''audio: output is empty'', ''audio: stat output'']"

definition terminalVeraPDFSignatures :: "string list" where
  "terminalVeraPDFSignatures = [''pdf/a non-compliant'', ''pdf/a validation error'']"

definition isTerminal :: "go_error option \<Rightarrow> bool" where
  "isTerminal err =
     (case err of
        None \<Rightarrow> False
      | Some e \<Rightarrow>
          if errors_Is e NoSuchKey then True
          else let msg = ToLower (Error e) in
            str_contains msg ''no converter for''
            \<or> list_ex (str_contains msg) terminalVipsSignatures
            \<or> list_ex (str_contains msg) terminalLibreOfficeSignatures
            \<or> list_ex (str_contains msg) terminalChromiumSignatures
            \<or> list_ex (str_contains msg) terminalVeraPDFSignatures)"

definition timeoutIsTerminal :: "go_error option \<Rightarrow> bool" where
  "timeoutIsTerminal err =
     (case err of None \<Rightarrow> False | Some e \<Rightarrow> if errors_Is e DeadlineExceeded then True else isTerminal err)"

definition isDocumentTerminal :: "go_error option \<Rightarrow> bool" where
  "isDocumentTerminal err = timeoutIsTerminal err"

definition isHTMLTerminal :: "go_error option \<Rightarrow> bool" where
  "isHTMLTerminal err = timeoutIsTerminal err"

definition isAudioTerminal :: "go_error option \<Rightarrow> bool" where
  "isAudioTerminal err =
     (case err of
        None \<Rightarrow> False
      | Some e \<Rightarrow>
          if errors_Is e ErrAudioDurationExceeded then True
          else let msg = ToLower (Error e) in
            if str_contains msg ''audio: ffmpeg:'' then True
            else if str_contains msg ''ffprobe: unparseable duration''
              \<or> str_contains msg ''ffprobe: implausible duration''
              \<or> str_contains msg ''ffprobe failed:'' then True
            else if list_ex (str_contains msg) terminalAudioSignatures then True
            else isTerminal err)"

definition isAVTerminal :: "go_error option \<Rightarrow> bool" where
  "isAVTerminal err =
     (case err of
        None \<Rightarrow> False
      | Some e \<Rightarrow>
          if errors_Is e ErrAVOutputMissingOrEmpty \<or> errors_Is e ErrAVTimecodeOutOfRange
             \<or> errors_Is e ErrAVResolutionExceeded \<or> errors_Is e ErrAVReencodeResolutionExceeded
             \<or> errors_Is e ErrAudioDurationExceeded \<or> errors_Is e ErrAVNoVideoStream then True
          else let isTimeout = errors_Is e DeadlineExceeded in
            if errors_Is e ErrAVTranscodeFailed then \<not> isTimeout
            else if errors_Is e ErrAVAudioExtractFailed \<or> errors_Is e ErrAVThumbnailFailed then True
            else isTerminal err)"

definition avFailureCode :: "go_error \<Rightarrow> string \<times> string" where
  "avFailureCode e =
     (if errors_Is e ErrAVTimecodeOutOfRange
      then (''timecode_out_of_range'', ''requested thumbnail timecode exceeds source duration'')
      else if errors_Is e ErrAudioDurationExceeded
      then (''duration_exceeded'', ''declared video duration exceeds the configured maximum'')
      else if errors_Is e ErrAVResolutionExceeded
      then (''resolution_exceeded'', ''declared video resolution exceeds the configured maximum'')
      else if errors_Is e ErrAVNoVideoStream
      then (''no_video_stream'', ''no video stream found in source'')
      else (''engine_error'', ''unsupported or corrupted input format''))"

subsection \<open>One attempt\<close>

text \<open>\<open>Convert\<close> of a converter with its input and output path and the stored options.\<close>

record attempt_io =
  io_dberr :: "repo_error \<Rightarrow> go_error"
  io_mkdtemp :: "go_error option"
  io_download :: "string \<Rightarrow> go_error option"
  io_guard :: "string \<Rightarrow> go_error option"
  io_convert :: "Converter \<Rightarrow> string \<Rightarrow> string \<Rightarrow> opts \<Rightarrow> go_error option"
  io_upload :: "string \<Rightarrow> string \<Rightarrow> go_error + nat"
  io_workdir :: string
  io_uuid :: "uuid \<Rightarrow> string"

definition enforceAudioGuardBeforeConvert ::
  "string \<Rightarrow> go_error option \<Rightarrow> (unit \<Rightarrow> go_error option) \<Rightarrow> go_error option" where
  "enforceAudioGuardBeforeConvert eng guard convertFn =
     (if eng = EngineAudio then (case guard of Some e \<Rightarrow> Some e | None \<Rightarrow> convertFn ()) else convertFn ())"

definition inputKey :: "'q schedule \<Rightarrow> attempt_io \<Rightarrow> uuid \<Rightarrow> 'q world \<Rightarrow> (go_error + file_row) \<times> 'q world" where
  "inputKey s io jobID w =
     (let (ins, w1) = db_call s (\<lambda>n now d. (Inputs n jobID d, d)) w
      in case ins of
           Inl e \<Rightarrow> (Inl (io_dberr io e), w1)
         | Inr fs \<Rightarrow> (case fs of [] \<Rightarrow> (Inl \<lparr>Error = ''job has no inputs'', chain_of = []\<rparr>, w1)
                     | f # _ \<Rightarrow> (Inr f, w1)))"

text \<open>The part of \<open>process\<close> between the input row and the output row: no database call.\<close>

definition run_engine :: "attempt_io \<Rightarrow> Job \<Rightarrow> file_row \<Rightarrow> go_error + file_row" where
  "run_engine io job input =
     (case Lookup Default (SourceFormat job) (TargetFormat job) of
        None \<Rightarrow> Inl \<lparr>Error = ''no converter for '' @ SourceFormat job @ '' -> '' @ TargetFormat job, chain_of = []\<rparr>
      | Some cv \<Rightarrow>
          (case io_mkdtemp io of
             Some e \<Rightarrow> Inl (wrapped ''mkdtemp'' e)
           | None \<Rightarrow>
               (let inPath = io_workdir io @ ''/in.'' @ SourceFormat job;
                    outName = ''out.'' @ TargetFormat job;
                    outPath = io_workdir io @ ''/'' @ outName
                in (case io_download io (object_key input) of
                      Some e \<Rightarrow> Inl e
                    | None \<Rightarrow>
                        (case enforceAudioGuardBeforeConvert (Engine job) (io_guard io inPath)
                            (\<lambda>_. map_option (wrapped ''convert'') (io_convert io cv inPath outPath (Opts job))) of
                           Some e \<Rightarrow> Inl e
                         | None \<Rightarrow>
                             (let outKey = OutputKey (io_uuid io) (ID job) 0 outName
                              in (case io_upload io outKey (MIMEType (TargetFormat job)) of
                                    Inl e \<Rightarrow> Inl e
                                  | Inr n \<Rightarrow>
                                      Inr \<lparr>f_job = ID job, ordinal = 0, object_key = outKey, filename = outName,
                                        format = TargetFormat job, size_bytes = n,
                                        content_type = MIMEType (TargetFormat job)\<rparr>)))))))"

definition process :: "'q schedule \<Rightarrow> attempt_io \<Rightarrow> Job \<Rightarrow> 'q world \<Rightarrow> go_error option \<times> 'q world" where
  "process s io job w =
     (let (inp, w1) = inputKey s io (ID job) w
      in case inp of
           Inl e \<Rightarrow> (Some e, w1)
         | Inr f \<Rightarrow>
             (case run_engine io job f of
                Inl e \<Rightarrow> (Some e, w1)
              | Inr out \<Rightarrow>
                  (let (r, w2) = db_call s (\<lambda>n now. AddOutput n (ID job) out) w1
                   in case r of
                        Inl e \<Rightarrow> (Some (io_dberr io e), w2)
                      | Inr _ \<Rightarrow>
                          (let (dn, w3) = db_call s (\<lambda>n now. MarkDone n now (ID job)) w2
                           in case dn of Inl e \<Rightarrow> (Some (io_dberr io e), w3) | Inr _ \<Rightarrow> (None, w3)))))"

subsection \<open>The convert handlers\<close>

text \<open>What a handler returns: success, an error asynq retries, or one it drops.\<close>

datatype outcome = Success | Retry go_error | SkipRetry string

definition RecordJobOutcome :: "string \<Rightarrow> string \<Rightarrow> 'q world \<Rightarrow> 'q world" where
  "RecordJobOutcome q st w = w\<lparr>wmetrics := wmetrics w @ [q @ '':'' @ st]\<rparr>"

definition notify :: "'q broker \<Rightarrow> Client \<Rightarrow> 'q schedule \<Rightarrow> Job \<Rightarrow> uuid \<Rightarrow> 'q world \<Rightarrow> 'q world" where
  "notify enq c s job jobID w =
     (if CallbackURL job \<noteq> [] then snd (q_call s (EnqueueWebhookDeliver (traced enq) c jobID) w) else w)"

definition fail_job ::
  "'q broker \<Rightarrow> Client \<Rightarrow> 'q schedule \<Rightarrow> Job \<Rightarrow> uuid \<Rightarrow> string \<times> string \<Rightarrow> detail \<Rightarrow> ('q world \<Rightarrow> 'q world)
     \<Rightarrow> 'q world \<Rightarrow> 'q world" where
  "fail_job enq c s job jobID cm dt metric w =
     (let (ferr, w1) = db_call s (\<lambda>n now. MarkFailed n now jobID (fst cm) (snd cm) (Some dt)) w;
          w2 = metric w1
      in case ferr of Inr _ \<Rightarrow> notify enq c s job jobID w2 | Inl _ \<Rightarrow> w2)"

text \<open>
  The five handlers share one shape and differ in the check of the stored options, the
  classifier, the failure code and the queue the metric is tagged with.
\<close>

record handler_class =
  h_opts :: "opts \<Rightarrow> bool"
  h_terminal :: "go_error option \<Rightarrow> bool"
  h_code :: "go_error \<Rightarrow> string \<times> string"
  h_queue :: string

definition convert_handler ::
  "handler_class \<Rightarrow> 'q broker \<Rightarrow> Client \<Rightarrow> 'q schedule \<Rightarrow> attempt_io \<Rightarrow> uuid option \<Rightarrow> 'q world \<Rightarrow> outcome \<times> 'q world" where
  "convert_handler h enq c s io payload w =
     (case ParseConvertPayload payload of
        Inl e \<Rightarrow> (SkipRetry e, w)
      | Inr jobID \<Rightarrow>
          (let (ld, w1) = db_call s (\<lambda>n now d. (Get n jobID d, d)) w
           in case ld of
                Inl e \<Rightarrow> (Retry (wrapped ''load job'' (io_dberr io e)), w1)
              | Inr job \<Rightarrow>
                  if \<not> h_opts h (Opts job)
                  then (SkipRetry ''opts'',
                    fail_job enq c s job jobID (''invalid_options'', ''stored conversion options are invalid'')
                      [(''opts_error'', ''opts'')] (\<lambda>w. w) w1)
                  else
                    (let (ac, w2) = db_call s (\<lambda>n now. MarkActive n now jobID) w1
                     in case ac of
                          Inl e \<Rightarrow> (SkipRetry ''mark active'', w2)
                        | Inr _ \<Rightarrow>
                            (let (err, w3) = process s io job w2
                             in case err of
                                  Some e \<Rightarrow>
                                    if h_terminal h (Some e)
                                    then (SkipRetry (Error e),
                                      fail_job enq c s job jobID (h_code h e) [(''engine_stderr'', Error e)]
                                        (RecordJobOutcome (h_queue h) StatusFailed) w3)
                                    else (Retry e, w3)
                                | None \<Rightarrow>
                                    (Success, notify enq c s job jobID (RecordJobOutcome (h_queue h) StatusDone w3))))))"

definition engine_failure :: "go_error \<Rightarrow> string \<times> string" where
  "engine_failure e = (''engine_error'', ''unsupported or corrupted input format'')"

definition audio_failure :: "go_error \<Rightarrow> string \<times> string" where
  "audio_failure e =
     (if errors_Is e ErrAudioDurationExceeded
      then (''duration_exceeded'', ''declared audio duration exceeds the configured maximum'')
      else (''engine_error'', ''unsupported or corrupted input format''))"

definition parsed :: "'e + 'a \<Rightarrow> bool" where
  "parsed r = (case r of Inl _ \<Rightarrow> False | Inr _ \<Rightarrow> True)"

definition HandleImageConvert ::
  "'q broker \<Rightarrow> Client \<Rightarrow> 'q schedule \<Rightarrow> attempt_io \<Rightarrow> uuid option \<Rightarrow> 'q world \<Rightarrow> outcome \<times> 'q world" where
  "HandleImageConvert = convert_handler
     \<lparr>h_opts = \<lambda>_. True, h_terminal = isTerminal, h_code = engine_failure, h_queue = QueueImage\<rparr>"

definition HandleDocumentConvert ::
  "'q broker \<Rightarrow> Client \<Rightarrow> 'q schedule \<Rightarrow> attempt_io \<Rightarrow> uuid option \<Rightarrow> 'q world \<Rightarrow> outcome \<times> 'q world" where
  "HandleDocumentConvert = convert_handler
     \<lparr>h_opts = \<lambda>m. parsed (DocOptsFromMap m), h_terminal = isDocumentTerminal, h_code = engine_failure,
      h_queue = QueueDocument\<rparr>"

definition HandleHTMLConvert ::
  "'q broker \<Rightarrow> Client \<Rightarrow> 'q schedule \<Rightarrow> attempt_io \<Rightarrow> uuid option \<Rightarrow> 'q world \<Rightarrow> outcome \<times> 'q world" where
  "HandleHTMLConvert = convert_handler
     \<lparr>h_opts = \<lambda>m. parsed (HTMLOptsFromMap m), h_terminal = isHTMLTerminal, h_code = engine_failure,
      h_queue = QueueHTML\<rparr>"

definition HandleAudioConvert ::
  "'q broker \<Rightarrow> Client \<Rightarrow> 'q schedule \<Rightarrow> attempt_io \<Rightarrow> uuid option \<Rightarrow> 'q world \<Rightarrow> outcome \<times> 'q world" where
  "HandleAudioConvert = convert_handler
     \<lparr>h_opts = \<lambda>m. parsed (AudioOptsFromMap m), h_terminal = isAudioTerminal, h_code = audio_failure,
      h_queue = QueueAudio\<rparr>"

definition HandleAVConvert ::
  "'q broker \<Rightarrow> Client \<Rightarrow> 'q schedule \<Rightarrow> attempt_io \<Rightarrow> uuid option \<Rightarrow> 'q world \<Rightarrow> outcome \<times> 'q world" where
  "HandleAVConvert = convert_handler
     \<lparr>h_opts = \<lambda>m. parsed (AVOptsFromMap m), h_terminal = isAVTerminal, h_code = avFailureCode,
      h_queue = QueueAV\<rparr>"

lemmas handler_defs = HandleImageConvert_def HandleDocumentConvert_def HandleHTMLConvert_def
  HandleAudioConvert_def HandleAVConvert_def

subsection \<open>Webhook deliveries\<close>

datatype http_result = TransportError | Responded nat

record webhook_post =
  wp_method :: string
  wp_url :: string
  wp_headers :: "(string \<times> string) list"
  wp_body :: string

record webhook_io =
  wh_dberr :: "repo_error \<Rightarrow> go_error"
  wh_presign :: "string \<Rightarrow> go_error + string"
  wh_post :: "webhook_post \<Rightarrow> http_result"
  wh_marshal :: "json \<Rightarrow> string"
  wh_hmac :: "string \<Rightarrow> string \<Rightarrow> string"
  wh_secret :: string
  wh_now :: int
  wh_retryCount :: nat
  wh_maxRetry :: nat
  wh_fresh :: nat
  wh_uuid :: "uuid \<Rightarrow> string"

text \<open>\<open>hmac\<close> is the hex digest of HMAC-SHA256.\<close>

definition SignPayload :: "(string \<Rightarrow> string \<Rightarrow> string) \<Rightarrow> string \<Rightarrow> int \<Rightarrow> string \<Rightarrow> string" where
  "SignPayload hmac secret timestamp body = hmac secret (itoa timestamp @ ''.'' @ body)"

text \<open>\<open>post\<close> is what the receiver answers to a request, redirects not followed. The requests handed to
  the HTTP client come first in the result.\<close>

definition Deliver ::
  "(webhook_post \<Rightarrow> http_result) \<Rightarrow> string \<Rightarrow> string \<Rightarrow> int \<Rightarrow> string \<Rightarrow> webhook_post list \<times> nat \<times> go_error option" where
  "Deliver post url body timestamp signature =
     (let req = \<lparr>wp_method = ''POST'', wp_url = url,
        wp_headers = [(''Content-Type'', ''application/json''), (''X-OctoConv-Signature'', signature),
          (''X-OctoConv-Timestamp'', itoa timestamp)], wp_body = body\<rparr>
      in ([req],
        case post req of
          TransportError \<Rightarrow> (0, Some \<lparr>Error = ''webhook delivery to '' @ url, chain_of = []\<rparr>)
        | Responded code \<Rightarrow>
            if 200 \<le> code \<and> code < 300 then (code, None)
            else (code, Some \<lparr>Error = ''webhook delivery to '' @ url @ '': status '' @ itoa (int code), chain_of = []\<rparr>)))"

text \<open>The body of a delivery, with the download link of a finished job.\<close>

definition webhook_body :: "webhook_io \<Rightarrow> Job \<Rightarrow> string option \<Rightarrow> json" where
  "webhook_body io job url =
     JsonObj (sort_key fst
       ([(''job_id'', JsonStr (wh_uuid io (ID job))), (''status'', JsonStr (Status job))]
        @ (case url of None \<Rightarrow> [] | Some u \<Rightarrow> [(''download_url'', JsonStr u)])
        @ (if Status job = StatusFailed \<and> ErrorCode job \<noteq> [] then [(''error_code'', JsonStr (ErrorCode job))] else [])
        @ (if Status job = StatusFailed \<and> ErrorMessage job \<noteq> []
           then [(''error_message'', JsonStr (ErrorMessage job))] else [])))"

definition webhook_link :: "'q schedule \<Rightarrow> webhook_io \<Rightarrow> Job \<Rightarrow> 'q world \<Rightarrow> (go_error + string option) \<times> 'q world" where
  "webhook_link s io job w =
     (if Status job = StatusDone then
        (let (r, w1) = db_call s (\<lambda>n now d. (Outputs n (ID job) d, d)) w
         in case r of
              Inl e \<Rightarrow> (Inl (wrapped ''load outputs'' (wh_dberr io e)), w1)
            | Inr outs \<Rightarrow>
                (case outs of
                   [] \<Rightarrow> (Inl \<lparr>Error = ''job has no outputs'', chain_of = []\<rparr>, w1)
                 | f # _ \<Rightarrow>
                     (case wh_presign io (object_key f) of
                        Inl e \<Rightarrow> (Inl (wrapped ''presign output'' e), w1)
                      | Inr u \<Rightarrow> (Inr (Some u), w1))))
      else (Inr None, w))"

definition RecordWebhookDelivery :: "bool \<Rightarrow> 'q world \<Rightarrow> 'q world" where
  "RecordWebhookDelivery success w =
     w\<lparr>wmetrics := wmetrics w @ [''webhook:'' @ (if success then ''success'' else ''failure'')]\<rparr>"

text \<open>The handler returns its outcome and the requests it sent.\<close>

definition webhook_attempt ::
  "'q schedule \<Rightarrow> webhook_io \<Rightarrow> uuid \<Rightarrow> Job \<Rightarrow> string option \<Rightarrow> 'q world \<Rightarrow> outcome \<times> webhook_post list \<times> 'q world" where
  "webhook_attempt s io jobID job url w =
     (let body = wh_marshal io (webhook_body io job url);
          sig = SignPayload (wh_hmac io) (wh_secret io) (wh_now io) body;
          (posts, code, derr) = Deliver (wh_post io) (CallbackURL job) body (wh_now io) sig;
          (rec, w1) = db_call s (\<lambda>n now. RecordAttempt n (wh_fresh io) jobID (CallbackURL job)
             (wh_retryCount io + 1) (if code > 0 then Some code else None) (derr = None))
             (RecordWebhookDelivery (derr = None) w)
      in case derr of
           None \<Rightarrow> (Success, posts, w1)
         | Some e \<Rightarrow>
             (Retry e, posts,
              case rec of
                Inl _ \<Rightarrow> w1
              | Inr did \<Rightarrow> if wh_maxRetry io \<le> wh_retryCount io
                          then snd (db_call s (\<lambda>n now. MarkDeadLetter n did) w1) else w1))"

definition HandleWebhookDeliver ::
  "'q schedule \<Rightarrow> webhook_io \<Rightarrow> uuid option \<Rightarrow> 'q world \<Rightarrow> outcome \<times> webhook_post list \<times> 'q world" where
  "HandleWebhookDeliver s io payload w =
     (case ParseWebhookPayload payload of
        Inl e \<Rightarrow> (SkipRetry e, [], w)
      | Inr jobID \<Rightarrow>
          (let (ld, w1) = db_call s (\<lambda>n now d. (Get n jobID d, d)) w
           in case ld of
                Inl e \<Rightarrow> (Retry (wrapped ''load job'' (wh_dberr io e)), [], w1)
              | Inr job \<Rightarrow>
                  if CallbackURL job = [] then (SkipRetry ''no callback_url'', [], w1)
                  else
                    (let (lk, w2) = webhook_link s io job w1
                     in case lk of
                          Inl e \<Rightarrow> (Retry e, [], w2)
                        | Inr url \<Rightarrow> webhook_attempt s io jobID job url w2)))"

subsection \<open>Finished rows\<close>

lemma transition_Inr:
  assumes "transition n now i to allowed dt f d = (Inr u, d')" "\<And>j. id (f j) = id j"
  shows "\<exists>j. find_job i d = Some j \<and> status j \<in> set allowed \<and> find_job i d' = Some (f j)"
  using assms find_job_SomeD [of i d]
  by (auto simp: transition_def begin_func_def find_job_update split: net.splits option.splits if_splits)

lemma MarkFailed_Inr: "MarkFailed n now i cd m dt d = (Inr u, d') \<Longrightarrow> gone i d'"
  unfolding MarkFailed_def by (drule transition_Inr) (auto simp: gone_def terminal_def)

lemma MarkDone_Inr:
  "MarkDone n now i d = (Inr u, d') \<Longrightarrow> \<exists>j. find_job i d' = Some j \<and> status j = StatusDone"
  unfolding MarkDone_def by (drule transition_Inr) auto

lemma db_call_Inr:
  assumes "db_call s f w = (Inr u, w')"
  shows "\<exists>n t d. f n t d = (Inr u, wdb w')"
  using assms by (auto simp: db_call_def Let_def split: prod.splits) metis

lemma other_step_done:
  assumes "other_step d d'" "find_job i d = Some j" "status j = StatusDone"
  shows "find_job i d' = Some j"
  using assms seen_stays by (auto simp: other_step_def terminal_def)

text \<open>A piece of a handler that sends nothing.\<close>

definition silent :: "'q world \<Rightarrow> 'q world \<Rightarrow> bool" where
  "silent w w' \<longleftrightarrow> other_step (wdb w) (wdb w') \<and> wsent w' = wsent w"

lemma silent_refl [simp]: "silent w w"
  by (simp add: silent_def)

lemma silent_trans: "silent a b \<Longrightarrow> silent b c \<Longrightarrow> silent a c"
  unfolding silent_def using other_step_trans by metis

lemma db_call_silent:
  assumes "polite s" and "db_call s f w = (r, w')" and "\<And>n t d. other_step d (snd (f n t d))"
  shows "silent w w'"
  using db_call_step [OF assms(1,3,2)] by (simp add: silent_def)

lemma inputKey_silent: "polite s \<Longrightarrow> inputKey s io i w = (r, w') \<Longrightarrow> silent w w'"
  unfolding inputKey_def
  by (auto simp: Let_def split: prod.splits sum.splits list.splits intro: db_call_silent)

lemma process_silent:
  assumes p: "polite s" and r: "process s io job w = (err, w')"
  shows "silent w w' \<and> (err = None \<longrightarrow> (\<exists>j. find_job (ID job) (wdb w') = Some j \<and> status j = StatusDone))"
proof -
  obtain inp w1 where 1: "inputKey s io (ID job) w = (inp, w1)" by force
  note s1 = inputKey_silent [OF p 1]
  show ?thesis
  proof (cases inp)
    case (Inl e)
    then show ?thesis using r 1 s1 by (auto simp: process_def)
  next
    case in_ok: (Inr f)
    show ?thesis
    proof (cases "run_engine io job f")
      case (Inl e)
      then show ?thesis using r 1 s1 in_ok by (auto simp: process_def)
    next
      case (Inr out)
      obtain ad w2 where 2: "db_call s (\<lambda>n now. AddOutput n (ID job) out) w1 = (ad, w2)" by force
      obtain dn w3 where 3: "db_call s (\<lambda>n now. MarkDone n now (ID job)) w2 = (dn, w3)" by force
      have s2: "silent w1 w2" by (rule db_call_silent [OF p 2]) (rule other_step_repository)
      have s3: "silent w2 w3" by (rule db_call_silent [OF p 3]) (rule other_step_repository)
      have "dn = Inr u \<Longrightarrow> \<exists>j. find_job (ID job) (wdb w3) = Some j \<and> status j = StatusDone" for u
        using db_call_Inr [of s _ w2 u w3] 3 MarkDone_Inr by blast
      then show ?thesis
        using r 1 in_ok Inr 2 3 silent_trans [OF s1 s2] silent_trans [OF silent_trans [OF s1 s2] s3]
        by (auto simp: process_def split: sum.splits)
    qed
  qed
qed

text \<open>What a handler may send: deliveries for its own job, once that job is finished.\<close>

definition announces :: "uuid \<Rightarrow> 'q world \<Rightarrow> 'q world \<Rightarrow> bool" where
  "announces i w w' \<longleftrightarrow> other_step (wdb w) (wdb w')
     \<and> (\<exists>ts. wsent w' = wsent w @ ts
         \<and> (\<forall>t \<in> set ts. task_type t = TypeWebhookDeliver \<and> task_payload t = Some i \<and> gone i (wdb w')))"

lemma silent_announces: "silent w w' \<Longrightarrow> announces i w w'"
  by (simp add: silent_def announces_def)

lemma silent_then: "silent w w1 \<Longrightarrow> announces i w1 w' \<Longrightarrow> announces i w w'"
  unfolding silent_def announces_def using other_step_trans by metis

lemma metric_simps [simp]:
  "wdb (RecordJobOutcome q st w) = wdb w" "wsent (RecordJobOutcome q st w) = wsent w"
  by (simp_all add: RecordJobOutcome_def)

lemma metric_silent [simp]: "silent w (RecordJobOutcome q st w)"
  by (simp add: silent_def)

lemma notify_announces:
  assumes "polite s" "gone i (wdb w)"
  shows "announces i w (notify enq c s job i w)"
proof (cases "CallbackURL job = []")
  case True
  then show ?thesis by (simp add: notify_def silent_announces)
next
  case False
  obtain r w1 where q: "q_call s (traced enq (NewWebhookDeliverTask i (webhookUniqueTTL c))) w = (r, w1)" by force
  note st = q_call_step [OF assms(1) q]
  have "gone i (wdb w1)" by (rule other_step_gone [OF st assms(2)])
  then have "announces i w w1"
    using st q_call_traced [OF q] by (auto simp: announces_def task_defs)
  then show ?thesis using q False by (simp add: notify_def EnqueueWebhookDeliver_def)
qed

lemma fail_job_announces:
  assumes p: "polite s" and m: "\<And>w. silent w (metric w) \<and> wdb (metric w) = wdb w"
  shows "announces i w (fail_job enq c s job i cm dt metric w)"
proof -
  obtain fe w1 where 1: "db_call s (\<lambda>n now. MarkFailed n now i (fst cm) (snd cm) (Some dt)) w = (fe, w1)" by force
  have s1: "silent w (metric w1)"
    using db_call_silent [OF p 1 other_step_calls(1)] m [of w1] silent_trans by blast
  show ?thesis
  proof (cases fe)
    case (Inl e)
    then show ?thesis using 1 silent_announces [OF s1] by (simp add: fail_job_def)
  next
    case (Inr u)
    then have "gone i (wdb (metric w1))"
      using db_call_Inr [OF 1 [unfolded Inr]] MarkFailed_Inr m [of w1] by fastforce
    from silent_then [OF s1 notify_announces [OF p this]] show ?thesis
      using 1 Inr by (simp add: fail_job_def)
  qed
qed

lemma Get_ID: "Get n i d = Inr job \<Longrightarrow> ID job = i"
  by (auto simp: Get_def job_of_row_def split: if_splits option.splits dest: find_job_SomeD)

lemma convert_handler_announces:
  assumes p: "polite s" and r: "convert_handler h enq c s io (Some i) w = (oc, w')"
  shows "announces i w w' \<and> (oc = Success \<longrightarrow> (\<exists>j. find_job i (wdb w') = Some j \<and> status j = StatusDone))"
proof -
  obtain ld w1 where 1: "db_call s (\<lambda>n now d. (Get n i d, d)) w = (ld, w1)" by force
  have s1: "silent w w1" by (rule db_call_silent [OF p 1]) simp
  show ?thesis
  proof (cases ld)
    case (Inl e)
    then show ?thesis using r 1 silent_announces [OF s1] by (auto simp: convert_handler_def ParseConvertPayload_def)
  next
    case job: (Inr job)
    have id: "ID job = i" using db_call_query_result [OF 1] job Get_ID by metis
    show ?thesis
    proof (cases "h_opts h (Opts job)")
      case False
      then show ?thesis
        using r 1 job silent_then [OF s1 fail_job_announces [OF p]]
        by (auto simp: convert_handler_def ParseConvertPayload_def)
    next
      case opts: True
      obtain ac w2 where 2: "db_call s (\<lambda>n now. MarkActive n now i) w1 = (ac, w2)" by force
      have s2: "silent w w2"
        using db_call_silent [OF p 2 other_step_repository(2)] s1 silent_trans by blast
      obtain err w3 where 3: "process s io job w2 = (err, w3)" by force
      have s3: "silent w w3" using process_silent [OF p 3] s2 silent_trans by blast
      show ?thesis
      proof (cases ac)
        case (Inl e)
        then show ?thesis using r 1 2 job opts silent_announces [OF s2]
          by (auto simp: convert_handler_def ParseConvertPayload_def)
      next
        case act: (Inr u)
        show ?thesis
        proof (cases err)
          case (Some e)
          have "announces i w (fail_job enq c s job i (h_code h e) [(''engine_stderr'', Error e)]
              (RecordJobOutcome (h_queue h) StatusFailed) w3)"
            by (rule silent_then [OF s3 fail_job_announces [OF p]]) simp
          then show ?thesis
            using Some r 1 2 3 job opts act silent_announces [OF s3]
            by (auto simp: convert_handler_def ParseConvertPayload_def split: if_splits)
        next
          case None
          let ?w4 = "RecordJobOutcome (h_queue h) StatusDone w3"
          obtain j where j: "find_job i (wdb ?w4) = Some j" "status j = StatusDone"
            using process_silent [OF p 3] None id by auto
          have g: "gone i (wdb ?w4)" using j by (simp add: gone_def terminal_def)
          have n: "announces i ?w4 (notify enq c s job i ?w4)" by (rule notify_announces [OF p g])
          have "find_job i (wdb (notify enq c s job i ?w4)) = Some j"
            using n j other_step_done by (auto simp: announces_def)
          moreover have "announces i w (notify enq c s job i ?w4)"
            using silent_then [OF silent_trans [OF s3 metric_silent] n] .
          ultimately show ?thesis
            using r 1 2 3 job opts act None j by (auto simp: convert_handler_def ParseConvertPayload_def)
        qed
      qed
    qed
  qed
qed

text \<open>C24: A worker announces only what is recorded: under any interleaving, any lost connections and any
  outcome of the engine, a convert handler enqueues deliveries only for its own job and only when
  that job's row is done or failed, and it reports success only for a job whose row is done.\<close>

theorem worker_announces_recorded:
  assumes "polite s"
    and "h \<in> {HandleImageConvert, HandleDocumentConvert, HandleHTMLConvert, HandleAudioConvert, HandleAVConvert}"
    and "h enq c s io (Some i) w = (oc, w')"
  shows "(\<exists>ts. wsent w' = wsent w @ ts \<and> (\<forall>t \<in> set ts. task_type t = TypeWebhookDeliver
       \<and> task_payload t = Some i \<and> gone i (wdb w')))
    \<and> (oc = Success \<longrightarrow> (\<exists>j. find_job i (wdb w') = Some j \<and> status j = StatusDone))"
proof -
  obtain hc where "convert_handler hc enq c s io (Some i) w = (oc, w')"
    using assms(2,3) by (auto simp: handler_defs)
  from convert_handler_announces [OF assms(1) this] show ?thesis by (simp add: announces_def)
qed

definition demo_io :: "go_error option \<Rightarrow> attempt_io" where
  "demo_io e = \<lparr>io_dberr = \<lambda>_. \<lparr>Error = ''database'', chain_of = []\<rparr>, io_mkdtemp = None, io_download = \<lambda>_. None,
     io_guard = \<lambda>_. None, io_convert = \<lambda>_ _ _ _. e, io_upload = \<lambda>_ _. Inr 10, io_workdir = ''/tmp/w'',
     io_uuid = \<lambda>i. replicate i CHR ''a''\<rparr>"

lemma demo_active_ok: "db_ok demo_active"
  using sys_reachable_ok [OF demo_active_reachable] by (simp add: sys_ok_def)

lemma quiet_polite: "polite (quiet now)"
  by (simp add: quiet_def polite_def)

subsection \<open>The outcome of an attempt\<close>

definition keeps_outputs :: "'q schedule \<Rightarrow> bool" where
  "keeps_outputs s \<longleftrightarrow> (\<forall>k d q. set (outputs_tbl d) \<subseteq> set (outputs_tbl (fst (others s k (d, q)))))"

lemma outputs_transition [simp]: "outputs_tbl (snd (transition n now i to allowed dt f d)) = outputs_tbl d"
  by (auto simp: transition_def begin_func_def insert_event_def update_job_def split: net.splits option.splits)

lemma outputs_MarkDone [simp]: "outputs_tbl (snd (MarkDone n now i d)) = outputs_tbl d"
  by (simp add: MarkDone_def)

lemma db_call_outputs:
  assumes "keeps_outputs s" "db_call s f w = (r, w')" "\<And>n t d. set (outputs_tbl d) \<subseteq> set (outputs_tbl (snd (f n t d)))"
  shows "set (outputs_tbl (wdb w)) \<subseteq> set (outputs_tbl (wdb w'))"
proof -
  obtain d q where o: "others s (wtick w) (wdb w, wq w) = (d, q)" by force
  then have "set (outputs_tbl (wdb w)) \<subseteq> set (outputs_tbl d)"
    using assms(1) by (metis fst_conv keeps_outputs_def)
  also have "\<dots> \<subseteq> set (outputs_tbl (wdb w'))"
    using assms(2) assms(3) [of d "net_of s (wtick w)" "clock s (wtick w)"] o
    by (auto simp: db_call_def Let_def split: prod.splits)
  finally show ?thesis .
qed

lemma q_call_outputs:
  assumes "keeps_outputs s" "q_call s f w = (r, w')"
  shows "set (outputs_tbl (wdb w)) \<subseteq> set (outputs_tbl (wdb w'))"
  using assms unfolding keeps_outputs_def
  by (auto simp: q_call_def Let_def split: prod.splits) (metis fst_conv subset_iff)

definition result_of :: "(uuid \<Rightarrow> string) \<Rightarrow> uuid \<Rightarrow> file_row \<Rightarrow> bool" where
  "result_of us i f \<longleftrightarrow> f_job f = i
     \<and> (\<exists>src. Supports Default src (format f))
     \<and> object_key f = OutputKey us i 0 (''out.'' @ format f) \<and> content_type f = MIMEType (format f)"

lemma run_engine_result: "run_engine io job f = Inr out \<Longrightarrow> result_of (io_uuid io) (ID job) out"
  by (auto simp: run_engine_def result_of_def Supports_def Let_def split: option.splits sum.splits) blast

lemma AddOutput_Inr: "AddOutput n i f d = (Inr u, d') \<Longrightarrow> f_job f = i \<Longrightarrow> f \<in> set (outputs_tbl d')"
  by (auto simp: AddOutput_def begin_func_def split: net.splits if_splits)

lemma process_output:
  assumes k: "keeps_outputs s" and r: "process s io job w = (None, w')"
  shows "\<exists>f \<in> set (outputs_tbl (wdb w')). result_of (io_uuid io) (ID job) f"
proof -
  obtain f w1 out u w2 v where 1: "inputKey s io (ID job) w = (Inr f, w1)" "run_engine io job f = Inr out"
    and 2: "db_call s (\<lambda>n now. AddOutput n (ID job) out) w1 = (Inr u, w2)"
    and 3: "db_call s (\<lambda>n now. MarkDone n now (ID job)) w2 = (Inr v, w')"
    using r by (auto simp: process_def split: prod.splits sum.splits)
  have res: "result_of (io_uuid io) (ID job) out" by (rule run_engine_result [OF 1(2)])
  then have "out \<in> set (outputs_tbl (wdb w2))"
    using db_call_Inr [OF 2] AddOutput_Inr by (auto simp: result_of_def)
  then show ?thesis using db_call_outputs [OF k 3] res by auto
qed

text \<open>C25: Success means a stored result: when a convert handler reports success, under any interleaving in
  which others delete no outputs, the database holds an output row of that job under the job's own
  result key, in a format the registry can produce, with that format's MIME type.\<close>

theorem success_has_output:
  assumes "polite s" and "keeps_outputs s"
    and "h \<in> {HandleImageConvert, HandleDocumentConvert, HandleHTMLConvert, HandleAudioConvert, HandleAVConvert}"
    and "h enq c s io (Some i) w = (Success, w')"
  shows "\<exists>f \<in> set (outputs_tbl (wdb w')). f_job f = i \<and> (\<exists>src. Supports Default src (format f))
    \<and> object_key f = OutputKey (io_uuid io) i 0 (''out.'' @ format f) \<and> content_type f = MIMEType (format f)"
proof -
  obtain hc where r: "convert_handler hc enq c s io (Some i) w = (Success, w')"
    using assms(3,4) by (auto simp: handler_defs)
  then obtain job w1 w2 w3 where
    1: "db_call s (\<lambda>n now d. (Get n i d, d)) w = (Inr job, w1)"
    and p: "process s io job w2 = (None, w3)"
    and w': "w' = notify enq c s job i (RecordJobOutcome (h_queue hc) StatusDone w3)"
    by (auto simp: convert_handler_def ParseConvertPayload_def split: prod.splits sum.splits if_splits option.splits)
  have id: "ID job = i" using db_call_query_result [OF 1] Get_ID by metis
  obtain q w4 where q: "q_call s (EnqueueWebhookDeliver (traced enq) c i) (RecordJobOutcome (h_queue hc) StatusDone w3) = (q, w4)"
    by force
  have "set (outputs_tbl (wdb w3)) \<subseteq> set (outputs_tbl (wdb w'))"
    using q_call_outputs [OF assms(2) q] q by (auto simp: w' notify_def)
  then show ?thesis using process_output [OF assms(2) p] id by (auto simp: result_of_def)
qed

text \<open>A failing attempt with everything else working.\<close>

lemma MarkActive_row:
  "find_job i d = Some j \<Longrightarrow> status j \<in> {StatusQueued, StatusActive} \<Longrightarrow>
   fst (MarkActive Works now i d) = Inr ()
   \<and> (\<exists>j'. find_job i (snd (MarkActive Works now i d)) = Some j' \<and> status j' = StatusActive)"
  using find_job_SomeD [of i d j]
  by (auto simp: MarkActive_def transition_def begin_func_def find_job_update)

lemma inputs_MarkActive: "Inputs Works i (snd (MarkActive n now k d)) = Inputs Works i d"
proof -
  have "inputs_tbl (snd (MarkActive n now k d)) = inputs_tbl d"
    by (auto simp: MarkActive_def transition_def begin_func_def insert_event_def update_job_def
        split: net.splits option.splits)
  then show ?thesis by (simp add: Inputs_def query_def)
qed

lemma notify_row: "wdb (notify enq c (quiet now) job i w) = wdb w"
  by (auto simp: notify_def q_call_def quiet_def EnqueueWebhookDeliver_def traced_def Let_def split: prod.splits)

lemma failed_attempt:
  assumes j: "find_job i (wdb w) = Some j" "status j \<in> {StatusQueued, StatusActive}"
    and opts: "h_opts h (options j)" and inp: "Inputs Works i (wdb w) = Inr (f # fs)"
    and eng: "run_engine io (job_of_row j) f = Inl e"
    and r: "convert_handler h enq c (quiet now) io (Some i) w = (oc, w')"
  shows "oc = (if h_terminal h (Some e) then SkipRetry (Error e) else Retry e)
    \<and> (\<exists>j'. find_job i (wdb w') = Some j'
         \<and> (if h_terminal h (Some e)
            then status j' = StatusFailed \<and> error_code j' = Some (fst (h_code h e))
            else status j' = StatusActive))"
proof -
  let ?d1 = "snd (MarkActive Works now i (wdb w))"
  obtain j1 where act: "fst (MarkActive Works now i (wdb w)) = Inr ()" "find_job i ?d1 = Some j1"
    "status j1 = StatusActive" using MarkActive_row [OF j] by blast
  have id: "ID (job_of_row j) = i" "Opts (job_of_row j) = options j"
    using find_job_SomeD [OF j(1)] by (simp_all add: job_of_row_def)
  have "Get Works i (wdb w) = Inr (job_of_row j)" using j by (simp add: Get_def)
  moreover have "Inputs Works i ?d1 = Inr (f # fs)" using inp by (simp add: inputs_MarkActive)
  moreover have "find_job i (snd (MarkFailed Works now i cd m dt ?d1)) = Some (j1\<lparr>status := StatusFailed,
      finished_at := Some now, error_code := Some cd, error_message := Some m\<rparr>)
    \<and> fst (MarkFailed Works now i cd m dt ?d1) = Inr ()" for cd m dt
    unfolding MarkFailed_def by (rule transition_row) (use act in auto)
  ultimately show ?thesis
    using r act opts eng id
    by (auto simp: convert_handler_def ParseConvertPayload_def quiet_db_call process_def inputKey_def fail_job_def
        notify_row Let_def split: if_splits)
qed

lemma successful_run:
  assumes j: "find_job i (wdb w) = Some j" "status j \<in> {StatusQueued, StatusActive}"
    and opts: "h_opts h (options j)" and inp: "Inputs Works i (wdb w) = Inr (f # fs)"
    and eng: "run_engine io (job_of_row j) f = Inr out"
  shows "\<exists>w1. wsent w1 = wsent w
    \<and> convert_handler h enq c (quiet now) io (Some i) w = (Success, notify enq c (quiet now) (job_of_row j) i w1)"
proof -
  let ?d1 = "snd (MarkActive Works now i (wdb w))"
  let ?d2 = "snd (AddOutput Works i out ?d1)"
  obtain j1 where act: "fst (MarkActive Works now i (wdb w)) = Inr ()" "find_job i ?d1 = Some j1"
    "status j1 = StatusActive" using MarkActive_row [OF j] by blast
  have id: "ID (job_of_row j) = i" "Opts (job_of_row j) = options j"
    using find_job_SomeD [OF j(1)] by (simp_all add: job_of_row_def)
  have "Get Works i (wdb w) = Inr (job_of_row j)" using j by (simp add: Get_def)
  moreover have "Inputs Works i ?d1 = Inr (f # fs)" using inp by (simp add: inputs_MarkActive)
  moreover have add: "fst (AddOutput Works i out ?d1) = Inr ()" "find_job i ?d2 = Some j1"
    using act by (simp_all add: AddOutput_def begin_func_def)
  moreover have "fst (MarkDone Works now i ?d2) = Inr ()"
    unfolding MarkDone_def using add(2) act(3) by (simp add: transition_def begin_func_def)
  ultimately show ?thesis
    using act opts eng id
    by (simp add: convert_handler_def ParseConvertPayload_def quiet_db_call process_def inputKey_def Let_def
        RecordJobOutcome_def) (rule exI, rule conjI [rotated], rule refl, simp)
qed

lemma successful_attempt:
  assumes "find_job i (wdb w) = Some j" "status j \<in> {StatusQueued, StatusActive}"
    "h_opts h (options j)" "Inputs Works i (wdb w) = Inr (f # fs)" "run_engine io (job_of_row j) f = Inr out"
  shows "fst (convert_handler h enq c (quiet now) io (Some i) w) = Success"
  using successful_run [OF assms, of enq c now] by fastforce

text \<open>Timeouts are retried exactly where a retry can help: when the engine runs out of time, the
  document and html handlers fail the job at once, the video handler keeps it active for a retry if
  the transcode stage timed out (unless a guard rejected the input), and the image handler keeps it
  active unless the message names a terminal condition.\<close>

theorem timeout_policy:
  assumes j: "find_job i (wdb w) = Some j" "status j \<in> {StatusQueued, StatusActive}" "options j = []"
    and inp: "Inputs Works i (wdb w) = Inr (f # fs)"
    and eng: "run_engine io (job_of_row j) f = Inl e" and "errors_Is e DeadlineExceeded"
  shows "(h \<in> {HandleDocumentConvert, HandleHTMLConvert} \<and> h enq c (quiet now) io (Some i) w = (oc, w') \<longrightarrow>
       oc = SkipRetry (Error e)
       \<and> (\<exists>j'. find_job i (wdb w') = Some j' \<and> status j' = StatusFailed \<and> error_code j' = Some ''engine_error''))
    \<and> (set (chain_of e) = {DeadlineExceeded, ErrAVTranscodeFailed}
       \<and> HandleAVConvert enq c (quiet now) io (Some i) w = (oc, w') \<longrightarrow>
       oc = Retry e \<and> (\<exists>j'. find_job i (wdb w') = Some j' \<and> status j' = StatusActive))
    \<and> (\<not> isTerminal (Some e) \<and> HandleImageConvert enq c (quiet now) io (Some i) w = (oc, w') \<longrightarrow>
       oc = Retry e \<and> (\<exists>j'. find_job i (wdb w') = Some j' \<and> status j' = StatusActive))"
proof (intro conjI impI; elim conjE)
  assume "h \<in> {HandleDocumentConvert, HandleHTMLConvert}" "h enq c (quiet now) io (Some i) w = (oc, w')"
  then obtain hc where hc: "convert_handler hc enq c (quiet now) io (Some i) w = (oc, w')"
    "h_opts hc []" "h_terminal hc (Some e)" "h_code hc = engine_failure"
    using assms(6) by (auto simp: HandleDocumentConvert_def HandleHTMLConvert_def parsed_def DocOptsFromMap_def
        HTMLOptsFromMap_def isDocumentTerminal_def isHTMLTerminal_def timeoutIsTerminal_def)
  from failed_attempt [OF j(1,2) _ inp eng hc(1)] hc(2-) j(3)
  show "oc = SkipRetry (Error e)" "\<exists>j'. find_job i (wdb w') = Some j' \<and> status j' = StatusFailed
      \<and> error_code j' = Some ''engine_error''"
    by (auto simp: engine_failure_def)
next
  assume "set (chain_of e) = {DeadlineExceeded, ErrAVTranscodeFailed}"
    and r: "HandleAVConvert enq c (quiet now) io (Some i) w = (oc, w')"
  then have "\<not> isAVTerminal (Some e)" by (simp add: isAVTerminal_def errors_Is_def)
  with failed_attempt [OF j(1,2) _ inp eng r [unfolded HandleAVConvert_def]] j(3)
  show "oc = Retry e" "\<exists>j'. find_job i (wdb w') = Some j' \<and> status j' = StatusActive"
    by (auto simp: parsed_def AVOptsFromMap_def)
next
  assume "\<not> isTerminal (Some e)" and r: "HandleImageConvert enq c (quiet now) io (Some i) w = (oc, w')"
  with failed_attempt [OF j(1,2) _ inp eng r [unfolded HandleImageConvert_def]]
  show "oc = Retry e" "\<exists>j'. find_job i (wdb w') = Some j' \<and> status j' = StatusActive"
    by auto
qed

lemma demo_row:
  obtains j where "find_job 5 demo_active = Some j" "status j = StatusActive" "options j = []"
    "source_format j = Some ''png''" "target_format j = Some ''jpg''" "engine j = EngineImage"
proof -
  have "map_option (\<lambda>j. (status j, options j, source_format j, target_format j, engine j)) (find_job 5 demo_active)
      = Some (StatusActive, [], Some ''png'', Some ''jpg'', EngineImage)"
    by code_simp
  then show ?thesis using that by auto
qed

lemma demo_inputs: "Inputs Works 5 demo_active = Inr [demo_input\<lparr>f_job := 5\<rparr>]"
  by code_simp

lemma demo_lookup: "Lookup Default ''png'' ''jpg'' = Some LibvipsConverter"
  unfolding Lookup_Default by code_simp

lemma demo_engine:
  assumes "source_format j = Some ''png''" "target_format j = Some ''jpg''" "engine j = EngineImage"
  shows "run_engine (demo_io None) (job_of_row j) f \<noteq> Inl e'"
    and "run_engine (demo_io (Some e)) (job_of_row j) f = Inl (wrapped ''convert'' e)"
  using assms demo_lookup
  by (simp_all add: run_engine_def demo_io_def job_of_row_def deref_def Let_def enforceAudioGuardBeforeConvert_def
      engine_defs)

theorem worker_announces_recorded_witness:
  "\<exists>w' t. HandleImageConvert (\<lambda>t q. (Inr (), q)) demo_client (quiet 50) (demo_io None) (Some 5)
       (demo_world demo_active) = (Success, w')
     \<and> wsent w' = [t] \<and> task_type t = TypeWebhookDeliver \<and> task_payload t = Some 5 \<and> gone 5 (wdb w')
     \<and> (\<exists>j. find_job 5 (wdb w') = Some j \<and> status j = StatusDone)"
proof -
  let ?r = "HandleImageConvert (\<lambda>t q. (Inr (), q)) demo_client (quiet 50) (demo_io None) (Some 5)
     (demo_world demo_active)"
  obtain j where j: "find_job 5 demo_active = Some j" "status j = StatusActive" "options j = []"
    "source_format j = Some ''png''" "target_format j = Some ''jpg''" "engine j = EngineImage" by (rule demo_row)
  have "map_option callback_url (find_job 5 demo_active) = Some (Some ''https://x'')" by code_simp
  then have cb: "CallbackURL (job_of_row j) \<noteq> []" using j(1) by (simp add: job_of_row_def deref_def)
  obtain out where out: "run_engine (demo_io None) (job_of_row j) (demo_input\<lparr>f_job := 5\<rparr>) = Inr out"
    using demo_engine(1) [OF j(4-6)] by (metis sumE)
  have "\<exists>w1. wsent w1 = wsent (demo_world demo_active)
    \<and> ?r = (Success, notify (\<lambda>t q. (Inr (), q)) demo_client (quiet 50) (job_of_row j) 5 w1)"
    unfolding HandleImageConvert_def
    by (rule successful_run [where f = "demo_input\<lparr>f_job := 5\<rparr>" and fs = "[]" and out = out])
      (use j out demo_inputs in \<open>simp_all add: demo_world_def\<close>)
  then obtain w' t where r: "?r = (Success, w')" and t: "wsent w' = [t]"
    using cb by (auto simp: demo_world_def notify_def EnqueueWebhookDeliver_def q_call_def traced_def quiet_def Let_def)
  from worker_announces_recorded [where h = HandleImageConvert, OF quiet_polite _ r] show ?thesis
    using r t by (auto simp: demo_world_def)
qed

theorem success_has_output_witness:
  "\<exists>f \<in> set (outputs_tbl (wdb (snd (HandleImageConvert (\<lambda>t q. (Inr (), q)) demo_client (quiet 50) (demo_io None)
     (Some 5) (demo_world demo_active))))). f_job f = 5"
proof -
  let ?r = "HandleImageConvert (\<lambda>t q. (Inr (), q)) demo_client (quiet 50) (demo_io None) (Some 5)
     (demo_world demo_active)"
  obtain j where j: "find_job 5 demo_active = Some j" "status j = StatusActive" "options j = []"
    "source_format j = Some ''png''" "target_format j = Some ''jpg''" "engine j = EngineImage" by (rule demo_row)
  obtain out where "run_engine (demo_io None) (job_of_row j) (demo_input\<lparr>f_job := 5\<rparr>) = Inr out"
    using demo_engine(1) [OF j(4-6)] by (metis sumE)
  then have "fst ?r = Success"
    unfolding HandleImageConvert_def
    by (intro successful_attempt [where j = j and f = "demo_input\<lparr>f_job := 5\<rparr>" and fs = "[]"])
      (use j demo_inputs in \<open>simp_all add: demo_world_def\<close>)
  then obtain w' where w': "?r = (Success, w')" by (cases ?r) simp
  have "keeps_outputs (quiet 50)" by (simp add: keeps_outputs_def quiet_def)
  from success_has_output [where h = HandleImageConvert, OF quiet_polite this _ w'] w' show ?thesis by auto
qed

theorem timeout_policy_witness:
  "\<exists>w'. HandleDocumentConvert (\<lambda>t q. (Inr (), q)) demo_client (quiet 50)
       (demo_io (Some \<lparr>Error = ''killed'', chain_of = [DeadlineExceeded]\<rparr>)) (Some 5) (demo_world demo_active)
     = (SkipRetry ''convert: killed'', w')"
proof -
  let ?e = "\<lparr>Error = ''killed'', chain_of = [DeadlineExceeded]\<rparr>"
  obtain j where j: "find_job 5 demo_active = Some j" "status j = StatusActive" "options j = []"
    "source_format j = Some ''png''" "target_format j = Some ''jpg''" "engine j = EngineImage" by (rule demo_row)
  obtain oc w' where r: "HandleDocumentConvert (\<lambda>t q. (Inr (), q)) demo_client (quiet 50) (demo_io (Some ?e))
      (Some 5) (demo_world demo_active) = (oc, w')" by force
  have "oc = SkipRetry (Error (wrapped ''convert'' ?e))"
    using timeout_policy [where w = "demo_world demo_active" and i = 5 and j = j and fs = "[]"
        and f = "demo_input\<lparr>f_job := 5\<rparr>" and io = "demo_io (Some ?e)" and e = "wrapped ''convert'' ?e"
        and h = HandleDocumentConvert and enq = "\<lambda>t q. (Inr (), q)" and c = demo_client and now = 50 and oc = oc and w' = w']
      j demo_inputs demo_engine(2) [OF j(4-6)] r
    by (simp add: demo_world_def wrapped_def errors_Is_def)
  then show ?thesis using r by (simp add: wrapped_def)
qed

subsection \<open>Delivery attempts\<close>

definition answered_2xx :: "http_result \<Rightarrow> bool" where
  "answered_2xx r = (case r of TransportError \<Rightarrow> False | Responded code \<Rightarrow> 200 \<le> code \<and> code < 300)"

text \<open>The one request of an attempt: the body is signed together with the time it was sent at.\<close>

definition signed_post :: "webhook_io \<Rightarrow> Job \<Rightarrow> string option \<Rightarrow> webhook_post" where
  "signed_post io job link =
     (let body = wh_marshal io (webhook_body io job link)
      in \<lparr>wp_method = ''POST'', wp_url = CallbackURL job,
          wp_headers = [(''Content-Type'', ''application/json''),
            (''X-OctoConv-Signature'', wh_hmac io (wh_secret io) (itoa (wh_now io) @ ''.'' @ body)),
            (''X-OctoConv-Timestamp'', itoa (wh_now io))], wp_body = body\<rparr>)"

definition delivered_ok :: "webhook_io \<Rightarrow> Job \<Rightarrow> string option \<Rightarrow> bool" where
  "delivered_ok io job link \<longleftrightarrow> answered_2xx (wh_post io (signed_post io job link))"

text \<open>The row of an attempt.\<close>

definition attempt_row :: "webhook_io \<Rightarrow> uuid \<Rightarrow> Job \<Rightarrow> string option \<Rightarrow> bool \<Rightarrow> delivery_row" where
  "attempt_row io i job link dead =
     \<lparr>d_id = wh_fresh io, d_job = i, d_url = CallbackURL job, d_attempt = wh_retryCount io + 1,
      d_status_code = (case wh_post io (signed_post io job link) of
         TransportError \<Rightarrow> None | Responded code \<Rightarrow> if code > 0 then Some code else None),
      d_delivered = delivered_ok io job link, d_dead_letter = dead\<rparr>"

text \<open>A schedule in which no other process changes anything; connections may still be lost.\<close>

definition solitary :: "'q schedule \<Rightarrow> bool" where
  "solitary s \<longleftrightarrow> (\<forall>k x. others s k x = x)"

lemma solitary_db_call:
  "solitary s \<Longrightarrow> db_call s f w = (fst (f (net_of s (wtick w)) (clock s (wtick w)) (wdb w)),
     w\<lparr>wdb := snd (f (net_of s (wtick w)) (clock s (wtick w)) (wdb w)), wtick := Suc (wtick w)\<rparr>)"
  by (simp add: solitary_def db_call_def Let_def split: prod.splits)

lemma Deliver_signed:
  "\<exists>code derr. Deliver (wh_post io) (CallbackURL job) (wh_marshal io (webhook_body io job link)) (wh_now io)
      (SignPayload (wh_hmac io) (wh_secret io) (wh_now io) (wh_marshal io (webhook_body io job link)))
      = ([signed_post io job link], code, derr)
    \<and> (derr = None \<longleftrightarrow> delivered_ok io job link)
    \<and> (if code > 0 then Some code else None)
        = (case wh_post io (signed_post io job link) of TransportError \<Rightarrow> None | Responded c \<Rightarrow> if c > 0 then Some c else None)"
  by (auto simp: Deliver_def signed_post_def delivered_ok_def answered_2xx_def SignPayload_def Let_def
      split: http_result.splits)

lemma webhook_attempt_posts:
  assumes "webhook_attempt s io i job link w = (oc, posts, w')"
  shows "posts = [signed_post io job link] \<and> (oc = Success \<longleftrightarrow> delivered_ok io job link)"
  using assms Deliver_signed [of io job link]
  by (auto simp: webhook_attempt_def Let_def split: prod.splits option.splits)

lemma webhook_attempt_row:
  assumes al: "solitary s" and j: "find_job i (wdb w) = Some j"
    and fresh: "wh_fresh io \<notin> d_id ` set (deliveries_tbl (wdb w))"
    and r: "webhook_attempt s io i job link w = (oc, posts, w')"
  shows "deliveries_tbl (wdb w') = deliveries_tbl (wdb w)
    @ (if net_of s (wtick w) = LostBefore then []
       else [attempt_row io i job link (\<not> delivered_ok io job link \<and> wh_maxRetry io \<le> wh_retryCount io
               \<and> net_of s (wtick w) = Works \<and> net_of s (Suc (wtick w)) \<noteq> LostBefore)])"
proof -
  obtain code derr where d: "Deliver (wh_post io) (CallbackURL job) (wh_marshal io (webhook_body io job link)) (wh_now io)
      (SignPayload (wh_hmac io) (wh_secret io) (wh_now io) (wh_marshal io (webhook_body io job link)))
      = ([signed_post io job link], code, derr)"
    and acc: "derr = None \<longleftrightarrow> delivered_ok io job link"
    and code: "(if code > 0 then Some code else None)
        = (case wh_post io (signed_post io job link) of TransportError \<Rightarrow> None | Responded c \<Rightarrow> if c > 0 then Some c else None)"
    using Deliver_signed [of io job link] by blast
  let ?n = "net_of s (wtick w)" and ?m = "net_of s (Suc (wtick w))"
  let ?d1 = "if ?n = LostBefore then wdb w
       else (wdb w)\<lparr>deliveries_tbl := deliveries_tbl (wdb w) @ [attempt_row io i job link False]\<rparr>"
  let ?w1 = "(RecordWebhookDelivery (derr = None) w)\<lparr>wdb := ?d1, wtick := Suc (wtick w)\<rparr>"
  let ?rec = "if ?n = Works then Inr (wh_fresh io) else Inl ConnectionLost"
  have "RecordAttempt n (wh_fresh io) i (CallbackURL job) (wh_retryCount io + 1)
      (if code > 0 then Some code else None) (derr = None) (wdb w)
    = (if n = Works then Inr (wh_fresh io) else Inl ConnectionLost,
       if n = LostBefore then wdb w
       else (wdb w)\<lparr>deliveries_tbl := deliveries_tbl (wdb w) @ [attempt_row io i job link False]\<rparr>)" for n
    unfolding code acc using j by (simp add: RecordAttempt_def begin_func_def attempt_row_def split: net.split)
  then have rec: "db_call s (\<lambda>n now. RecordAttempt n (wh_fresh io) i (CallbackURL job)
             (wh_retryCount io + 1) (if code > 0 then Some code else None) (derr = None))
             (RecordWebhookDelivery (derr = None) w) = (?rec, ?w1)"
    by (simp add: solitary_db_call [OF al] RecordWebhookDelivery_def)
  have keep: "map (\<lambda>x. if d_id x = wh_fresh io then x\<lparr>d_dead_letter := True\<rparr> else x) (deliveries_tbl (wdb w))
      = deliveries_tbl (wdb w)"
    using fresh by (intro map_idI) (metis image_eqI)
  have "deliveries_tbl (wdb (snd (db_call s (\<lambda>n now. MarkDeadLetter n (wh_fresh io)) ?w1)))
      = (if ?m = LostBefore then deliveries_tbl ?d1
         else map (\<lambda>x. if d_id x = wh_fresh io then x\<lparr>d_dead_letter := True\<rparr> else x) (deliveries_tbl ?d1))"
    by (simp add: solitary_db_call [OF al] MarkDeadLetter_def begin_func_def split: net.split)
  then have dead: "deliveries_tbl (wdb (snd (db_call s (\<lambda>n now. MarkDeadLetter n (wh_fresh io)) ?w1)))
      = deliveries_tbl (wdb w) @ [attempt_row io i job link (?m \<noteq> LostBefore)]" if "?n \<noteq> LostBefore"
    using that by (simp add: keep attempt_row_def)
  have "w' = (case derr of None \<Rightarrow> ?w1 | Some e \<Rightarrow> (case ?rec of Inl _ \<Rightarrow> ?w1
      | Inr did \<Rightarrow> if wh_maxRetry io \<le> wh_retryCount io
          then snd (db_call s (\<lambda>n now. MarkDeadLetter n did) ?w1) else ?w1))"
    using r unfolding webhook_attempt_def d Let_def prod.case rec by (cases derr) simp_all
  then show ?thesis
    using acc dead by (cases derr; cases "?n = Works"; cases "wh_maxRetry io \<le> wh_retryCount io") simp_all
qed

lemma webhook_link_solitary:
  assumes "solitary s" "webhook_link s io job w = (lk, w1)"
  shows "wdb w1 = wdb w \<and> wtick w1 = wtick w + (if Status job = StatusDone then 1 else 0)"
  using assms(2) by (auto simp: webhook_link_def solitary_db_call [OF assms(1)] Let_def split: if_splits sum.splits list.splits)

lemma webhook_link_Inr:
  "webhook_link s io job w = (Inr link, w1) \<Longrightarrow> link \<noteq> None \<longleftrightarrow> Status job = StatusDone"
  by (auto simp: webhook_link_def Let_def split: if_splits sum.splits list.splits prod.splits)

text \<open>C26: A delivery attempt and its record. Under any interleaving and any lost connections the handler
  sends no request, and then does not report success, or exactly one: the signed body of the row it
  read, with a download link exactly when that row is done, to the callback URL of that row; and it
  reports success exactly when the receiver answered 2xx. When no other process interferes, an attempt
  that sent nothing records nothing, and one that sent its request leaves exactly one row, with the
  attempt number, the answered code and whether it was 2xx, flagged as dead letter exactly when the
  last permitted attempt failed. A connection lost around the record leaves no row or an unflagged
  one. And the request is sent whenever the job has a callback URL, its reads come through and,
  when it is done, its first output can be presigned.\<close>

theorem webhook_attempt_recorded:
  assumes r: "HandleWebhookDeliver s io (Some i) w = (oc, posts, w')"
  shows "(if posts = [] then oc \<noteq> Success \<and> (solitary s \<longrightarrow> deliveries_tbl (wdb w') = deliveries_tbl (wdb w))
      else \<exists>job link. Get (net_of s (wtick w)) i (db_seen s w) = Inr job \<and> CallbackURL job \<noteq> []
        \<and> (link \<noteq> None \<longleftrightarrow> Status job = StatusDone) \<and> posts = [signed_post io job link]
        \<and> (oc = Success \<longleftrightarrow> delivered_ok io job link)
        \<and> (solitary s \<and> wh_fresh io \<notin> d_id ` set (deliveries_tbl (wdb w)) \<longrightarrow>
            (let k = wtick w + (if Status job = StatusDone then 2 else 1) in
             deliveries_tbl (wdb w') = deliveries_tbl (wdb w)
               @ (if net_of s k = LostBefore then []
                  else [attempt_row io i job link (oc \<noteq> Success \<and> wh_maxRetry io \<le> wh_retryCount io
                          \<and> net_of s k = Works \<and> net_of s (Suc k) \<noteq> LostBefore)]))))
    \<and> (\<forall>j u link. solitary s \<and> net_of s (wtick w) = Works \<and> find_job i (wdb w) = Some j
        \<and> callback_url j = Some u \<and> u \<noteq> []
        \<and> (if status j = StatusDone then net_of s (Suc (wtick w)) = Works
              \<and> (\<exists>f fs l. Outputs Works i (wdb w) = Inr (f # fs) \<and> wh_presign io (object_key f) = Inr l \<and> link = Some l)
            else link = None) \<longrightarrow>
        posts = [signed_post io (job_of_row j) link])"
proof (intro conjI allI impI)
  obtain ld w1 where 1: "db_call s (\<lambda>n now d. (Get n i d, d)) w = (ld, w1)" by force
  have ld: "ld = Get (net_of s (wtick w)) i (db_seen s w)"
    using 1 by (auto simp: db_call_def db_seen_def Let_def split: prod.splits)
  have al1: "wdb w1 = wdb w \<and> wtick w1 = Suc (wtick w) \<and> db_seen s w = wdb w" if "solitary s"
    using 1 that by (auto simp: solitary_db_call [OF that] db_seen_def solitary_def)
  show "if posts = [] then oc \<noteq> Success \<and> (solitary s \<longrightarrow> deliveries_tbl (wdb w') = deliveries_tbl (wdb w))
      else \<exists>job link. Get (net_of s (wtick w)) i (db_seen s w) = Inr job \<and> CallbackURL job \<noteq> []
        \<and> (link \<noteq> None \<longleftrightarrow> Status job = StatusDone) \<and> posts = [signed_post io job link]
        \<and> (oc = Success \<longleftrightarrow> delivered_ok io job link)
        \<and> (solitary s \<and> wh_fresh io \<notin> d_id ` set (deliveries_tbl (wdb w)) \<longrightarrow>
            (let k = wtick w + (if Status job = StatusDone then 2 else 1) in
             deliveries_tbl (wdb w') = deliveries_tbl (wdb w)
               @ (if net_of s k = LostBefore then []
                  else [attempt_row io i job link (oc \<noteq> Success \<and> wh_maxRetry io \<le> wh_retryCount io
                          \<and> net_of s k = Works \<and> net_of s (Suc k) \<noteq> LostBefore)])))"
  proof (cases "\<exists>job. ld = Inr job \<and> CallbackURL job \<noteq> []")
    case False
    then show ?thesis
      using r 1 al1 by (auto simp: HandleWebhookDeliver_def ParseWebhookPayload_def split: sum.splits if_splits)
  next
    case True
    then obtain job where job: "ld = Inr job" "CallbackURL job \<noteq> []" by blast
    obtain lk w2 where 2: "webhook_link s io job w1 = (lk, w2)" by force
    note al2 = webhook_link_solitary [OF _ 2]
    show ?thesis
    proof (cases lk)
      case (Inl e)
      then show ?thesis
        using r 1 2 job al1 al2 by (auto simp: HandleWebhookDeliver_def ParseWebhookPayload_def)
    next
      case (Inr link)
      then have att: "webhook_attempt s io i job link w2 = (oc, posts, w')"
        using r 1 2 job by (simp add: HandleWebhookDeliver_def ParseWebhookPayload_def)
      have posts: "posts = [signed_post io job link]" "oc = Success \<longleftrightarrow> delivered_ok io job link"
        using webhook_attempt_posts [OF att] by simp_all
      have row: "let k = wtick w + (if Status job = StatusDone then 2 else 1) in
             deliveries_tbl (wdb w') = deliveries_tbl (wdb w)
               @ (if net_of s k = LostBefore then []
                  else [attempt_row io i job link (oc \<noteq> Success \<and> wh_maxRetry io \<le> wh_retryCount io
                          \<and> net_of s k = Works \<and> net_of s (Suc k) \<noteq> LostBefore)])"
        if al: "solitary s" and fresh: "wh_fresh io \<notin> d_id ` set (deliveries_tbl (wdb w))"
      proof -
        have w2: "wdb w2 = wdb w" "wtick w2 = wtick w + (if Status job = StatusDone then 2 else 1)"
          using al1 [OF al] al2 [OF al] by simp_all
        obtain j where "find_job i (wdb w2) = Some j"
          using ld job(1) al1 [OF al] w2(1) by (auto simp: Get_def split: if_splits option.splits)
        from webhook_attempt_row [OF al this _ att] fresh show ?thesis
          unfolding posts(2) w2 Let_def by simp
      qed
      have "posts \<noteq> []" "Get (net_of s (wtick w)) i (db_seen s w) = Inr job" using posts ld job by simp_all
      with job(2) posts row webhook_link_Inr [OF 2 [unfolded Inr]] show ?thesis
        by (simp only: if_False) (intro exI [of _ job] exI [of _ link] conjI impI; blast)
    qed
  qed
  show "posts = [signed_post io (job_of_row j) link]"
    if h: "solitary s \<and> net_of s (wtick w) = Works \<and> find_job i (wdb w) = Some j
        \<and> callback_url j = Some u \<and> u \<noteq> []
        \<and> (if status j = StatusDone then net_of s (Suc (wtick w)) = Works
              \<and> (\<exists>f fs l. Outputs Works i (wdb w) = Inr (f # fs) \<and> wh_presign io (object_key f) = Inr l \<and> link = Some l)
            else link = None)" for j u link
  proof -
    have job: "ld = Inr (job_of_row j)" "CallbackURL (job_of_row j) \<noteq> []" "ID (job_of_row j) = i"
      "Status (job_of_row j) = status j"
      using h ld al1 find_job_SomeD [of i "wdb w" j] by (auto simp: Get_def job_of_row_def deref_def)
    obtain w2 where "webhook_link s io (job_of_row j) w1 = (Inr link, w2)"
      using h job al1 by (auto simp: webhook_link_def solitary_db_call [OF conjunct1 [OF h]] split: if_splits)
    then have "webhook_attempt s io i (job_of_row j) link w2 = (oc, posts, w')"
      using r 1 job by (simp add: HandleWebhookDeliver_def ParseWebhookPayload_def)
    from webhook_attempt_posts [OF this] show ?thesis by simp
  qed
qed

text \<open>A finished job whose delivery is answered 500 on the last attempt, over a connection that works and over
  one that loses the record.\<close>

definition demo_webhook_io :: webhook_io where
  "demo_webhook_io = \<lparr>wh_dberr = \<lambda>_. \<lparr>Error = [], chain_of = []\<rparr>, wh_presign = \<lambda>_. Inr ''u'',
     wh_post = \<lambda>_. Responded 500, wh_marshal = \<lambda>_. [], wh_hmac = \<lambda>_ _. [], wh_secret = [], wh_now = 60,
     wh_retryCount = 6, wh_maxRetry = 6, wh_fresh = 1, wh_uuid = \<lambda>_. []\<rparr>"

theorem webhook_attempt_recorded_witness:
  "\<exists>oc p row w'. HandleWebhookDeliver (quiet 60) demo_webhook_io (Some 5) (demo_world demo_active) = (oc, [p], w')
     \<and> oc \<noteq> Success \<and> wp_url p = ''https://x'' \<and> deliveries_tbl (wdb w') = [row]
     \<and> d_status_code row = Some 500 \<and> d_dead_letter row"
proof -
  obtain oc posts w' where r: "HandleWebhookDeliver (quiet 60) demo_webhook_io (Some 5) (demo_world demo_active)
      = (oc, posts, w')" by (metis surj_pair)
  have "map_option (\<lambda>j. (status j, callback_url j)) (find_job 5 demo_active) = Some (StatusActive, Some ''https://x'')"
    "deliveries_tbl demo_active = []" by code_simp+
  then obtain j where j: "find_job 5 demo_active = Some j" "callback_url j = Some ''https://x''" "status j = StatusActive"
    "deliveries_tbl demo_active = []" by auto
  note h = webhook_attempt_recorded [OF r]
  have q: "solitary (quiet 60 :: unit schedule)" "net_of (quiet 60 :: unit schedule) k = Works" for k
    by (simp_all add: solitary_def quiet_def)
  have posts: "posts = [signed_post demo_webhook_io (job_of_row j) None]"
    using conjunct2 [OF h, rule_format, of j "''https://x''" None] j q
    by (simp add: demo_world_def status_defs)
  obtain job link where "posts = [signed_post demo_webhook_io job link]"
    "oc = Success \<longleftrightarrow> delivered_ok demo_webhook_io job link"
    "deliveries_tbl (wdb w') = [attempt_row demo_webhook_io 5 job link (oc \<noteq> Success)]"
    using conjunct1 [OF h] posts q j(4) by (auto simp: demo_world_def Let_def demo_webhook_io_def)
  moreover have "\<not> delivered_ok demo_webhook_io job link" for job link
    by (simp add: delivered_ok_def answered_2xx_def demo_webhook_io_def)
  moreover have "wp_url (signed_post demo_webhook_io (job_of_row j) None) = ''https://x''"
    using j(2) by (simp add: signed_post_def job_of_row_def deref_def Let_def)
  ultimately show ?thesis
    using r posts by (intro exI [of _ oc] exI conjI) (auto simp: attempt_row_def demo_webhook_io_def)
qed

end
