(* ===== verification/Api.thy ===== *)
theory Api
  imports Upload Presets Worker
begin

text \<open>
  The job endpoints of \<open>internal/api\<close>: \<open>handleCreateJob\<close> with its writes to the object store, the
  database and the broker, \<open>handleGetJob\<close>, \<open>handleHealth\<close>, \<open>handleListFormats\<close> and the operator gate.
  Database and broker calls go through the interleaved world; what third parties answer (the object
  store, the form and JSON scanners, the text of identifiers) is the record \<open>api_io\<close>.
\<close>

subsection \<open>Responses\<close>

record http_reply =
  r_status :: nat
  r_body :: json

definition writeJSON :: "nat \<Rightarrow> json \<Rightarrow> http_reply" where
  "writeJSON st v = \<lparr>r_status = st, r_body = v\<rparr>"

definition writeError :: "nat \<Rightarrow> string \<Rightarrow> http_reply" where
  "writeError st msg = writeJSON st (JsonObj [(''error'', JsonStr msg)])"

subsection \<open>Requests\<close>

definition formFieldFile :: string where "formFieldFile = ''file''"
definition formFieldTarget :: string where "formFieldTarget = ''target''"
definition formFieldCallbackURL :: string where "formFieldCallbackURL = ''callback_url''"
definition formFieldOpts :: string where "formFieldOpts = ''opts''"
definition formFieldPreset :: string where "formFieldPreset = ''preset''"
definition operationConv :: string where "operationConv = ''convert''"
definition maxPresetNameBytes :: nat where "maxPresetNameBytes = 128"
definition errUnknownPreset :: string where "errUnknownPreset = ''unknown or inactive preset''"

text \<open>What \<open>ParseMultipartForm\<close> yields under a body limit; absent fields have the value \<open>[]\<close>.\<close>

record form =
  FormValue :: "string \<Rightarrow> string"
  FormFile :: "string \<Rightarrow> upload option"

datatype form_error = MaxBytesError | FormMalformed

type_synonym form_request = "int \<Rightarrow> form_error + form"

text \<open>The object store: what each key holds, with its content type.\<close>

type_synonym objects = "string \<rightharpoonup> bytes \<times> string"

record api_io =
  json_read :: "string \<Rightarrow> json_doc"
  json_text :: "opts \<Rightarrow> string"
  uuid_text :: "uuid \<Rightarrow> string"
  uuid_New :: uuid
  uuid_Parse :: "string \<Rightarrow> uuid option"
  PutObject :: "string \<Rightarrow> reader \<Rightarrow> nat \<Rightarrow> string \<Rightarrow> objects \<Rightarrow> bool \<times> objects"
  PresignGet :: "string \<Rightarrow> int \<Rightarrow> string option"
  presets_at :: "nat \<Rightarrow> net \<times> preset_row list"
  callback_lib :: net_lib
  callback_vars :: callback_env

text \<open>The \<open>k\<close>-th \<open>Resolve\<close> of a request; other processes may have written in between.\<close>

definition resolve_call :: "api_io \<Rightarrow> nat \<Rightarrow> uuid \<Rightarrow> string \<Rightarrow> preset_error + preset_row" where
  "resolve_call io k cid nm = (let (n, rows) = presets_at io k in Resolve n cid nm rows)"

definition resolve_preset :: "api_io \<Rightarrow> nat \<Rightarrow> uuid \<Rightarrow> string \<Rightarrow> preset_row step" where
  "resolve_preset io k cid nm =
     (case resolve_call io k cid nm of
        Inr p \<Rightarrow> Go p
      | Inl e \<Rightarrow> if e = PresetNotFound then Refuse 422 errUnknownPreset else Refuse 500 ''failed to resolve preset'')"

subsection \<open>Before any write\<close>

text \<open>What the handler knows when it starts to write.\<close>

record job_plan =
  jp_engine :: string
  jp_detected :: string
  jp_target :: string
  jp_filename :: string
  jp_rest :: reader
  jp_size :: nat
  jp_callback :: string
  jp_opts :: "opts option"
  jp_preset :: "preset_row option"
  jp_presetName :: string

definition check_shape :: "form \<Rightarrow> unit step" where
  "check_shape fm =
     (let presetName = FormValue fm formFieldPreset; rawTarget = FormValue fm formFieldTarget;
          rawOpts = FormValue fm formFieldOpts; usingPreset = (presetName \<noteq> []) in
      and_then (demand (\<not> (usingPreset \<and> (rawTarget \<noteq> [] \<or> (rawOpts \<noteq> [] \<and> rawOpts \<noteq> ''{}'')))) 422
        ''specify either preset or target/opts, not both'') (\<lambda>_.
      and_then (demand (\<not> (usingPreset \<and> maxPresetNameBytes < length presetName)) 400
        ''invalid preset name'') (\<lambda>_.
      demand (usingPreset \<or> NormalizeFormat rawTarget \<noteq> []) 400 ''missing target format'')))"

definition parse_form :: "server \<Rightarrow> form_request \<Rightarrow> form step" where
  "parse_form s rq =
     (case rq (maxUploadByte s) of
        Inl MaxBytesError \<Rightarrow> Refuse 413 ''file exceeds size limit''
      | Inl FormMalformed \<Rightarrow> Refuse 400 ''invalid multipart form''
      | Inr fm \<Rightarrow> Go fm)"

definition source_of :: "string \<Rightarrow> string" where
  "source_of file = NormalizeFormat (TrimPrefix (path_Ext file) ''.'')"

definition find_preset :: "api_io \<Rightarrow> uuid \<Rightarrow> string \<Rightarrow> preset_row option step" where
  "find_preset io cid presetName =
     (if presetName = [] then Go None else and_then (resolve_preset io 0 cid presetName) (\<lambda>p. Go (Some p)))"

definition opts_source :: "api_io \<Rightarrow> preset_row option \<Rightarrow> string \<Rightarrow> string" where
  "opts_source io p rawOpts =
     (case p of
        None \<Rightarrow> rawOpts
      | Some row \<Rightarrow> if pr_Options row \<noteq> [] then json_text io (pr_Options row) else [])"

definition wanted_target :: "form \<Rightarrow> preset_row option \<Rightarrow> string" where
  "wanted_target fm p =
     NormalizeFormat (case p of None \<Rightarrow> FormValue fm formFieldTarget | Some row \<Rightarrow> pr_TargetFormat row)"

definition plan_job :: "server \<Rightarrow> api_io \<Rightarrow> uuid \<Rightarrow> form_request \<Rightarrow> job_plan step" where
  "plan_job s io cid rq =
     and_then (parse_form s rq) (\<lambda>fm.
     and_then (check_shape fm) (\<lambda>_.
     case FormFile fm formFieldFile of
       None \<Rightarrow> Refuse 400 ''missing file''
     | Some u \<Rightarrow>
         let file = path_Base (up_Filename u);
             source = source_of file;
             callbackURL = FormValue fm formFieldCallbackURL in
         and_then (demand (source \<noteq> []) 400 ''cannot determine source format from filename'') (\<lambda>_.
         and_then (find_preset io cid (FormValue fm formFieldPreset)) (\<lambda>p.
         let target = wanted_target fm p in
         and_then (check_content s file source target u) (\<lambda>(eng, detected, rest).
         and_then (demand (callbackURL = [] \<or> validateCallbackURL (callback_lib io) (callback_vars io) callbackURL = None)
           400 ''invalid callback_url'') (\<lambda>_.
         and_then (check_opts (json_read io) eng detected target (opts_source io p (FormValue fm formFieldOpts))) (\<lambda>m.
         Go \<lparr>jp_engine = eng, jp_detected = detected, jp_target = target, jp_filename = file, jp_rest = rest,
             jp_size = up_Size u, jp_callback = callbackURL, jp_opts = m, jp_preset = p,
             jp_presetName = FormValue fm formFieldPreset\<rparr>)))))))"

subsection \<open>The writes\<close>

definition plan_key :: "api_io \<Rightarrow> job_plan \<Rightarrow> string" where
  "plan_key io jp = InputKey (uuid_text io) (uuid_New io) 0 (jp_filename jp)"

definition put_plan :: "api_io \<Rightarrow> job_plan \<Rightarrow> objects \<Rightarrow> bool \<times> objects" where
  "put_plan io jp store = PutObject io (plan_key io jp) (jp_rest jp) (jp_size jp) (MIMEType (jp_detected jp)) store"

definition plan_params :: "api_io \<Rightarrow> uuid \<Rightarrow> job_plan \<Rightarrow> create_params" where
  "plan_params io cid jp =
     \<lparr>p_ID = uuid_New io, p_ClientID = cid, p_Operation = operationConv, p_Engine = jp_engine jp,
      p_SourceFormat = jp_detected jp, p_TargetFormat = jp_target jp, p_CallbackURL = jp_callback jp,
      p_Opts = jp_opts jp,
      p_PresetName = (case jp_preset jp of None \<Rightarrow> [] | Some p \<Rightarrow> pr_Name p),
      p_PresetVersion = (case jp_preset jp of None \<Rightarrow> 0 | Some p \<Rightarrow> int (pr_Version p)),
      p_Input = \<lparr>f_job = uuid_New io, ordinal = 0, object_key = plan_key io jp, filename = jp_filename jp,
        format = jp_detected jp, size_bytes = jp_size jp, content_type = MIMEType (jp_detected jp)\<rparr>\<rparr>"

text \<open>The preset is looked up again just before the row is written.\<close>

definition recheck_preset :: "api_io \<Rightarrow> uuid \<Rightarrow> job_plan \<Rightarrow> unit step" where
  "recheck_preset io cid jp =
     (case jp_preset jp of
        None \<Rightarrow> Go ()
      | Some p \<Rightarrow>
          and_then (resolve_preset io 1 cid (jp_presetName jp)) (\<lambda>p2.
          demand (pr_ID p2 = pr_ID p \<and> pr_Version p2 = pr_Version p) 422 errUnknownPreset))"

text \<open>The switch on the engine class; \<open>None\<close> is its default case.\<close>

definition enqueue_created ::
  "'q broker \<Rightarrow> Client \<Rightarrow> string \<Rightarrow> uuid \<Rightarrow> ('q \<Rightarrow> (enq_error + unit) \<times> 'q) option" where
  "enqueue_created enq c eng createdID =
     (if eng = EngineImage then Some (EnqueueImageConvert enq c createdID)
      else if eng = EngineDocument then Some (EnqueueDocumentConvert enq c createdID)
      else if eng = EngineHTML then Some (EnqueueHTMLConvert enq c createdID)
      else if eng = EngineAudio then Some (EnqueueAudioConvert enq c createdID)
      else if eng = EngineAV then Some (EnqueueAVConvert enq c createdID)
      else None)"

definition accepted_body :: "api_io \<Rightarrow> uuid \<Rightarrow> opts option \<Rightarrow> json" where
  "accepted_body io createdID m =
     JsonObj ([(''job_id'', JsonStr (uuid_text io createdID))]
       @ (case m of Some o' \<Rightarrow> if o' \<noteq> [] then [(''opts'', JsonObj o')] else [] | None \<Rightarrow> [])
       @ [(''status'', JsonStr StatusQueued)])"

definition record_job ::
  "'q broker \<Rightarrow> Client \<Rightarrow> api_io \<Rightarrow> 'q schedule \<Rightarrow> uuid \<Rightarrow> job_plan \<Rightarrow> 'q world \<Rightarrow> http_reply \<times> 'q world" where
  "record_job enq c io s cid jp w =
     (let (created, w1) = db_call s (\<lambda>n now. Create n now (uuid_New io) (plan_params io cid jp)) w
      in case created of
           Inl _ \<Rightarrow> (writeError 500 ''failed to create job'', w1)
         | Inr createdID \<Rightarrow>
             (case enqueue_created (traced enq) c (jp_engine jp) createdID of
                None \<Rightarrow> (writeError 500 ''failed to enqueue job'', w1)
              | Some f \<Rightarrow>
                  (let (r, w2) = q_call s f w1
                   in case r of
                        Inl _ \<Rightarrow> (writeError 500 ''failed to enqueue job'', w2)
                      | Inr _ \<Rightarrow> (writeJSON 202 (accepted_body io createdID (jp_opts jp)), w2))))"

definition handleCreateJob ::
  "'q broker \<Rightarrow> Client \<Rightarrow> server \<Rightarrow> api_io \<Rightarrow> 'q schedule \<Rightarrow> uuid \<Rightarrow> form_request \<Rightarrow> 'q world \<times> objects
     \<Rightarrow> http_reply option \<times> 'q world \<times> objects" where
  "handleCreateJob enq c srv io s cid rq wo =
     (let (w, store) = wo in
      case plan_job srv io cid rq of
        Panic \<Rightarrow> (None, w, store)
      | Refuse st msg \<Rightarrow> (Some (writeError st msg), w, store)
      | Go jp \<Rightarrow>
          (let (stored, store') = put_plan io jp store
           in if \<not> stored then (Some (writeError 500 ''failed to store upload''), w, store')
              else case recheck_preset io cid jp of
                Panic \<Rightarrow> (None, w, store')
              | Refuse st msg \<Rightarrow> (Some (writeError st msg), w, store')
              | Go _ \<Rightarrow>
                  (let (resp, w') = record_job enq c io s cid jp w in (Some resp, w', store'))))"

subsection \<open>Reading a job\<close>

definition opts_field :: "opts \<Rightarrow> (string \<times> json) list" where
  "opts_field m = (if m \<noteq> [] then [(''opts'', JsonObj m)] else [])"

definition job_fields :: "api_io \<Rightarrow> Job \<Rightarrow> (string \<times> json) list" where
  "job_fields io job =
     [(''job_id'', JsonStr (uuid_text io (ID job))), (''status'', JsonStr (Status job))] @ opts_field (Opts job)"

definition error_fields :: "Job \<Rightarrow> (string \<times> json) list" where
  "error_fields job =
     (if ErrorCode job \<noteq> [] then [(''error_code'', JsonStr (ErrorCode job))] else [])
     @ (if ErrorMessage job \<noteq> [] then [(''error_message'', JsonStr (ErrorMessage job))] else [])"

definition job_body :: "(string \<times> json) list \<Rightarrow> json" where
  "job_body kvs = JsonObj (sort_key fst kvs)"

text \<open>The branch of a finished job, which asks for its outputs.\<close>

definition done_response ::
  "server \<Rightarrow> api_io \<Rightarrow> 'q schedule \<Rightarrow> Job \<Rightarrow> uuid \<Rightarrow> 'q world \<Rightarrow> http_reply \<times> 'q world" where
  "done_response srv io s job i w =
     (let (outs, w1) = db_call s (\<lambda>n now d. (Outputs n i d, d)) w
      in case outs of
           Inl _ \<Rightarrow> (writeError 500 ''failed to load outputs'', w1)
         | Inr fs \<Rightarrow>
             (case fs of
                [] \<Rightarrow> (writeJSON 200 (job_body (job_fields io job)), w1)
              | f # _ \<Rightarrow>
                  (case PresignGet io (object_key f) (presignTTL srv) of
                     None \<Rightarrow> (writeError 500 ''failed to presign output'', w1)
                   | Some u \<Rightarrow>
                       (writeJSON 200 (job_body (job_fields io job @ [(''download_url'', JsonStr u)])), w1))))"

definition handleGetJob ::
  "server \<Rightarrow> api_io \<Rightarrow> 'q schedule \<Rightarrow> uuid \<Rightarrow> string \<Rightarrow> 'q world \<Rightarrow> http_reply \<times> 'q world" where
  "handleGetJob srv io s cid idText w =
     (case uuid_Parse io idText of
        None \<Rightarrow> (writeError 400 ''invalid job id'', w)
      | Some i \<Rightarrow>
          (let (ld, w1) = db_call s (\<lambda>n now d. (Get n i d, d)) w
           in case ld of
                Inl e \<Rightarrow>
                  (if e = ErrNotFound then writeError 404 ''job not found'' else writeError 500 ''failed to load job'', w1)
              | Inr job \<Rightarrow>
                  if ClientID job \<noteq> cid then (writeError 404 ''job not found'', w1)
                  else if Status job = StatusDone then done_response srv io s job i w1
                  else if Status job = StatusFailed
                  then (writeJSON 200 (job_body (job_fields io job @ error_fields job)), w1)
                  else (writeJSON 200 (job_body (job_fields io job)), w1)))"

subsection \<open>The other endpoints\<close>

definition ping_text :: "bool \<Rightarrow> string" where
  "ping_text ok = (if ok then ''ok'' else ''unreachable'')"

text \<open>The arguments say which of Postgres, Redis and S3 answered their ping.\<close>

definition handleHealth :: "bool \<Rightarrow> bool \<Rightarrow> bool \<Rightarrow> http_reply" where
  "handleHealth postgres redis s3 =
     (let healthy = (postgres \<and> redis \<and> s3) in
      writeJSON (if healthy then 200 else 503)
        (JsonObj [(''postgres'', JsonStr (ping_text postgres)), (''redis'', JsonStr (ping_text redis)),
                  (''s3'', JsonStr (ping_text s3)),
                  (''status'', JsonStr (if healthy then ''ok'' else ''degraded''))]))"

text \<open>The rendered pairs per engine class; the order of the registry's entries is an argument.\<close>

definition handleListFormats :: "(Pair \<times> Converter) list \<Rightarrow> string \<rightharpoonup> (string list) list" where
  "handleListFormats entries = map_option (map (\<lambda>p. [fst p, snd p])) \<circ> Classes entries"

subsection \<open>The plan\<close>

lemma resolve_preset_no_panic: "resolve_preset io k cid nm \<noteq> Panic"
  by (auto simp: resolve_preset_def split: sum.split)

lemma check_opts_no_panic: "check_opts read eng d t raw \<noteq> Panic"
  by (auto simp: check_opts_def and_then_Panic normalize_opts_def normalized_def split: sum.split)

lemma plan_job_no_panic: "plan_job srv io cid rq \<noteq> Panic"
  by (auto simp: plan_job_def parse_form_def check_shape_def find_preset_def and_then_Panic Let_def
      resolve_preset_no_panic check_content_no_panic check_opts_no_panic
      split: sum.split option.split form_error.split)

lemma check_opts_Go:
  assumes "check_opts read eng d t raw = Go (Some m)"
  shows "readable_opts eng m"
  using assms normalize_opts_readable
  by (auto simp: check_opts_def and_then_Go split: if_splits)

text \<open>The task the handler enqueues for a job.\<close>

definition created_task :: "Client \<Rightarrow> string \<Rightarrow> uuid \<Rightarrow> Task option" where
  "created_task c eng i =
     (if eng = EngineImage then Some (NewImageConvertTask i (imageMaxRetry c) (imageUniqueTTL c))
      else if eng = EngineDocument then Some (NewDocumentConvertTask i (documentMaxRetry c) (documentUniqueTTL c))
      else if eng = EngineHTML then Some (NewHTMLConvertTask i (htmlMaxRetry c) (htmlUniqueTTL c))
      else if eng = EngineAudio then Some (NewAudioConvertTask i (audioMaxRetry c) (audioUniqueTTL c))
      else if eng = EngineAV then Some (NewAVConvertTask i (avMaxRetry c) (avUniqueTTL c))
      else None)"

lemma enqueue_created_task: "enqueue_created enq c eng i = map_option enq (created_task c eng i)"
  by (simp add: enqueue_created_def created_task_def EnqueueImageConvert_def EnqueueDocumentConvert_def
      EnqueueHTMLConvert_def EnqueueAudioConvert_def EnqueueAVConvert_def)

lemma engine_for_task:
  assumes "EngineFor Default d t = Some eng"
  shows "\<exists>cv. Lookup Default d t = Some cv \<and> converter_engine cv = eng \<and> created_task c eng i \<noteq> None"
proof -
  obtain cv where cv: "Lookup Default d t = Some cv" "converter_engine cv = eng"
    using assms by (auto simp: EngineFor_def split: option.splits)
  then have "created_task c eng i \<noteq> None"
    by (cases cv) (auto simp: created_task_def engine_defs)
  with cv show ?thesis by blast
qed

subsection \<open>What one request changes\<close>

text \<open>The row a plan becomes, whatever other processes do to it later.\<close>

definition row_of_plan :: "api_io \<Rightarrow> uuid \<Rightarrow> job_plan \<Rightarrow> job_row \<Rightarrow> bool" where
  "row_of_plan io cid jp j \<longleftrightarrow>
     id j = uuid_New io \<and> client_id j = Some cid \<and> engine j = jp_engine jp
     \<and> source_format j = Some (jp_detected jp) \<and> target_format j = Some (jp_target jp)
     \<and> callback_url j = Some (jp_callback jp)
     \<and> options j = (case jp_opts jp of None \<Rightarrow> [] | Some m \<Rightarrow> m)"

lemma row_of_plan_frame: "row_of_plan io cid jp j \<Longrightarrow> row_frame j j' \<Longrightarrow> row_of_plan io cid jp j'"
  by (auto simp: row_of_plan_def row_frame_def)

lemma row_of_plan_step:
  assumes "other_step d d'" "find_job i d = Some j" "row_of_plan io cid jp j"
  shows "\<exists>j'. find_job i d' = Some j' \<and> row_of_plan io cid jp j'"
  using assms row_of_plan_frame unfolding other_step_def keeps_rows_def by blast

lemma record_job_outcome:
  assumes "polite s" "uuid_New io \<noteq> 0" "record_job enq c io s cid jp w = (resp, w')"
  shows "r_status resp \<in> {202, 500}
    \<and> (if r_status resp = 202
       then \<exists>t j. created_task c (jp_engine jp) (uuid_New io) = Some t \<and> wsent w' = wsent w @ [t]
          \<and> find_job (uuid_New io) (wdb w') = Some j \<and> row_of_plan io cid jp j
       else wsent w' = wsent w)"
proof -
  let ?i = "uuid_New io"
  obtain r1 w1 where c1: "db_call s (\<lambda>n now. Create n now ?i (plan_params io cid jp)) w = (r1, w1)" by force
  have sent1: "wsent w1 = wsent w"
    using db_call_step [OF assms(1) _ c1] other_step_repository(1) by blast
  show ?thesis
  proof (cases r1)
    case (Inl e)
    with c1 assms(3) sent1 show ?thesis by (auto simp: record_job_def writeError_def writeJSON_def)
  next
    case (Inr i)
    with db_call_Inr [OF c1 [unfolded Inr]] obtain n now d where
      "Create n now ?i (plan_params io cid jp) d = (Inr i, wdb w1)" by blast
    from Create_row [OF this] assms(2) have i: "i = ?i"
      and row: "find_job ?i (wdb w1) = Some (new_job now ?i (plan_params io cid jp))"
      by (auto simp: plan_params_def)
    have plan: "row_of_plan io cid jp (new_job now ?i (plan_params io cid jp))"
      by (simp add: row_of_plan_def new_job_def plan_params_def)
    show ?thesis
    proof (cases "created_task c (jp_engine jp) ?i")
      case None
      with c1 Inr i assms(3) sent1 show ?thesis
        by (auto simp: record_job_def enqueue_created_task writeError_def writeJSON_def)
    next
      case (Some t)
      obtain r2 w2 where c2: "q_call s (traced enq t) w1 = (r2, w2)" by force
      have tr: "wsent w2 = wsent w @ (if r2 = Inr () then [t] else [])"
        using q_call_traced [OF c2] sent1 by simp
      obtain j where "find_job ?i (wdb w2) = Some j" "row_of_plan io cid jp j"
        using row_of_plan_step [OF q_call_step [OF assms(1) c2] row plan] by blast
      with c1 Inr i Some c2 tr assms(3) show ?thesis
        by (cases r2) (auto simp: record_job_def enqueue_created_task writeError_def writeJSON_def)
    qed
  qed
qed

subsection \<open>Properties\<close>

lemma plan_job_Go:
  assumes "plan_job srv io cid rq = Go jp"
  obtains fm u where "rq (maxUploadByte srv) = Inr fm" "FormFile fm formFieldFile = Some u"
    "jp_filename jp = path_Base (up_Filename u)" "jp_size jp = up_Size u"
    "jp_callback jp = FormValue fm formFieldCallbackURL"
    "jp_callback jp = [] \<or> validateCallbackURL (callback_lib io) (callback_vars io) (jp_callback jp) = None"
    "check_content srv (jp_filename jp) (source_of (jp_filename jp)) (jp_target jp) u
       = Go (jp_engine jp, jp_detected jp, jp_rest jp)"
    "check_opts (json_read io) (jp_engine jp) (jp_detected jp) (jp_target jp)
       (opts_source io (jp_preset jp) (FormValue fm formFieldOpts)) = Go (jp_opts jp)"
    "find_preset io cid (FormValue fm formFieldPreset) = Go (jp_preset jp)"
    "jp_target jp = wanted_target fm (jp_preset jp)"
  using assms
  by (auto simp: plan_job_def and_then_Go Let_def parse_form_def split: sum.splits option.splits form_error.splits)

text \<open>C11: Only runnable jobs are admitted. When the handler starts to write, the upload has a filename whose
  extension is the detected format, content that shows this format, a size and (for images) a pixel
  count within the limits; a registered converter handles the pair and its class has a queue; the
  callback address, if any, passed its check; the options, from the form or a preset, are ones the
  worker of that class will read; and the stream to be stored is the whole upload.\<close>

theorem job_admission:
  assumes "plan_job srv io cid rq = Go jp"
  shows "\<exists>fm u cv. rq (maxUploadByte srv) = Inr fm \<and> FormFile fm formFieldFile = Some u
    \<and> jp_filename jp = path_Base (up_Filename u) \<and> jp_detected jp = source_of (jp_filename jp)
    \<and> evidence srv u (jp_detected jp) \<and> jp_rest jp = up_stream u \<and> jp_size jp = up_Size u
    \<and> \<not> over_engine_limit srv (jp_engine jp) (jp_size jp)
    \<and> (if HasDimensionLimit (jp_detected jp)
       then \<exists>wh. Dimensions (jp_detected jp) (jp_rest jp) = Some (Inr wh, Some (jp_rest jp))
          \<and> pixels wh \<le> unat (maxImagePixels srv)
       else True)
    \<and> Lookup Default (jp_detected jp) (jp_target jp) = Some cv \<and> converter_engine cv = jp_engine jp
    \<and> created_task c (jp_engine jp) i \<noteq> None
    \<and> jp_callback jp = FormValue fm formFieldCallbackURL
    \<and> (jp_callback jp = [] \<or> validateCallbackURL (callback_lib io) (callback_vars io) (jp_callback jp) = None)
    \<and> (case jp_opts jp of None \<Rightarrow> True | Some m \<Rightarrow> readable_opts (jp_engine jp) m)"
proof -
  from plan_job_Go [OF assms] obtain fm u where pl: "rq (maxUploadByte srv) = Inr fm" "FormFile fm formFieldFile = Some u"
    "jp_filename jp = path_Base (up_Filename u)" "jp_size jp = up_Size u" "jp_callback jp = FormValue fm formFieldCallbackURL"
    "jp_callback jp = [] \<or> validateCallbackURL (callback_lib io) (callback_vars io) (jp_callback jp) = None"
    and cc: "check_content srv (jp_filename jp) (source_of (jp_filename jp)) (jp_target jp) u
       = Go (jp_engine jp, jp_detected jp, jp_rest jp)"
    and co: "check_opts (json_read io) (jp_engine jp) (jp_detected jp) (jp_target jp)
       (opts_source io (jp_preset jp) (FormValue fm formFieldOpts)) = Go (jp_opts jp)"
    by metis
  have sound: "jp_detected jp = source_of (jp_filename jp)" "evidence srv u (jp_detected jp)"
    "EngineFor Default (jp_detected jp) (jp_target jp) = Some (jp_engine jp)" "jp_rest jp = up_stream u"
    "\<not> over_engine_limit srv (jp_engine jp) (up_Size u)"
    "if HasDimensionLimit (jp_detected jp)
       then \<exists>wh. Dimensions (jp_detected jp) (jp_rest jp) = Some (Inr wh, Some (jp_rest jp))
          \<and> pixels wh \<le> unat (maxImagePixels srv)
       else True"
    using check_content_sound [OF cc] by blast+
  obtain cv where cv: "Lookup Default (jp_detected jp) (jp_target jp) = Some cv" "converter_engine cv = jp_engine jp"
    "created_task c (jp_engine jp) i \<noteq> None"
    using engine_for_task [OF sound(3)] by blast
  have "case jp_opts jp of None \<Rightarrow> True | Some m \<Rightarrow> readable_opts (jp_engine jp) m"
    using co check_opts_Go by (auto split: option.split)
  then show ?thesis
    using pl sound cv by (intro exI [of _ fm] exI [of _ u] exI [of _ cv] conjI) simp_all
qed

lemma resolve_preset_status: "resolve_preset io k cid nm = Refuse st msg \<Longrightarrow> st \<in> {422, 500}"
  by (auto simp: resolve_preset_def split: sum.splits if_splits)

lemma check_shape_status: "check_shape fm = Refuse st msg \<Longrightarrow> st \<in> {400, 422}"
  by (auto simp: check_shape_def Let_def and_then_Refuse)

lemma find_preset_status: "find_preset io cid nm = Refuse st msg \<Longrightarrow> st \<in> {422, 500}"
  by (auto simp: find_preset_def and_then_Refuse split: if_splits dest: resolve_preset_status)

lemma parse_form_status: "parse_form s rq = Refuse st msg \<Longrightarrow> st \<in> {400, 413}"
  by (auto simp: parse_form_def split: sum.splits form_error.splits)

lemma plan_job_status: "plan_job srv io cid rq = Refuse st msg \<Longrightarrow> st \<in> {400, 413, 422, 500}"
  by (auto simp: plan_job_def and_then_Refuse Let_def split: option.splits
      dest!: parse_form_status check_shape_status find_preset_status check_content_status check_opts_status)

lemma recheck_preset_status:
  "recheck_preset io cid jp \<noteq> Panic" "recheck_preset io cid jp = Refuse st msg \<Longrightarrow> st \<in> {422, 500}"
  by (auto simp: recheck_preset_def and_then_Panic and_then_Refuse resolve_preset_no_panic
      split: option.splits dest: resolve_preset_status)

text \<open>A concrete request: the smallest picture, to be converted to WebP.\<close>

definition demo_request :: form_request where
  "demo_request limit = Inr
     \<lparr>FormValue = \<lambda>k. if k = formFieldTarget then ''webp'' else [],
      FormFile = \<lambda>k. if k = formFieldFile then Some (upload_of ''cat.png'' demo_png None) else None\<rparr>"

definition demo_api :: api_io where
  "demo_api =
     \<lparr>json_read = \<lambda>_. Malformed, json_text = \<lambda>_. ''{}'', uuid_text = \<lambda>i. nat_digits i, uuid_New = 7,
      uuid_Parse = \<lambda>_. Some 7,
      PutObject = \<lambda>key r n ct store. (\<not> broken r, store(key \<mapsto> (avail r, ct))),
      PresignGet = \<lambda>key ttl. Some (''https://s3/'' @ key),
      presets_at = \<lambda>_. (Works, []),
      callback_lib = \<lparr>url_Parse = \<lambda>_. None, ParseAddr = \<lambda>_. None, LookupHost = \<lambda>_. None\<rparr>,
      callback_vars = \<lparr>WEBHOOK_ALLOW_INSECURE_HTTP = [], WEBHOOK_ALLOW_PRIVATE_IPS = []\<rparr>\<rparr>"

definition demo_plan :: job_plan where
  "demo_plan =
     \<lparr>jp_engine = EngineImage, jp_detected = ''png'', jp_target = ''webp'', jp_filename = ''cat.png'',
      jp_rest = \<lparr>avail = demo_png, broken = False\<rparr>, jp_size = 24, jp_callback = [], jp_opts = None,
      jp_preset = None, jp_presetName = []\<rparr>"

lemma demo_plan_job: "plan_job demo_server demo_api 3 demo_request = Go demo_plan"
proof -
  have nm: "path_Base ''cat.png'' = ''cat.png''" "source_of ''cat.png'' = ''png''"
    by (simp_all add: path_Base_def source_of_def path_Ext_def TrimPrefix_def has_prefix_def)
  have len: "length demo_png = 24" by (simp add: demo_png_def)
  have up: "up_Filename (upload_of ''cat.png'' demo_png None) = ''cat.png''"
    "up_Size (upload_of ''cat.png'' demo_png None) = 24"
    by (simp_all add: upload_of_def len)
  show ?thesis
    by (simp add: plan_job_def parse_form_def demo_request_def check_shape_def Let_def demand_def
        formFieldPreset_def formFieldTarget_def formFieldOpts_def formFieldFile_def formFieldCallbackURL_def
        find_preset_def wanted_target_def nm up demo_check check_opts_def opts_source_def demo_plan_def)
qed

theorem job_admission_witness:
  "evidence demo_server (upload_of ''cat.png'' demo_png None) ''png'' \<and> created_task demo_client EngineImage 7 \<noteq> None"
  using job_admission [OF demo_plan_job, of demo_client 7]
  by (auto simp: demo_plan_def demo_request_def)

text \<open>C12: One upload request, whatever other processes do meanwhile and whichever connection is lost, never
  panics and is all or nothing where it matters. A request that is refused before the writes changes
  nothing. An accepted one (202) has its object put under the job's key, its preset unchanged since
  it was read, its row in the database with the client, formats, engine, callback address and
  options of the request, and exactly one task sent, the convert task of its class. Any other
  answer has sent no task.\<close>

theorem create_job_outcome:
  assumes "polite s" and "uuid_New io \<noteq> 0"
    and "handleCreateJob enq c srv io s cid rq (w, store) = (r, w', store')"
  shows "r \<noteq> None
    \<and> (case plan_job srv io cid rq of
         Go jp \<Rightarrow>
           store' = snd (put_plan io jp store)
           \<and> (if r_status (the r) = 202
              then fst (put_plan io jp store) \<and> recheck_preset io cid jp = Go ()
                \<and> (\<exists>t j. created_task c (jp_engine jp) (uuid_New io) = Some t \<and> wsent w' = wsent w @ [t]
                     \<and> find_job (uuid_New io) (wdb w') = Some j \<and> row_of_plan io cid jp j)
              else wsent w' = wsent w \<and> r_status (the r) \<in> {422, 500})
       | _ \<Rightarrow> w' = w \<and> store' = store \<and> r_status (the r) \<in> {400, 413, 422, 500})"
proof (cases "plan_job srv io cid rq")
  case Panic
  with plan_job_no_panic show ?thesis by blast
next
  case (Refuse st msg)
  with assms(3) plan_job_status show ?thesis
    by (fastforce simp: handleCreateJob_def writeError_def writeJSON_def)
next
  case (Go jp)
  obtain stored after where put: "put_plan io jp store = (stored, after)" by force
  note run = assms(3) [unfolded handleCreateJob_def Let_def, simplified Go put split, simplified]
  show ?thesis
  proof (cases "stored")
    case False
    with run Go put show ?thesis by (auto simp: writeError_def writeJSON_def)
  next
    case stored: True
    show ?thesis
    proof (cases "recheck_preset io cid jp")
      case Panic
      with recheck_preset_status show ?thesis by blast
    next
      case (Refuse st msg)
      with run Go put stored recheck_preset_status show ?thesis
        by (fastforce simp: writeError_def writeJSON_def)
    next
      case ok: (Go _)
      obtain resp w2 where rec: "record_job enq c io s cid jp w = (resp, w2)" by force
      with run Go put stored ok record_job_outcome [OF assms(1,2) rec] show ?thesis by auto
    qed
  qed
qed

text \<open>The same request on a quiet service.\<close>

lemma quiet_polite': "polite (quiet now)"
  by (simp add: polite_def quiet_def)

lemma quiet_q_call_eq:
  "q_call (quiet now) (traced enq t) w =
     (let (r, q') = enq t (wq w)
      in (r, w\<lparr>wq := q', wsent := (if r = Inr () then wsent w @ [t] else wsent w), wtick := Suc (wtick w)\<rparr>))"
  by (auto simp: q_call_def quiet_def traced_def Let_def split: prod.split)

definition demo_run :: "http_reply option \<times> unit world \<times> objects" where
  "demo_run = handleCreateJob (\<lambda>t q. (Inr (), q)) demo_client demo_server demo_api (quiet 50) 3 demo_request
     (demo_world (empty_db [3]), Map.empty)"

lemma demo_put:
  "put_plan demo_api demo_plan st = (True, st(plan_key demo_api demo_plan \<mapsto> (demo_png, MIMEType ''png'')))"
  "recheck_preset demo_api 3 demo_plan = Go ()"
  by (simp add: put_plan_def) (simp_all add: demo_api_def demo_plan_def recheck_preset_def)

lemma demo_run_accepted: "r_status (the (fst demo_run)) = 202"
proof -
  have "fst (Create Works 50 7 (plan_params demo_api 3 demo_plan) (empty_db [3])) = Inr 7"
    by (simp add: Create_def plan_params_def demo_plan_def demo_api_def begin_func_def empty_db_def find_job_def
        operation_check_def operationConv_def engine_check_def EngineImage_def)
  moreover have "created_task demo_client EngineImage 7 \<noteq> None" by (simp add: created_task_def)
  moreover have "uuid_New demo_api = 7" "jp_engine demo_plan = EngineImage" by (simp_all add: demo_api_def demo_plan_def)
  ultimately show ?thesis
    by (auto simp: demo_run_def handleCreateJob_def demo_plan_job demo_put record_job_def quiet_db_call demo_world_def
        quiet_q_call_eq enqueue_created_task writeJSON_def split: prod.splits)
qed

theorem create_job_outcome_witness:
  "r_status (the (fst demo_run)) = 202 \<and> (\<exists>t. wsent (fst (snd demo_run)) = [t])"
proof -
  obtain r w' store' where run: "demo_run = (r, w', store')" by (cases demo_run) auto
  have "uuid_New demo_api \<noteq> 0" by (simp add: demo_api_def)
  moreover have "r_status (the r) = 202" using demo_run_accepted unfolding run by simp
  ultimately show ?thesis
    using create_job_outcome [OF quiet_polite' _ run [unfolded demo_run_def]]
    by (auto simp: demo_plan_job demo_world_def run)
qed

subsection \<open>Isolation of clients\<close>

definition owns :: "uuid \<Rightarrow> uuid \<Rightarrow> db \<Rightarrow> bool" where
  "owns cid i d \<longleftrightarrow> (case find_job i d of None \<Rightarrow> False | Some j \<Rightarrow> ClientID (job_of_row j) = cid)"

lemma handleGetJob_load:
  assumes "uuid_Parse io txt = Some i" "db_call s (\<lambda>n now d. (Get n i d, d)) w = (ld, w1)"
  shows "ld = Get (net_of s (wtick w)) i (db_seen s w)"
  using assms by (auto simp: db_call_def db_seen_def Let_def split: prod.splits)

lemma done_response_status: "r_status (fst (done_response srv io s job i w)) \<in> {200, 500}"
  by (auto simp: done_response_def writeError_def writeJSON_def split: prod.splits sum.splits list.splits option.splits)

text \<open>C13: Clients cannot see each other's jobs. A job that is missing and a job of another client give the
  same answer, status and body alike, whatever the job holds; and a lost connection answers the same
  for both. Only the owner ever gets anything else, and then never "not found".\<close>

theorem get_job_isolated:
  assumes "uuid_Parse io txt = Some i"
  shows "if owns cid i (db_seen s w)
    then r_status (fst (handleGetJob srv io s cid txt w)) \<in> {200, 500}
    else fst (handleGetJob srv io s cid txt w)
      = (if net_of s (wtick w) = Works then writeError 404 ''job not found''
         else writeError 500 ''failed to load job'')"
proof -
  obtain ld w1 where ld: "db_call s (\<lambda>n now d. (Get n i d, d)) w = (ld, w1)" by force
  with handleGetJob_load [OF assms ld] assms done_response_status [of srv io s _ i w1]
  show ?thesis
    by (auto simp: handleGetJob_def Get_def owns_def writeError_def writeJSON_def split: option.splits)
qed

theorem get_job_isolated_witness:
  "fst (handleGetJob demo_server (demo_api\<lparr>uuid_Parse := \<lambda>_. Some 5\<rparr>) (quiet 60) 4 ''5'' (demo_world demo_finished))
     = writeError 404 ''job not found''
   \<and> r_status (fst (handleGetJob demo_server (demo_api\<lparr>uuid_Parse := \<lambda>_. Some 5\<rparr>) (quiet 60) 1 ''5''
       (demo_world demo_finished))) \<in> {200, 500}"
proof -
  have own: "owns cid 5 (db_seen (quiet 60) (demo_world demo_finished)) \<longleftrightarrow> cid = 1" for cid
    by (auto simp: owns_def db_seen_def quiet_def demo_world_def find_demo_finished finished_job_def job_of_row_def
        new_job_def demo_params_def)
  have "uuid_Parse (demo_api\<lparr>uuid_Parse := \<lambda>_. Some 5\<rparr>) ''5'' = Some 5" by simp
  note get = get_job_isolated [OF this, where s = "quiet 60" and w = "demo_world demo_finished", unfolded own]
  show ?thesis
    using get [where cid = 4] get [where cid = 1] by (simp add: quiet_def)
qed

end
