(* ===== verification/PresetApi.thy ===== *)
theory PresetApi
  imports Api
begin

text \<open>
  The preset endpoints of \<open>internal/api\<close>: \<open>presets_handlers.go\<close> for a client's own presets and
  \<open>system_presets_handlers.go\<close> for the shared ones, behind the operator gate. The handlers of the two
  files differ in the scope, the owner and the query that reads the row back; each is an instance of
  one definition. The times of a row are not modelled.
\<close>

subsection \<open>Requests and responses\<close>

definition noSuchPreset :: string where "noSuchPreset = ''preset not found''"
definition invalidPresetName :: string where "invalidPresetName = ''invalid preset name''"

record presetRequest =
  rq_Name :: string
  rq_TargetFormat :: string
  rq_Options :: "opts option"
  rq_Description :: string

text \<open>The decoder's result on the size-capped body; \<open>None\<close> is an error.\<close>

definition decodePresetRequest :: "presetRequest option \<Rightarrow> presetRequest step" where
  "decodePresetRequest body = (case body of None \<Rightarrow> Refuse 400 ''invalid JSON body'' | Some rq \<Rightarrow> Go rq)"

definition newPresetResponse :: "preset_row \<Rightarrow> json" where
  "newPresetResponse p = JsonObj
     [(''name'', JsonStr (pr_Name p)), (''version'', JsonNum (int (pr_Version p))), (''scope'', JsonStr (pr_Scope p)),
      (''operation'', JsonStr (pr_Operation p)), (''target_format'', JsonStr (pr_TargetFormat p)),
      (''options'', JsonObj (pr_Options p)), (''description'', JsonStr (pr_Description p)),
      (''is_active'', JsonBool (pr_IsActive p))]"

definition validPresetName :: "string \<Rightarrow> bool" where
  "validPresetName nm \<longleftrightarrow> nm \<noteq> [] \<and> length nm \<le> maxPresetNameBytes"

text \<open>The connections of a request's statements, and what other processes do before each of them.\<close>

record preset_io =
  p_net :: "nat \<Rightarrow> net"
  p_others :: "nat \<Rightarrow> preset_row list \<Rightarrow> preset_row list"
  p_fresh :: uuid

type_synonym loader = "net \<Rightarrow> preset_row list \<Rightarrow> preset_error + preset_row"

subsection \<open>The handlers\<close>

definition answer_loaded :: "nat \<Rightarrow> string \<Rightarrow> preset_error + preset_row \<Rightarrow> http_reply" where
  "answer_loaded ok msg r =
     (case r of Inl _ \<Rightarrow> writeError 500 msg | Inr p \<Rightarrow> writeJSON ok (newPresetResponse p))"

definition create_preset ::
  "string \<Rightarrow> uuid option \<Rightarrow> (string \<Rightarrow> loader) \<Rightarrow> preset_io \<Rightarrow> presetRequest option \<Rightarrow> preset_row list
     \<Rightarrow> http_reply \<times> preset_row list" where
  "create_preset scope cid load io body d =
     (case decodePresetRequest body of
        Panic \<Rightarrow> (writeError 500 [], d)
      | Refuse st msg \<Rightarrow> (writeError st msg, d)
      | Go rq \<Rightarrow>
          if \<not> validPresetName (rq_Name rq) then (writeError 400 invalidPresetName, d)
          else if \<not> ValidateOptsJSON (opts_json (rq_Options rq)) then (writeError 422 ''invalid opts'', d)
          else
            (let (r, d1) = preset_Create (p_net io 0) (p_net io 1) (p_fresh io)
                   \<lparr>pp_Name = rq_Name rq, pp_Scope = scope, pp_ClientID = cid, pp_TargetFormat = rq_TargetFormat rq,
                    pp_Options = rq_Options rq, pp_Description = rq_Description rq\<rparr> (p_others io 1) (p_others io 0 d)
             in case r of
                  Inl e \<Rightarrow> (if e = AlreadyExists then writeError 409 ''preset already exists''
                           else writeError 500 ''failed to create preset'', d1)
                | Inr _ \<Rightarrow>
                    (let d2 = p_others io 2 d1
                     in (answer_loaded 201 ''failed to load created preset'' (load (rq_Name rq) (p_net io 2) d2), d2))))"

definition show_preset :: "(string \<Rightarrow> loader) \<Rightarrow> net \<Rightarrow> string \<Rightarrow> preset_row list \<Rightarrow> http_reply" where
  "show_preset load n nm d =
     (if \<not> validPresetName nm then writeError 400 invalidPresetName
      else case load nm n d of
        Inl e \<Rightarrow> if e = PresetNotFound then writeError 404 noSuchPreset else writeError 500 ''failed to load preset''
      | Inr p \<Rightarrow> writeJSON 200 (newPresetResponse p))"

definition list_presets :: "preset_error + preset_row list \<Rightarrow> http_reply" where
  "list_presets r =
     (case r of Inl _ \<Rightarrow> writeError 500 ''failed to list presets''
      | Inr ps \<Rightarrow> writeJSON 200 (JsonArr (map newPresetResponse ps)))"

definition update_preset ::
  "string \<Rightarrow> uuid option \<Rightarrow> (string \<Rightarrow> loader) \<Rightarrow> preset_io \<Rightarrow> string \<Rightarrow> presetRequest option \<Rightarrow> preset_row list
     \<Rightarrow> http_reply \<times> preset_row list" where
  "update_preset scope cid load io nm body d =
     (if \<not> validPresetName nm then (writeError 400 invalidPresetName, d)
      else case decodePresetRequest body of
        Panic \<Rightarrow> (writeError 500 [], d)
      | Refuse st msg \<Rightarrow> (writeError st msg, d)
      | Go rq \<Rightarrow>
          if \<not> ValidateOptsJSON (opts_json (rq_Options rq)) then (writeError 422 ''invalid opts'', d)
          else
            (let (r, d1) = preset_Update (p_net io 0) (p_fresh io) scope cid nm (rq_TargetFormat rq) (rq_Options rq)
                   (rq_Description rq) (p_others io 0 d)
             in case r of
                  Inl e \<Rightarrow> (if e = PresetNotFound then writeError 404 noSuchPreset
                           else writeError 500 ''failed to update preset'', d1)
                | Inr _ \<Rightarrow>
                    (let d2 = p_others io 1 d1
                     in (answer_loaded 200 ''failed to load updated preset'' (load nm (p_net io 1) d2), d2))))"

definition deactivate_preset ::
  "string \<Rightarrow> uuid option \<Rightarrow> preset_io \<Rightarrow> string \<Rightarrow> preset_row list \<Rightarrow> http_reply \<times> preset_row list" where
  "deactivate_preset scope cid io nm d =
     (if \<not> validPresetName nm then (writeError 400 invalidPresetName, d)
      else
        (let (r, d1) = preset_Deactivate (p_net io 0) scope cid nm (p_others io 0 d)
         in case r of
              Inl e \<Rightarrow> (if e = PresetNotFound then writeError 404 noSuchPreset
                       else writeError 500 ''failed to deactivate preset'', d1)
            | Inr _ \<Rightarrow> (writeJSON 200 (JsonObj [(''is_active'', JsonBool False), (''name'', JsonStr nm)]), d1)))"

text \<open>A client's own presets: the scope is fixed and the owner is the authenticated caller.\<close>

definition own_loader :: "uuid \<Rightarrow> string \<Rightarrow> loader" where
  "own_loader cid nm n d = GetForClient n cid nm d"

definition handleCreatePreset :: "uuid \<Rightarrow> preset_io \<Rightarrow> presetRequest option \<Rightarrow> preset_row list \<Rightarrow> http_reply \<times> preset_row list" where
  "handleCreatePreset cid = create_preset ScopeUser (Some cid) (own_loader cid)"

definition handleListPresets :: "uuid \<Rightarrow> net \<Rightarrow> string \<Rightarrow> preset_row list \<Rightarrow> http_reply" where
  "handleListPresets cid n all_param d = list_presets (ListForClient n cid (all_param = ''true'') d)"

definition handleShowPreset :: "uuid \<Rightarrow> net \<Rightarrow> string \<Rightarrow> preset_row list \<Rightarrow> http_reply" where
  "handleShowPreset cid = show_preset (own_loader cid)"

definition handleUpdatePreset ::
  "uuid \<Rightarrow> preset_io \<Rightarrow> string \<Rightarrow> presetRequest option \<Rightarrow> preset_row list \<Rightarrow> http_reply \<times> preset_row list" where
  "handleUpdatePreset cid = update_preset ScopeUser (Some cid) (own_loader cid)"

definition handleDeactivatePreset :: "uuid \<Rightarrow> preset_io \<Rightarrow> string \<Rightarrow> preset_row list \<Rightarrow> http_reply \<times> preset_row list" where
  "handleDeactivatePreset cid = deactivate_preset ScopeUser (Some cid)"

subsection \<open>System presets and the operator gate\<close>

fun split_comma :: "string \<Rightarrow> string list" where
  "split_comma [] = [[]]"
| "split_comma (c # cs) =
     (if c = CHR '','' then [] # split_comma cs
      else case split_comma cs of [] \<Rightarrow> [[c]] | t # ts \<Rightarrow> (c # t) # ts)"

fun parse_ids :: "(string \<Rightarrow> uuid option) \<Rightarrow> string list \<Rightarrow> string + uuid set" where
  "parse_ids parse [] = Inr {}"
| "parse_ids parse (tok # toks) =
     (let t = TrimSpace tok in
      if t = [] then parse_ids parse toks
      else case parse t of
        None \<Rightarrow> Inl t
      | Some i \<Rightarrow> (case parse_ids parse toks of Inl e \<Rightarrow> Inl e | Inr s \<Rightarrow> Inr (insert i s)))"

definition ParseOperatorClientIDs :: "(string \<Rightarrow> uuid option) \<Rightarrow> string \<Rightarrow> string + uuid set" where
  "ParseOperatorClientIDs parse raw = (if TrimSpace raw = [] then Inr {} else parse_ids parse (split_comma raw))"

text \<open>\<open>requireOperator\<close> around a handler that may write; \<open>None\<close> is a request without a resolved client.\<close>

definition requireOperator ::
  "server \<Rightarrow> uuid option \<Rightarrow> (preset_row list \<Rightarrow> http_reply \<times> preset_row list) \<Rightarrow> preset_row list \<Rightarrow> http_reply \<times> preset_row list" where
  "requireOperator srv caller next_handler d =
     (case caller of
        None \<Rightarrow> (writeError 404 noSuchPreset, d)
      | Some cid \<Rightarrow> if cid \<notin> operators srv then (writeError 404 noSuchPreset, d) else next_handler d)"

definition system_loader :: "string \<Rightarrow> loader" where
  "system_loader nm n d = preset_Get n ScopeSystem None nm d"

definition handleCreateSystemPreset :: "preset_io \<Rightarrow> presetRequest option \<Rightarrow> preset_row list \<Rightarrow> http_reply \<times> preset_row list" where
  "handleCreateSystemPreset = create_preset ScopeSystem None system_loader"

definition handleListSystemPresets :: "net \<Rightarrow> string \<Rightarrow> preset_row list \<Rightarrow> http_reply" where
  "handleListSystemPresets n all_param d = list_presets (preset_List n ScopeSystem None (all_param = ''true'') d)"

definition handleShowSystemPreset :: "net \<Rightarrow> string \<Rightarrow> preset_row list \<Rightarrow> http_reply" where
  "handleShowSystemPreset = show_preset system_loader"

definition handleUpdateSystemPreset ::
  "preset_io \<Rightarrow> string \<Rightarrow> presetRequest option \<Rightarrow> preset_row list \<Rightarrow> http_reply \<times> preset_row list" where
  "handleUpdateSystemPreset = update_preset ScopeSystem None system_loader"

definition handleDeactivateSystemPreset :: "preset_io \<Rightarrow> string \<Rightarrow> preset_row list \<Rightarrow> http_reply \<times> preset_row list" where
  "handleDeactivateSystemPreset = deactivate_preset ScopeSystem None"

subsection \<open>What a client can change\<close>

text \<open>The rows of everybody but one owner; the owner of a system preset is \<open>None\<close>.\<close>

definition foreign :: "uuid option \<Rightarrow> preset_row list \<Rightarrow> preset_row list" where
  "foreign cid d = filter (\<lambda>p. pr_ClientID p \<noteq> cid) d"

lemma foreign_append [simp]: "foreign cid (d @ [p]) = foreign cid d @ (if pr_ClientID p = cid then [] else [p])"
  by (simp add: foreign_def)

lemma foreign_flag:
  assumes "\<And>p. p \<in> set d \<Longrightarrow> P p \<Longrightarrow> pr_ClientID p = cid"
  shows "foreign cid (map (\<lambda>p. if P p then p\<lparr>pr_IsActive := False\<rparr> else p) d) = foreign cid d"
proof -
  have owner: "pr_ClientID (if P p then p\<lparr>pr_IsActive := False\<rparr> else p) = pr_ClientID p" for p by simp
  show ?thesis
    unfolding foreign_def filter_map comp_def owner
    by (rule map_idI) (use assms in auto)
qed

lemma new_preset_owner: "pr_ClientID (new_preset fresh pp d) = pp_ClientID pp"
  by (simp add: new_preset_def)

lemma foreign_insert: "foreign (pp_ClientID pp) (snd (insert_preset n fresh pp d)) = foreign (pp_ClientID pp) d"
  unfolding insert_preset_def
  by (rule snd_run_tx [where P = "\<lambda>x. foreign (pp_ClientID pp) x = foreign (pp_ClientID pp) d"])
    (auto simp: Let_def new_preset_owner split: if_splits)

lemma foreign_update:
  "foreign cid (snd (preset_Update n fresh scope cid nm target opt desc d)) = foreign cid d"
  unfolding preset_Update_def
  by (rule snd_run_tx [where P = "\<lambda>x. foreign cid x = foreign cid d"])
    (auto simp: Let_def of_tuple_def split: option.splits if_splits intro!: foreign_flag)

lemma foreign_deactivate:
  assumes "distinct (map pr_ID d)"
  shows "foreign cid (snd (preset_Deactivate n scope cid nm d)) = foreign cid d"
  unfolding preset_Deactivate_def
proof (rule snd_run_tx [where P = "\<lambda>x. foreign cid x = foreign cid d"], simp)
  fix a d'
  assume "(case find (\<lambda>p. of_tuple scope cid nm p \<and> pr_IsActive p) d of None \<Rightarrow> Inl PresetNotFound
    | Some cur \<Rightarrow> Inr ((), map (\<lambda>p. if pr_ID p = pr_ID cur then p\<lparr>pr_IsActive := False\<rparr> else p) d)) = Inr (a, d')"
  then obtain cur where f: "find (\<lambda>p. of_tuple scope cid nm p \<and> pr_IsActive p) d = Some cur"
    and d': "d' = map (\<lambda>p. if pr_ID p = pr_ID cur then p\<lparr>pr_IsActive := False\<rparr> else p) d"
    by (auto split: option.splits)
  from f have cur: "cur \<in> set d" "pr_ClientID cur = cid"
    by (auto simp: find_Some_iff of_tuple_def)
  have "p = cur" if "p \<in> set d" "pr_ID p = pr_ID cur" for p
    using assms that cur(1) by (meson distinct_map inj_onD)
  then show "foreign cid d' = foreign cid d"
    unfolding d' using cur(2) by (intro foreign_flag) auto
qed

definition undisturbed :: "preset_io \<Rightarrow> bool" where
  "undisturbed io \<longleftrightarrow> (\<forall>k d. p_others io k d = d)"

lemma undisturbed_id: "undisturbed io \<Longrightarrow> p_others io k = (\<lambda>d. d)"
  by (auto simp: undisturbed_def)

lemma foreign_create_handler:
  assumes "undisturbed io"
  shows "foreign cid (snd (create_preset scope cid load io body d)) = foreign cid d"
proof (cases body)
  case (Some rq)
  let ?pp = "\<lparr>pp_Name = rq_Name rq, pp_Scope = scope, pp_ClientID = cid, pp_TargetFormat = rq_TargetFormat rq,
    pp_Options = rq_Options rq, pp_Description = rq_Description rq\<rparr>"
  obtain r d1 where c: "preset_Create (p_net io 0) (p_net io 1) (p_fresh io) ?pp (\<lambda>d. d) d = (r, d1)" by force
  then have "foreign cid d1 = foreign cid d"
    using foreign_insert [of ?pp "p_net io 1" "p_fresh io" d] by (auto simp: preset_Create_def split: if_splits)
  with c Some show ?thesis
    by (cases r) (simp_all add: create_preset_def decodePresetRequest_def undisturbed_id [OF assms])
qed (simp add: create_preset_def decodePresetRequest_def)

lemma foreign_update_handler:
  assumes "undisturbed io"
  shows "foreign cid (snd (update_preset scope cid load io nm body d)) = foreign cid d"
proof (cases body)
  case (Some rq)
  obtain r d1 where c: "preset_Update (p_net io 0) (p_fresh io) scope cid nm (rq_TargetFormat rq) (rq_Options rq)
    (rq_Description rq) d = (r, d1)" by force
  with foreign_update have "foreign cid d1 = foreign cid d" by (metis snd_conv)
  with c Some show ?thesis
    by (cases r) (simp_all add: update_preset_def decodePresetRequest_def undisturbed_id [OF assms])
qed (simp add: update_preset_def decodePresetRequest_def)

lemma foreign_deactivate_handler:
  assumes "undisturbed io" "distinct (map pr_ID d)"
  shows "foreign cid (snd (deactivate_preset scope cid io nm d)) = foreign cid d"
proof -
  obtain r d1 where c: "preset_Deactivate (p_net io 0) scope cid nm d = (r, d1)" by force
  with foreign_deactivate [OF assms(2)] have "foreign cid d1 = foreign cid d" by (metis snd_conv)
  with c show ?thesis
    by (cases r) (simp_all add: deactivate_preset_def undisturbed_id [OF assms(1)])
qed

subsection \<open>What a client can see\<close>

text \<open>The rows a client may know: its own and the shared ones.\<close>

definition preset_view :: "uuid \<Rightarrow> preset_row list \<Rightarrow> preset_row list" where
  "preset_view cid d = filter (\<lambda>p. pr_ClientID p = None \<or> pr_ClientID p = Some cid) d"

lemma visible_view: "filter (visible cid nm) d = filter (visible cid nm) (preset_view cid d)"
  by (auto simp: preset_view_def visible_def intro: filter_cong)

lemma listed_for_view: "listed_for cid d p \<longleftrightarrow> listed_for cid (preset_view cid d) p"
  by (auto simp: listed_for_def preset_view_def of_tuple_def)

lemma listed_view:
  "filter (\<lambda>p. listed_for cid d p \<and> (b \<or> pr_IsActive p)) d
     = filter (\<lambda>p. listed_for cid (preset_view cid d) p \<and> (b \<or> pr_IsActive p)) (preset_view cid d)"
  unfolding listed_for_view [of cid d]
  by (auto simp: preset_view_def listed_for_def intro: filter_cong)

lemma own_loader_view: "own_loader cid nm n d = own_loader cid nm n (preset_view cid d)"
  by (simp add: own_loader_def GetForClient_def flip: visible_view)

lemma ListForClient_view: "ListForClient n cid b d = ListForClient n cid b (preset_view cid d)"
  by (simp add: ListForClient_def flip: listed_view)

text \<open>What a client reads about presets does not depend on those of other clients: two tables that agree
  on the client's own rows and on the shared ones give it the same answer to showing a preset and
  to listing them, with inactive versions or without, and the same preset for a conversion.\<close>

theorem preset_reads_confined:
  assumes "preset_view cid d = preset_view cid d'"
  shows "handleShowPreset cid n nm d = handleShowPreset cid n nm d'
    \<and> handleListPresets cid n all_param d = handleListPresets cid n all_param d'
    \<and> Resolve n cid nm d = Resolve n cid nm d'"
proof (intro conjI)
  have load: "own_loader cid nm n d = own_loader cid nm n d'" for nm n
    using own_loader_view [of cid nm n] assms by metis
  show "handleShowPreset cid n nm d = handleShowPreset cid n nm d'"
    by (simp add: handleShowPreset_def show_preset_def load)
  show "handleListPresets cid n all_param d = handleListPresets cid n all_param d'"
    using ListForClient_view [of n cid _ d] ListForClient_view [of n cid _ d'] assms
    by (simp add: handleListPresets_def)
  show "Resolve n cid nm d = Resolve n cid nm d'"
    using visible_view [of cid nm d] visible_view [of cid nm d'] assms by (simp add: Resolve_def)
qed

lemma preset_reads_confined_witness:
  "handleShowPreset 2 Works ''web'' [web_preset 3 1] = handleShowPreset 2 Works ''web'' []
    \<and> handleListPresets 2 Works ''true'' [web_preset 3 1] = handleListPresets 2 Works ''true'' []
    \<and> Resolve Works 2 ''web'' [web_preset 3 1] = Resolve Works 2 ''web'' []"
  by (rule preset_reads_confined) (simp add: preset_view_def web_preset_def)

text \<open>C17: Writes reach only rows of the writer. Creating, updating and deactivating a preset through the
  client endpoints leaves every row of another client and every system row as it was; the system
  endpoints leave every client's rows alone, and for a caller who is not an operator they change
  nothing and answer exactly like a missing preset.\<close>

theorem preset_writes_confined:
  assumes "undisturbed io" and "distinct (map pr_ID d)"
  shows "foreign (Some cid) (snd (handleCreatePreset cid io body d)) = foreign (Some cid) d
    \<and> foreign (Some cid) (snd (handleUpdatePreset cid io nm body d)) = foreign (Some cid) d
    \<and> foreign (Some cid) (snd (handleDeactivatePreset cid io nm d)) = foreign (Some cid) d
    \<and> foreign None (snd (requireOperator srv caller (handleCreateSystemPreset io body) d)) = foreign None d
    \<and> foreign None (snd (requireOperator srv caller (handleUpdateSystemPreset io nm body) d)) = foreign None d
    \<and> foreign None (snd (requireOperator srv caller (handleDeactivateSystemPreset io nm) d)) = foreign None d
    \<and> (caller \<in> Some ` operators srv
       \<or> requireOperator srv caller h d = (handleShowPreset c Works ''x'' [], d))"
  using foreign_create_handler [OF assms(1)] foreign_update_handler [OF assms(1)]
    foreign_deactivate_handler [OF assms]
  by (auto simp: handleCreatePreset_def handleUpdatePreset_def handleDeactivatePreset_def requireOperator_def
      handleCreateSystemPreset_def handleUpdateSystemPreset_def handleDeactivateSystemPreset_def handleShowPreset_def
      show_preset_def validPresetName_def maxPresetNameBytes_def own_loader_def GetForClient_def first_row_def
      split: option.split)

lemma preset_writes_confined_witness:
  "foreign (Some 2) (snd (handleDeactivatePreset 2 \<lparr>p_net = \<lambda>_. Works, p_others = \<lambda>_ d. d, p_fresh = 9\<rparr> ''web''
     [web_preset 3 1])) = [web_preset 3 1]"
proof -
  let ?io = "\<lparr>p_net = \<lambda>_. Works, p_others = \<lambda>_ d. d, p_fresh = 9\<rparr>"
  have "foreign (Some 2) (snd (handleDeactivatePreset 2 ?io ''web'' [web_preset 3 1])) = foreign (Some 2) [web_preset 3 1]"
    using preset_writes_confined [of ?io "[web_preset 3 1]" 2] by (simp add: undisturbed_def)
  then show ?thesis by (simp add: foreign_def web_preset_def)
qed

end
