(* ===== verification/Service.thy ===== *)
theory Service
  imports Entry PresetApi Auth
begin

text \<open>
  Where the programs of the repository meet. The worker processes (\<open>cmd/*-worker/main.go\<close>) each
  consume one queue and serve one task type; the API's JSON responses are decoded by the browser
  client into the types \<open>CreateJobResponse\<close> and \<open>JobStatusResponse\<close> of \<open>frontend/src/api.ts\<close>; and the
  client's requests carry the key and the target format the API reads. The delivery of a task by
  asynq is documented behaviour: a server gets the tasks of the queues it is configured with and
  calls the handler registered for the task's type.
\<close>

subsection \<open>The worker processes\<close>

type_synonym 'q handler =
  "'q broker \<Rightarrow> Client \<Rightarrow> 'q schedule \<Rightarrow> attempt_io \<Rightarrow> uuid option \<Rightarrow> 'q world \<Rightarrow> outcome \<times> 'q world"

record 'q worker_process =
  wk_queue :: string
  wk_type :: string
  wk_handle :: "'q handler"

definition image_worker :: "'q worker_process" where
  "image_worker = \<lparr>wk_queue = QueueImage, wk_type = TypeImageConvert, wk_handle = HandleImageConvert\<rparr>"
definition document_worker :: "'q worker_process" where
  "document_worker = \<lparr>wk_queue = QueueDocument, wk_type = TypeDocumentConvert, wk_handle = HandleDocumentConvert\<rparr>"
definition chromium_worker :: "'q worker_process" where
  "chromium_worker = \<lparr>wk_queue = QueueHTML, wk_type = TypeHTMLConvert, wk_handle = HandleHTMLConvert\<rparr>"
definition audio_worker :: "'q worker_process" where
  "audio_worker = \<lparr>wk_queue = QueueAudio, wk_type = TypeAudioConvert, wk_handle = HandleAudioConvert\<rparr>"
definition av_worker :: "'q worker_process" where
  "av_worker = \<lparr>wk_queue = QueueAV, wk_type = TypeAVConvert, wk_handle = HandleAVConvert\<rparr>"

definition worker_processes :: "'q worker_process list" where
  "worker_processes = [image_worker, document_worker, chromium_worker, audio_worker, av_worker]"

text \<open>The handler asynq runs for a task.\<close>

definition serve :: "Task \<Rightarrow> 'q handler option" where
  "serve t = map_option wk_handle
     (find (\<lambda>k. wk_queue k = task_queue t \<and> wk_type k = task_type t) worker_processes)"

lemmas worker_process_defs = image_worker_def document_worker_def chromium_worker_def audio_worker_def av_worker_def

lemma serve_tasks:
  "serve (NewImageConvertTask i r ttl) = Some HandleImageConvert"
  "serve (NewDocumentConvertTask i r ttl) = Some HandleDocumentConvert"
  "serve (NewHTMLConvertTask i r ttl) = Some HandleHTMLConvert"
  "serve (NewAudioConvertTask i r ttl) = Some HandleAudioConvert"
  "serve (NewAVConvertTask i r ttl) = Some HandleAVConvert"
  by (simp_all add: serve_def worker_processes_def worker_process_defs task_defs type_defs queue_defs engine_defs)

text \<open>Every task the API sends has a worker, whose check of the stored options accepts what the API stored.\<close>

lemma empty_opts_readable: "readable_opts eng []"
  by (simp add: readable_opts_def DocOptsFromMap_def HTMLOptsFromMap_def AudioOptsFromMap_def AVOptsFromMap_def)

lemma readable_parsed:
  "readable_opts EngineDocument m \<longleftrightarrow> parsed (DocOptsFromMap m)" "readable_opts EngineHTML m \<longleftrightarrow> parsed (HTMLOptsFromMap m)"
  "readable_opts EngineAudio m \<longleftrightarrow> parsed (AudioOptsFromMap m)" "readable_opts EngineAV m \<longleftrightarrow> parsed (AVOptsFromMap m)"
  by (auto simp: readable_opts_def parsed_def engine_defs split: sum.split)

lemma serve_created:
  assumes "created_task c eng i = Some t"
  obtains hc where "serve t = Some (convert_handler hc)" "task_payload t = Some i"
    "\<And>m. readable_opts eng m \<Longrightarrow> h_opts hc m"
proof -
  consider (image) "eng = EngineImage" "t = NewImageConvertTask i (imageMaxRetry c) (imageUniqueTTL c)"
    | (document) "eng = EngineDocument" "t = NewDocumentConvertTask i (documentMaxRetry c) (documentUniqueTTL c)"
    | (html) "eng = EngineHTML" "t = NewHTMLConvertTask i (htmlMaxRetry c) (htmlUniqueTTL c)"
    | (audio) "eng = EngineAudio" "t = NewAudioConvertTask i (audioMaxRetry c) (audioUniqueTTL c)"
    | (av) "eng = EngineAV" "t = NewAVConvertTask i (avMaxRetry c) (avUniqueTTL c)"
    using assms by (auto simp: created_task_def split: if_splits)
  then show thesis
  proof cases
    case image
    then have h: "serve t = Some HandleImageConvert" by (simp add: serve_tasks)
    show thesis
      by (rule that [OF h [unfolded HandleImageConvert_def]]) (use image in \<open>simp_all add: task_defs readable_parsed\<close>)
  next
    case document
    then have h: "serve t = Some HandleDocumentConvert" by (simp add: serve_tasks)
    show thesis
      by (rule that [OF h [unfolded HandleDocumentConvert_def]]) (use document in \<open>simp_all add: task_defs readable_parsed\<close>)
  next
    case html
    then have h: "serve t = Some HandleHTMLConvert" by (simp add: serve_tasks)
    show thesis
      by (rule that [OF h [unfolded HandleHTMLConvert_def]]) (use html in \<open>simp_all add: task_defs readable_parsed\<close>)
  next
    case audio
    then have h: "serve t = Some HandleAudioConvert" by (simp add: serve_tasks)
    show thesis
      by (rule that [OF h [unfolded HandleAudioConvert_def]]) (use audio in \<open>simp_all add: task_defs readable_parsed\<close>)
  next
    case av
    then have h: "serve t = Some HandleAVConvert" by (simp add: serve_tasks)
    show thesis
      by (rule that [OF h [unfolded HandleAVConvert_def]]) (use av in \<open>simp_all add: task_defs readable_parsed\<close>)
  qed
qed

subsection \<open>A successful attempt\<close>

lemma quiet_notify: "wdb (notify enq c (quiet now) job i w) = wdb w"
  by (simp add: notify_def EnqueueWebhookDeliver_def quiet_q_call_eq Let_def split: prod.split)

text \<open>The database after an attempt in which everything worked.\<close>

lemma successful_attempt_db:
  assumes j: "find_job i (wdb w) = Some j" "status j \<in> {StatusQueued, StatusActive}"
    and opts: "h_opts h (options j)" and inp: "Inputs Works i (wdb w) = Inr (f # fs)"
    and eng: "run_engine io (job_of_row j) f = Inr out"
  shows "\<exists>w'. convert_handler h enq c (quiet now) io (Some i) w = (Success, w')
    \<and> outputs_tbl (wdb w') = outputs_tbl (wdb w) @ [out\<lparr>f_job := i\<rparr>]
    \<and> (\<exists>j'. find_job i (wdb w') = Some j' \<and> status j' = StatusDone \<and> row_frame j j')"
proof -
  obtain w' where w': "convert_handler h enq c (quiet now) io (Some i) w = (Success, w')"
    using successful_attempt [where enq = enq and c = c and now = now, OF assms] by (metis prod.collapse)
  let ?d1 = "snd (MarkActive Works now i (wdb w))"
  let ?d2 = "snd (AddOutput Works i out ?d1)"
  let ?j1 = "j\<lparr>status := StatusActive, started_at := (case started_at j of None \<Rightarrow> Some now | Some t \<Rightarrow> Some t),
    attempts := attempts j + 1\<rparr>"
  let ?j2 = "?j1\<lparr>status := StatusDone, finished_at := Some now\<rparr>"
  have act: "find_job i ?d1 = Some ?j1" "fst (MarkActive Works now i (wdb w)) = Inr ()"
    using transition_row [OF j(1), of "[StatusQueued, StatusActive]"
        "\<lambda>j. j\<lparr>status := StatusActive, started_at := (case started_at j of None \<Rightarrow> Some now | Some t \<Rightarrow> Some t),
          attempts := attempts j + 1\<rparr>"] j(2)
    by (simp_all add: MarkActive_def)
  have add: "find_job i ?d2 = Some ?j1" "fst (AddOutput Works i out ?d1) = Inr ()"
    "outputs_tbl ?d2 = outputs_tbl (wdb w) @ [out\<lparr>f_job := i\<rparr>]"
    using act by (simp_all add: AddOutput_def begin_func_def MarkActive_def)
  have dn: "find_job i (snd (MarkDone Works now i ?d2)) = Some ?j2" "fst (MarkDone Works now i ?d2) = Inr ()"
    using transition_row [OF add(1), of "[StatusActive]" "\<lambda>j. j\<lparr>status := StatusDone, finished_at := Some now\<rparr>"]
    by (simp_all add: MarkDone_def)
  have "Get Works i (wdb w) = Inr (job_of_row j)" "Inputs Works i ?d1 = Inr (f # fs)"
    "ID (job_of_row j) = i" "Opts (job_of_row j) = options j"
    using j inp find_job_SomeD [OF j(1)] by (simp_all add: Get_def inputs_MarkActive job_of_row_def)
  then have "wdb w' = snd (MarkDone Works now i ?d2)"
    using w' act add dn opts eng
    by (auto simp: convert_handler_def ParseConvertPayload_def quiet_db_call process_def inputKey_def Let_def
        quiet_notify)
  then show ?thesis
    using w' dn(1) add(3) j(2) by (auto simp: row_frame_def terminal_def status_defs split: option.split)
qed

subsection \<open>What the browser makes of a response\<close>

text \<open>
  \<open>writeJSON\<close> sets the content type and encodes the value; \<open>response.json()\<close> parses it. A text keeps its
  characters (ASCII, as everywhere); how JavaScript renders a number, the reason phrase of a status
  and the encoded text are those of the browser and the encoder.
\<close>

record browser =
  num_value :: "rat \<Rightarrow> jsstring \<times> bool"
  status_text :: "nat \<Rightarrow> jsstring"
  body_text :: "json \<Rightarrow> jsstring"

fun js_value :: "(rat \<Rightarrow> jsstring \<times> bool) \<Rightarrow> json \<Rightarrow> jsval" where
  "js_value num JsonNull = JNull"
| "js_value num (JsonBool b) = JBool b"
| "js_value num (JsonNum n) = (case num (of_int n) of (t, z) \<Rightarrow> JNum t z)"
| "js_value num (JsonFrac q) = (case num q of (t, z) \<Rightarrow> JNum t z)"
| "js_value num (JsonStr t) = JStr (js t)"
| "js_value num (JsonArr xs) = JArr (map (js_value num) xs)"
| "js_value num (JsonObj kvs) = JObj (map (\<lambda>(k, v). (js k, js_value num v)) kvs)"

definition fetched :: "browser \<Rightarrow> http_reply \<Rightarrow> Frontend.response" where
  "fetched b r =
     \<lparr>resp_status = r_status r, resp_statusText = status_text b (r_status r),
      resp_contentType = Some (js ''application/json''), resp_json = Inr (js_value (num_value b) (r_body r)),
      resp_text = body_text b (r_body r)\<rparr>"

text \<open>The types \<open>api.ts\<close> casts a decoded body to.\<close>

fun is_string :: "jsval \<Rightarrow> bool" where
  "is_string (JStr s) = True"
| "is_string v = False"

definition CreateJobResponse :: "jsval \<Rightarrow> bool" where
  "CreateJobResponse v \<longleftrightarrow> is_object v \<and> is_string (get_prop v ''job_id'') \<and> is_string (get_prop v ''status'')"

definition JobStatusResponse :: "jsval \<Rightarrow> bool" where
  "JobStatusResponse v \<longleftrightarrow>
     is_object v \<and> is_string (get_prop v ''job_id'') \<and> is_string (get_prop v ''status'')
     \<and> (has_prop v ''download_url'' \<longrightarrow> is_string (get_prop v ''download_url''))
     \<and> (has_prop v ''error_code'' \<longrightarrow> is_string (get_prop v ''error_code''))
     \<and> (has_prop v ''error_message'' \<longrightarrow> is_string (get_prop v ''error_message''))"

lemma unat_of_nat16: "n < 256 \<Longrightarrow> unat (of_nat n :: u16) = n"
  by (simp add: unat_of_nat take_bit_eq_mod)

lemma js_inject [simp]: "js a = js b \<longleftrightarrow> a = b"
proof -
  have "inj (of_char :: char \<Rightarrow> u16)"
  proof (rule injI)
    fix x y :: char
    assume eq: "(of_char x :: u16) = of_char y"
    have "unat (of_char c :: u16) = of_char c" for c :: char
    proof -
      have "(of_char c :: nat) mod 256 < 256" by simp
      then show ?thesis by (metis of_char_mod_256 of_nat_of_char unat_of_nat16)
    qed
    with eq have "(of_char x :: nat) = of_char y" by metis
    then show "x = y" by simp
  qed
  then show ?thesis by (simp add: js_def)
qed

lemma js_empty [simp]: "js t = [] \<longleftrightarrow> t = []" "js [] = []"
  by (simp_all add: js_def)

lemma map_of_js: "map_of (map (\<lambda>(k, v). (js k, f v)) kvs) (js k) = map_option f (map_of kvs k)"
  by (induction kvs) auto

lemma get_js_value:
  "get_prop (js_value num (JsonObj kvs)) k = (case map_of kvs k of None \<Rightarrow> JUndefined | Some v \<Rightarrow> js_value num v)"
  "has_prop (js_value num (JsonObj kvs)) k \<longleftrightarrow> map_of kvs k \<noteq> None"
  by (simp_all add: map_of_js split: option.split)

lemma map_of_sorted:
  assumes "distinct (map fst kvs)"
  shows "map_of (sort_key fst kvs) = map_of kvs"
proof -
  have "distinct (map fst (sort_key fst kvs))" using assms by (simp add: distinct_map)
  then show ?thesis using assms by (simp add: map_of_inject_set)
qed

lemma parse_fetched:
  "parseResponse (fetched b r) =
     (if 200 \<le> r_status r \<and> r_status r \<le> 299 then Inr (js_value (num_value b) (r_body r))
      else parseResponse (fetched b r))"
  by (simp add: parseResponse_def fetched_def resp_ok_def str_includes_def)

lemma parse_error_body:
  "\<not> (200 \<le> st \<and> st \<le> 299) \<Longrightarrow> parseResponse (fetched b (writeError st msg)) = Inl (ApiError st (js msg))"
  by (simp add: parseResponse_def fetched_def resp_ok_def str_includes_def writeError_def writeJSON_def is_object_def)

subsection \<open>The job status on both sides\<close>

lemma job_body_props:
  assumes "distinct (map fst kvs)"
  shows "get_prop (js_value num (job_body kvs)) k = (case map_of kvs k of None \<Rightarrow> JUndefined | Some v \<Rightarrow> js_value num v)"
    and "has_prop (js_value num (job_body kvs)) k \<longleftrightarrow> map_of kvs k \<noteq> None"
  unfolding job_body_def get_js_value map_of_sorted [OF assms] by simp_all

lemma job_body_object: "is_object (js_value num (job_body kvs))" "truthy (js_value num (job_body kvs))"
  by (simp_all add: job_body_def is_object_def)

text \<open>The fields of a status response beyond the identifier, the status and the options.\<close>

definition extra_fields :: "string option \<Rightarrow> Job \<Rightarrow> (string \<times> json) list" where
  "extra_fields link job =
     (case link of Some u \<Rightarrow> [(''download_url'', JsonStr u)] | None \<Rightarrow> [])
     @ (if Status job = StatusFailed then error_fields job else [])"

lemma status_fields_distinct: "distinct (map fst (job_fields io job @ extra_fields link job))"
  by (auto simp: job_fields_def opts_field_def extra_fields_def error_fields_def split: option.split)

lemma status_props:
  defines "v \<equiv> \<lambda>b io link job. js_value (num_value b) (job_body (job_fields io job @ extra_fields link job))"
  shows "get_prop (v b io link job) ''job_id'' = JStr (js (uuid_text io (ID job)))"
    and "get_prop (v b io link job) ''status'' = JStr (js (Status job))"
    and "get_prop (v b io link job) ''download_url'' = (case link of Some u \<Rightarrow> JStr (js u) | None \<Rightarrow> JUndefined)"
    and "get_prop (v b io link job) ''error_code'' =
      (if Status job = StatusFailed \<and> ErrorCode job \<noteq> [] then JStr (js (ErrorCode job)) else JUndefined)"
    and "get_prop (v b io link job) ''error_message'' =
      (if Status job = StatusFailed \<and> ErrorMessage job \<noteq> [] then JStr (js (ErrorMessage job)) else JUndefined)"
    and "JobStatusResponse (v b io link job)"
  unfolding v_def JobStatusResponse_def job_body_props [OF status_fields_distinct]
  by (auto simp: job_fields_def opts_field_def extra_fields_def error_fields_def job_body_object map_add_def
      split: option.split)

lemma status_stops:
  "pollingStops (js_value num (job_body (job_fields io job @ extra_fields link job))) \<longleftrightarrow> terminal (Status job)"
  using status_props(2) [of "\<lparr>num_value = num, status_text = undefined, body_text = undefined\<rparr>" io job link]
  by (simp add: pollingStops_def job_body_object terminal_def status_defs)

text \<open>What the endpoint can answer: an error, or the status of the caller's job.\<close>

definition status_answer :: "api_io \<Rightarrow> Job \<Rightarrow> string option \<Rightarrow> http_reply" where
  "status_answer io job link = writeJSON 200 (job_body (job_fields io job @ extra_fields link job))"

definition refusal :: "nat set \<Rightarrow> http_reply \<Rightarrow> bool" where
  "refusal codes r \<longleftrightarrow> r_status r \<in> codes \<and> (\<exists>msg. r = writeError (r_status r) msg)"

lemma refusal_writeError [simp]: "refusal codes (writeError st msg) \<longleftrightarrow> st \<in> codes"
  by (auto simp: refusal_def writeError_def writeJSON_def)

lemma done_response_answer:
  assumes "Status job = StatusDone"
  shows "refusal {500} (fst (done_response srv io s job i w))
    \<or> (\<exists>link. fst (done_response srv io s job i w) = status_answer io job link)"
proof -
  obtain outs w1 where outs: "db_call s (\<lambda>n now d. (Outputs n i d, d)) w = (outs, w1)" by force
  have "fst (done_response srv io s job i w) =
    (case outs of Inl _ \<Rightarrow> writeError 500 ''failed to load outputs''
     | Inr [] \<Rightarrow> status_answer io job None
     | Inr (f # _) \<Rightarrow> (case PresignGet io (object_key f) (presignTTL srv) of
          None \<Rightarrow> writeError 500 ''failed to presign output'' | Some u \<Rightarrow> status_answer io job (Some u)))"
    using outs assms
    by (simp add: done_response_def status_answer_def extra_fields_def status_defs
        split: sum.split list.split option.split)
  then show ?thesis by (auto split: sum.split list.split option.split)
qed

lemma get_job_answer:
  "refusal {400, 404, 500} (fst (handleGetJob srv io s cid txt w))
   \<or> (\<exists>i job link. uuid_Parse io txt = Some i \<and> Get (net_of s (wtick w)) i (db_seen s w) = Inr job
       \<and> ClientID job = cid \<and> (link \<noteq> None \<longrightarrow> Status job = StatusDone)
       \<and> fst (handleGetJob srv io s cid txt w) = status_answer io job link)" (is "?refused \<or> _")
proof (cases "uuid_Parse io txt")
  case None
  then show ?thesis by (simp add: handleGetJob_def)
next
  case (Some i)
  obtain ld w1 where ld: "db_call s (\<lambda>n now d. (Get n i d, d)) w = (ld, w1)" by force
  note seen = handleGetJob_load [OF Some ld]
  consider (err) e where "ld = Inl e" | (other) job where "ld = Inr job" "ClientID job \<noteq> cid"
    | (fin) job where "ld = Inr job" "ClientID job = cid" "Status job = StatusDone"
    | (live) job where "ld = Inr job" "ClientID job = cid" "Status job \<noteq> StatusDone"
    by (cases ld) auto
  then show ?thesis
  proof cases
    case fin
    with Some ld have eq: "fst (handleGetJob srv io s cid txt w) = fst (done_response srv io s job i w1)"
      by (simp add: handleGetJob_def)
    then have "?refused \<or> (\<exists>link. fst (handleGetJob srv io s cid txt w) = status_answer io job link)"
      using done_response_answer [OF fin(3), of srv io s i w1] by (auto simp: refusal_def)
    with Some seen fin show ?thesis by blast
  next
    case live
    with Some ld have "fst (handleGetJob srv io s cid txt w) = status_answer io job None"
      by (simp add: handleGetJob_def status_answer_def extra_fields_def)
    with Some seen live show ?thesis by blast
  qed (use Some ld in \<open>simp_all add: handleGetJob_def\<close>)
qed

lemma parse_status_answer:
  "parseResponse (fetched b (status_answer io job link))
     = Inr (js_value (num_value b) (job_body (job_fields io job @ extra_fields link job)))"
  by (subst parse_fetched) (simp add: status_answer_def writeJSON_def)

lemma parse_refusal:
  assumes "refusal codes r" and "\<forall>st \<in> codes. 300 \<le> st"
  shows "\<exists>msg. parseResponse (fetched b r) = Inl (ApiError (r_status r) (js msg)) \<and> r = writeError (r_status r) msg"
proof -
  obtain msg where r: "r = writeError (r_status r) msg" "r_status r \<in> codes"
    using assms(1) by (auto simp: refusal_def)
  then have "\<not> r_status r \<le> 299" using assms(2) by fastforce
  then have "parseResponse (fetched b (writeError (r_status r) msg)) = Inl (ApiError (r_status r) (js msg))"
    by (intro parse_error_body) simp
  with r(1) show ?thesis by metis
qed

subsection \<open>The answer to an upload\<close>

lemma accepted_props:
  "CreateJobResponse (js_value num (accepted_body io i m))"
  "get_prop (js_value num (accepted_body io i m)) ''job_id'' = JStr (js (uuid_text io i))"
  "get_prop (js_value num (accepted_body io i m)) ''status'' = JStr (js StatusQueued)"
  unfolding CreateJobResponse_def accepted_body_def get_js_value
  by (auto simp: is_object_def split: option.split)

lemma record_job_answer:
  "refusal {500} (fst (record_job enq c io s cid jp w))
   \<or> (\<exists>i. fst (record_job enq c io s cid jp w) = writeJSON 202 (accepted_body io i (jp_opts jp)))"
  by (auto simp: record_job_def split: prod.split sum.split option.split)

lemma create_job_answer:
  "\<exists>r. fst (handleCreateJob enq c srv io s cid rq wo) = Some r
    \<and> (refusal {400, 413, 422, 500} r \<or> (\<exists>i m. r = writeJSON 202 (accepted_body io i m)))"
proof -
  obtain w store where wo: "wo = (w, store)" by (cases wo)
  show ?thesis
  proof (cases "plan_job srv io cid rq")
    case Panic
    with plan_job_no_panic show ?thesis by blast
  next
    case (Refuse st msg)
    with plan_job_status [OF this] wo show ?thesis by (auto simp: handleCreateJob_def)
  next
    case (Go jp)
    obtain stored after where put: "put_plan io jp store = (stored, after)" by force
    consider (lost) "\<not> stored" | (refused) st msg where "stored" "recheck_preset io cid jp = Refuse st msg"
      | (ok) "stored" "recheck_preset io cid jp = Go ()"
      using recheck_preset_status(1) by (cases "recheck_preset io cid jp") auto
    then show ?thesis
    proof cases
      case lost
      then show ?thesis using Go put wo by (simp add: handleCreateJob_def)
    next
      case refused
      with recheck_preset_status(2) [OF refused(2)] Go put wo show ?thesis by (auto simp: handleCreateJob_def)
    next
      case ok
      obtain r w' where rec: "record_job enq c io s cid jp w = (r, w')" by force
      then have "refusal {400, 413, 422, 500} r \<or> (\<exists>i m. r = writeJSON 202 (accepted_body io i m))"
        using record_job_answer [of enq c io s cid jp w] by (auto simp: refusal_def)
      then show ?thesis using ok Go put wo rec by (simp add: handleCreateJob_def)
    qed
  qed
qed

subsection \<open>A poll of the browser\<close>

context react_runtime
begin

lemma flush_shown: "appJob (flush p s) = appJob s \<and> appError (flush p s) = appError s"
  by (cases "storageDepsChanged p s"; cases "pollDepsChanged p s")
    (auto simp: flush_none flush_storage flush_poll flush_both storageEffect_def pollEffect_def runPollCleanup_def
      Let_def split: option.splits)

lemma timers_stop:
  assumes "app_reachable flush s"
  shows "timers s = [] \<longleftrightarrow> pollingStops (jobv s)"
  using reachable_inv [OF assms] by (auto simp: app_inv_defs split: option.splits)

lemma poll_result:
  fixes v :: jsval
  assumes "app_reachable flush s" "q \<in> set (polls s)" "pc_gen q \<notin> set (cancelled s)"
    and s'_def: "s' = flush s (pollSettled q (Inr v) s)"
  shows "jobv s' = v \<and> appError s' = None \<and> (timers s' = [] \<longleftrightarrow> pollingStops v)"
proof -
  have "app_reachable flush s'"
    unfolding s'_def using app_reachable.step [OF assms(1) app_step.poll_done [OF assms(2)]] by blast
  moreover have "jobv s' = v \<and> appError s' = None"
    using assms(3) unfolding s'_def by (simp add: flush_shown pollSettled_def setJob_def)
  ultimately show ?thesis using timers_stop by blast
qed

end

text \<open>What the page shows of a job.\<close>

lemma shown_status:
  assumes "jobv s = js_value (num_value b) (job_body (job_fields io job @ extra_fields link job))" "appError s = None"
  shows "view_jobId (App_render s) = Some (JStr (js (uuid_text io (ID job))))"
    and "view_status (App_render s) = Some (JStr (js (Status job)))"
    and "view_download (App_render s)
      = (case link of Some u \<Rightarrow> if u \<noteq> [] then Some (JStr (js u)) else None | None \<Rightarrow> None)"
    and "view_failure (App_render s) = (if Status job \<noteq> StatusFailed then None
      else Some (JStr (js (if ErrorMessage job \<noteq> [] then ErrorMessage job
        else if ErrorCode job \<noteq> [] then ErrorCode job else ''Conversion failed.''))))"
    and "view_error (App_render s) = None"
  using assms(2)
  by (simp_all add: App_render_def Let_def assms(1) status_props job_body_object(2) js_or_def StatusFailed_def
      split: option.split)

subsection \<open>From the upload to the download\<close>

text \<open>An identifier no table mentions yet.\<close>

definition unused :: "uuid \<Rightarrow> db \<Rightarrow> bool" where
  "unused i d \<longleftrightarrow> i \<noteq> 0 \<and> find_job i d = None \<and> i \<notin> f_job ` set (inputs_tbl d) \<and> i \<notin> f_job ` set (outputs_tbl d)"

text \<open>An attempt in which nothing outside fails: a stored object can be downloaded, the guard and the
  converter accept the file and the result is uploaded.\<close>

definition good_run :: "attempt_io \<Rightarrow> objects \<Rightarrow> bool" where
  "good_run wio store \<longleftrightarrow> io_mkdtemp wio = None \<and> (\<forall>k. store k \<noteq> None \<longrightarrow> io_download wio k = None)
     \<and> (\<forall>p. io_guard wio p = None) \<and> (\<forall>cv a b m. io_convert wio cv a b m = None)
     \<and> (\<forall>k ct. \<exists>n. io_upload wio k ct = Inr n)"

definition result_row :: "attempt_io \<Rightarrow> uuid \<Rightarrow> string \<Rightarrow> nat \<Rightarrow> file_row" where
  "result_row wio i target n =
     \<lparr>f_job = i, ordinal = 0, object_key = OutputKey (io_uuid wio) i 0 (''out.'' @ target), filename = ''out.'' @ target,
      format = target, size_bytes = n, content_type = MIMEType target\<rparr>"

lemma good_run_engine:
  assumes "good_run wio store" "store (object_key f) \<noteq> None" "Lookup Default (SourceFormat job) (TargetFormat job) \<noteq> None"
  shows "\<exists>n. run_engine wio job f = Inr (result_row wio (ID job) (TargetFormat job) n)"
proof -
  let ?key = "OutputKey (io_uuid wio) (ID job) 0 (''out.'' @ TargetFormat job)"
  obtain cv where cv: "Lookup Default (SourceFormat job) (TargetFormat job) = Some cv" using assms(3) by blast
  obtain n where "io_upload wio ?key (MIMEType (TargetFormat job)) = Inr n"
    using assms(1) unfolding good_run_def by blast
  moreover have "io_download wio (object_key f) = None" using assms(1,2) unfolding good_run_def by blast
  ultimately show ?thesis
    using assms(1) cv
    by (intro exI [of _ n]) (simp add: run_engine_def enforceAudioGuardBeforeConvert_def good_run_def result_row_def Let_def)
qed

lemma plan_engine_check:
  assumes "created_task c (jp_engine jp) i = Some t"
  shows "engine_check (jp_engine jp)"
  using assms unfolding created_task_def by (auto simp: engine_check_def engine_defs split: if_splits)

lemma Create_succeeds:
  assumes "p_ID p \<noteq> 0" "find_job (p_ID p) d = None" "p_ClientID p \<in> set (client_ids d)"
    "operation_check (p_Operation p)" "engine_check (p_Engine p)"
  shows "fst (Create Works now fresh p d) = Inr (p_ID p) \<and> outputs_tbl (snd (Create Works now fresh p d)) = outputs_tbl d"
  using assms by (simp add: Create_def begin_func_def Let_def insert_event_def)

lemma quiet_create:
  assumes plan: "plan_job srv io cid rq = Go jp" and put: "put_plan io jp store = (True, store')"
    and re: "recheck_preset io cid jp = Go ()" and t: "created_task c (jp_engine jp) (uuid_New io) = Some t"
    and cid: "cid \<in> set (client_ids (wdb w))" and un: "unused (uuid_New io) (wdb w)" and enq: "\<And>t q. fst (enq t q) = Inr ()"
  shows "\<exists>w1. handleCreateJob enq c srv io (quiet now) cid rq (w, store)
      = (Some (writeJSON 202 (accepted_body io (uuid_New io) (jp_opts jp))), w1, store')
    \<and> wsent w1 = wsent w @ [t] \<and> find_job (uuid_New io) (wdb w1) = Some (new_job now (uuid_New io) (plan_params io cid jp))
    \<and> Inputs Works (uuid_New io) (wdb w1) = Inr [p_Input (plan_params io cid jp)]
    \<and> outputs_tbl (wdb w1) = outputs_tbl (wdb w)"
proof -
  let ?i = "uuid_New io" and ?p = "plan_params io cid jp"
  obtain d1 where d1: "Create Works now ?i ?p (wdb w) = (Inr ?i, d1)" "outputs_tbl d1 = outputs_tbl (wdb w)"
    using Create_succeeds [of ?p "wdb w" now ?i] cid un plan_engine_check [OF t]
    by (cases "Create Works now ?i ?p (wdb w)")
      (simp add: plan_params_def operation_check_def operationConv_def unused_def)
  from Create_row [OF d1(1)] un have row: "find_job ?i d1 = Some (new_job now ?i ?p)"
    "inputs_tbl d1 = inputs_tbl (wdb w) @ [p_Input ?p]"
    by (simp_all add: plan_params_def)
  have "filter (\<lambda>f. f_job f = ?i) (inputs_tbl (wdb w)) = []" using un by (auto simp: unused_def filter_empty_conv image_iff)
  then have "Inputs Works ?i d1 = Inr [p_Input ?p]"
    using row(2) by (simp add: Inputs_def query_def plan_params_def)
  moreover obtain q' where "enq t (wq w) = (Inr (), q')" using enq by (metis prod.collapse)
  ultimately show ?thesis
    using plan put re t d1 row(1)
    by (simp add: handleCreateJob_def record_job_def quiet_db_call quiet_q_call_eq enqueue_created_task)
qed

text \<open>What the worker needs of an admitted plan.\<close>

definition stored_opts :: "job_plan \<Rightarrow> opts" where
  "stored_opts jp = (case jp_opts jp of None \<Rightarrow> [] | Some m \<Rightarrow> m)"

lemma plan_runnable:
  assumes "plan_job srv io cid rq = Go jp"
  shows "\<exists>cv t. Lookup Default (jp_detected jp) (jp_target jp) = Some cv
    \<and> created_task c (jp_engine jp) i = Some t \<and> readable_opts (jp_engine jp) (stored_opts jp)"
proof -
  from plan_job_Go [OF assms] obtain u raw where
    cc: "check_content srv (jp_filename jp) (source_of (jp_filename jp)) (jp_target jp) u
       = Go (jp_engine jp, jp_detected jp, jp_rest jp)"
    and co: "check_opts (json_read io) (jp_engine jp) (jp_detected jp) (jp_target jp) raw = Go (jp_opts jp)"
    by metis
  obtain cv where "Lookup Default (jp_detected jp) (jp_target jp) = Some cv" "created_task c (jp_engine jp) i \<noteq> None"
    using check_content_Go [OF cc] engine_for_task by blast
  moreover have "readable_opts (jp_engine jp) (stored_opts jp)"
    using co check_opts_Go empty_opts_readable by (auto simp: stored_opts_def split: option.split)
  ultimately show ?thesis by blast
qed

text \<open>Reading a finished job on a quiet service.\<close>

lemma quiet_get_done:
  assumes "uuid_Parse io txt = Some i" "find_job i (wdb w) = Some j" "status j = StatusDone" "client_id j = Some cid"
    and "outputs_tbl (wdb w) = outs @ [f]" "i \<notin> f_job ` set outs" "f_job f = i"
    and "PresignGet io (object_key f) (presignTTL srv) = Some u"
  shows "fst (handleGetJob srv io (quiet now) cid txt w) = status_answer io (job_of_row j) (Some u)"
proof -
  have "filter (\<lambda>f. f_job f = i) outs = []" using assms(6) by (auto simp: filter_empty_conv image_iff)
  then have "Outputs Works i (wdb w) = Inr [f]" using assms(5,7) by (simp add: Outputs_def query_def)
  moreover have "Get Works i (wdb w) = Inr (job_of_row j)" using assms(2) by (simp add: Get_def)
  ultimately show ?thesis
    using assms(1,3,4,8)
    by (simp add: handleGetJob_def done_response_def quiet_db_call job_of_row_def status_answer_def extra_fields_def status_defs)
qed

lemma parse_accepted:
  "parseResponse (fetched b (writeJSON 202 (accepted_body io i m))) = Inr (js_value (num_value b) (accepted_body io i m))"
  by (subst parse_fetched) (simp add: writeJSON_def)

subsection \<open>What the browser sends\<close>

lemma base64url_alphabet: "set (base64url bs) \<subseteq> set b64_alphabet"
proof -
  have "b64_char n \<in> set b64_alphabet" for n
    unfolding b64_char_def by (rule nth_mem) (simp add: b64_alphabet_def)
  then show ?thesis by (induction bs rule: base64url.induct) simp_all
qed

lemma alphabet_visible: "\<forall>c \<in> set b64_alphabet. \<not> is_js_space (of_char c)"
  by (simp add: b64_alphabet_def is_js_space_def)

lemma jtrim_padded:
  assumes "s \<noteq> []" "\<forall>c \<in> set s. \<not> is_js_space c" "\<forall>c \<in> set (pre @ post). is_js_space c"
  shows "jtrim (pre @ s @ post) = s"
proof -
  have front: "dropWhile is_js_space (a @ y # r) = y # r" if "\<forall>c \<in> set a. is_js_space c" "\<not> is_js_space y" for a y r
    using that by (simp add: dropWhile_append2)
  obtain x t where s: "s = x # t" using assms(1) by (cases s) auto
  obtain y r where rs: "rev s = y # r" using assms(1) by (cases "rev s") auto
  then have y: "\<not> is_js_space y" using assms(2) by (metis list.set_intros(1) set_rev)
  have "dropWhile is_js_space (pre @ s @ post) = s @ post"
    using front [of pre x "t @ post"] assms(2,3) s by simp
  moreover have "dropWhile is_js_space (rev post @ rev s) = rev s"
    unfolding rs using front [of "rev post" y r] assms(3) y by simp
  ultimately show ?thesis by (simp add: jtrim_def)
qed

lemma generated_trimmed:
  assumes "GenerateKey (Some buf) = Some k" "length buf = 32" "\<forall>c \<in> set (pre @ post). is_js_space c"
  shows "jtrim (pre @ js k @ post) = js k"
proof (rule jtrim_padded)
  show "js k \<noteq> []" using generated_plain [OF assms(1,2)] by (simp add: plain_key_def)
  show "\<forall>c \<in> set (js k). \<not> is_js_space c"
    using assms(1) alphabet_visible base64url_alphabet [of buf] by (auto simp: GenerateKey_def js_def)
qed (rule assms(3))

lemma target_supported:
  assumes "src \<in> set imageFormats" "src \<noteq> targetFormat_text t"
  shows "EngineFor Default src (targetFormat_text t) = Some EngineImage"
proof -
  have t: "targetFormat_text t \<in> set imageFormats" by (cases t) (simp_all add: imageFormats_def)
  then have "(src, targetFormat_text t) \<in> set (Pairs LibvipsConverter)" using assms by simp
  moreover have "normalize_pair (src, targetFormat_text t) = (src, targetFormat_text t)"
    using assms(1) t by (simp add: normalize_pair_def format_names_normalized format_names_def)
  ultimately have "Lookup Default src (targetFormat_text t) = Some LibvipsConverter" by (simp only: Lookup_Default)
  then show ?thesis by (simp add: EngineFor_def)
qed

end
