(* ===== verification/Routes.thy ===== *)
theory Routes
  imports PresetApi Auth
begin

text \<open>
  The router of \<open>internal/api/routes.go\<close> with the middlewares every \<open>/v1\<close> request passes in order: the
  limiter per address, the API key, the limiter per client (\<open>internal/ratelimit\<close>), and for the system
  presets the operator gate. Matching a method and a path is chi's, so a request is the endpoint it
  was matched to; whether a limiter still has room is httprate's.
\<close>

subsection \<open>Endpoints\<close>

datatype endpoint =
    GetHealthz bool bool bool
  | PostJobs form_request
  | GetJobs string
  | GetFormats "(Pair \<times> Converter) list"
  | PostPresets "presetRequest option"
  | GetPresets string
  | GetPreset string
  | PutPreset string "presetRequest option"
  | DeletePreset string
  | PostSystemPresets "presetRequest option"
  | GetSystemPresets string
  | GetSystemPreset string
  | PutSystemPreset string "presetRequest option"
  | DeleteSystemPreset string

text \<open>What the service holds, and what a request depends on beside it.\<close>

record 'q service =
  sv_world :: "'q world"
  sv_objects :: objects
  sv_presets :: "preset_row list"

record 'q request_env =
  rv_broker :: "'q broker"
  rv_client :: Client
  rv_server :: server
  rv_io :: api_io
  rv_schedule :: "'q schedule"
  rv_presets :: preset_io
  rv_resolver :: "string \<Rightarrow> resolve_error + client"
  rv_ip_room :: bool
  rv_client_room :: "uuid \<Rightarrow> bool"

subsection \<open>Middlewares\<close>

definition limitHandler :: "http_reply" where
  "limitHandler = writeError 429 ''rate limit exceeded''"

definition ByIP :: "bool \<Rightarrow> (unit \<Rightarrow> http_reply \<times> 's) \<Rightarrow> 's \<Rightarrow> http_reply \<times> 's" where
  "ByIP room next_handler st = (if \<not> room then (limitHandler, st) else next_handler ())"

definition PerClient :: "(uuid \<Rightarrow> bool) \<Rightarrow> uuid \<Rightarrow> (unit \<Rightarrow> http_reply \<times> 's) \<Rightarrow> 's \<Rightarrow> http_reply \<times> 's" where
  "PerClient room cid next_handler st = (if \<not> room cid then (limitHandler, st) else next_handler ())"

text \<open>\<open>middleware.Recoverer\<close>: a panic is answered 500 without a body.\<close>

definition Recoverer :: "http_reply option \<Rightarrow> http_reply" where
  "Recoverer r = (case r of Some x \<Rightarrow> x | None \<Rightarrow> \<lparr>r_status = 500, r_body = JsonNull\<rparr>)"

subsection \<open>Handlers by endpoint\<close>

definition formats_body :: "(Pair \<times> Converter) list \<Rightarrow> json" where
  "formats_body entries = JsonObj [(''engines'', JsonObj (map (\<lambda>e. (e, JsonObj [(''pairs'',
     JsonArr (case handleListFormats entries e of
       None \<Rightarrow> [] | Some ps \<Rightarrow> map (\<lambda>p. JsonArr (map JsonStr p)) ps))]))
     (sort (remdups (map (converter_engine \<circ> snd) entries)))))]"

definition on_presets ::
  "(preset_row list \<Rightarrow> http_reply \<times> preset_row list) \<Rightarrow> 'q service \<Rightarrow> http_reply \<times> 'q service" where
  "on_presets h st = (let (r, d) = h (sv_presets st) in (r, st\<lparr>sv_presets := d\<rparr>))"

definition pure_presets :: "(preset_row list \<Rightarrow> http_reply) \<Rightarrow> preset_row list \<Rightarrow> http_reply \<times> preset_row list" where
  "pure_presets h d = (h d, d)"

text \<open>The five system endpoints behind the gate; \<open>None\<close> for the others.\<close>

definition system_handler ::
  "'q request_env \<Rightarrow> endpoint \<Rightarrow> (preset_row list \<Rightarrow> http_reply \<times> preset_row list) option" where
  "system_handler v ep =
     (case ep of
        PostSystemPresets body \<Rightarrow> Some (handleCreateSystemPreset (rv_presets v) body)
      | GetSystemPresets all_param \<Rightarrow> Some (pure_presets (handleListSystemPresets (p_net (rv_presets v) 0) all_param))
      | GetSystemPreset nm \<Rightarrow> Some (pure_presets (handleShowSystemPreset (p_net (rv_presets v) 0) nm))
      | PutSystemPreset nm body \<Rightarrow> Some (handleUpdateSystemPreset (rv_presets v) nm body)
      | DeleteSystemPreset nm \<Rightarrow> Some (handleDeactivateSystemPreset (rv_presets v) nm)
      | _ \<Rightarrow> None)"

definition client_handler :: "'q request_env \<Rightarrow> uuid \<Rightarrow> endpoint \<Rightarrow> 'q service \<Rightarrow> http_reply \<times> 'q service" where
  "client_handler v cid ep st =
     (case ep of
        PostJobs rq \<Rightarrow>
          (let (r, w, objs) = handleCreateJob (rv_broker v) (rv_client v) (rv_server v) (rv_io v) (rv_schedule v) cid rq
             (sv_world st, sv_objects st)
           in (Recoverer r, st\<lparr>sv_world := w, sv_objects := objs\<rparr>))
      | GetJobs i \<Rightarrow>
          (let (r, w) = handleGetJob (rv_server v) (rv_io v) (rv_schedule v) cid i (sv_world st)
           in (r, st\<lparr>sv_world := w\<rparr>))
      | GetFormats entries \<Rightarrow> (writeJSON 200 (formats_body entries), st)
      | PostPresets body \<Rightarrow> on_presets (handleCreatePreset cid (rv_presets v) body) st
      | GetPresets all_param \<Rightarrow> on_presets (pure_presets (handleListPresets cid (p_net (rv_presets v) 0) all_param)) st
      | GetPreset nm \<Rightarrow> on_presets (pure_presets (handleShowPreset cid (p_net (rv_presets v) 0) nm)) st
      | PutPreset nm body \<Rightarrow> on_presets (handleUpdatePreset cid (rv_presets v) nm body) st
      | DeletePreset nm \<Rightarrow> on_presets (handleDeactivatePreset cid (rv_presets v) nm) st
      | _ \<Rightarrow>
          (case system_handler v ep of
             Some h \<Rightarrow> on_presets (requireOperator (rv_server v) (Some cid) h) st
           | None \<Rightarrow> (writeError 404 [], st)))"

definition v1_chain :: "'q request_env \<Rightarrow> string \<Rightarrow> endpoint \<Rightarrow> 'q service \<Rightarrow> http_reply \<times> 'q service" where
  "v1_chain v header ep st =
     ByIP (rv_ip_room v) (\<lambda>_.
       case Middleware (rv_resolver v) header of
         Answer code msg \<Rightarrow> (writeError code msg, st)
       | Next cl \<Rightarrow> PerClient (rv_client_room v) (cl_ID cl) (\<lambda>_. client_handler v (cl_ID cl) ep st) st) st"

definition Routes :: "'q request_env \<Rightarrow> string \<Rightarrow> endpoint \<Rightarrow> 'q service \<Rightarrow> http_reply \<times> 'q service" where
  "Routes v header ep st =
     (case ep of GetHealthz postgres redis s3 \<Rightarrow> (handleHealth postgres redis s3, st) | _ \<Rightarrow> v1_chain v header ep st)"

subsection \<open>Properties\<close>

definition is_v1 :: "endpoint \<Rightarrow> bool" where
  "is_v1 ep = (case ep of GetHealthz _ _ _ \<Rightarrow> False | _ \<Rightarrow> True)"

text \<open>What a request whose key does not resolve is told, whatever it asks for.\<close>

definition refused_answer :: "'q request_env \<Rightarrow> string \<Rightarrow> http_reply" where
  "refused_answer v header =
     (if \<not> rv_ip_room v then limitHandler
      else case ParseAPIKey header of
        None \<Rightarrow> writeError 401 ''missing or malformed Authorization header''
      | Some key \<Rightarrow> if rv_resolver v key = Inl ErrInvalidKey then writeError 401 ''invalid api key''
                    else writeError 500 ''failed to resolve api key'')"

definition authenticated :: "'q request_env \<Rightarrow> string \<Rightarrow> client option" where
  "authenticated v header =
     (case ParseAPIKey header of
        None \<Rightarrow> None
      | Some key \<Rightarrow> (case rv_resolver v key of Inl _ \<Rightarrow> None | Inr cl \<Rightarrow> Some cl))"

lemma Routes_v1: "is_v1 ep \<Longrightarrow> Routes v header ep st = v1_chain v header ep st"
  by (cases ep) (simp_all add: Routes_def is_v1_def)

lemma Middleware_authenticated:
  "authenticated v header = Some cl \<Longrightarrow> Middleware (rv_resolver v) header = Next cl"
  "authenticated v header = None \<Longrightarrow> \<exists>code msg. Middleware (rv_resolver v) header = Answer code msg
     \<and> (if rv_ip_room v then writeError code msg else limitHandler) = refused_answer v header"
  by (auto simp: authenticated_def Middleware_def refused_answer_def split: option.splits sum.splits resolve_error.splits)

lemma system_endpoint_gated:
  assumes "system_handler v ep = Some h" "cid \<notin> operators (rv_server v)"
  shows "client_handler v cid ep st = (writeError 404 noSuchPreset, st)"
  using assms by (cases ep) (simp_all add: client_handler_def system_handler_def on_presets_def requireOperator_def)

text \<open>C14: No endpoint under /v1 does anything without a key. Whatever is requested, when the header has no
  key, an unknown or revoked one, or the resolver fails, the service is unchanged (jobs, objects,
  queue and presets), and the answer depends on the header and the address limiter alone: it is the
  same for every endpoint, every argument and every state, so it reveals nothing. With the key of a
  client who is not an operator, every system endpoint leaves the service unchanged too and answers
  "preset not found", unless the client's limit is reached.\<close>

theorem unauthorized_inert:
  assumes "is_v1 ep"
  shows "case authenticated v header of
      None \<Rightarrow> Routes v header ep st = (refused_answer v header, st)
    | Some cl \<Rightarrow> cl_ID cl \<in> operators (rv_server v) \<or> system_handler v ep = None
        \<or> Routes v header ep st =
            (if rv_ip_room v \<and> rv_client_room v (cl_ID cl) then writeError 404 noSuchPreset else limitHandler, st)"
proof (cases "authenticated v header")
  case None
  from Middleware_authenticated(2) [OF None] show ?thesis
    by (auto simp: None Routes_v1 [OF assms] v1_chain_def ByIP_def refused_answer_def)
next
  case (Some cl)
  show ?thesis
  proof (cases "system_handler v ep")
    case (Some h)
    with system_endpoint_gated [OF this] show ?thesis
      by (auto simp: \<open>authenticated v header = Some cl\<close> Middleware_authenticated(1) Routes_v1 [OF assms] v1_chain_def
          ByIP_def PerClient_def)
  qed (simp add: Some)
qed

definition demo_env :: "unit request_env" where
  "demo_env =
     \<lparr>rv_broker = \<lambda>t q. (Inr (), q), rv_client = demo_client, rv_server = demo_server, rv_io = demo_api,
      rv_schedule = quiet 50, rv_presets = \<lparr>p_net = \<lambda>_. Works, p_others = \<lambda>_ d. d, p_fresh = 9\<rparr>,
      rv_resolver = \<lambda>key. if key = ''k1'' then Inr \<lparr>cl_ID = 1, cl_Name = ''acme''\<rparr> else Inl ErrInvalidKey,
      rv_ip_room = True, rv_client_room = \<lambda>_. True\<rparr>"

definition demo_service :: "unit service" where
  "demo_service = \<lparr>sv_world = demo_world (empty_db [1]), sv_objects = Map.empty, sv_presets = [web_preset 3 1]\<rparr>"

theorem unauthorized_inert_witness:
  "Routes demo_env ''ApiKey k2'' (DeletePreset ''web'') demo_service = (writeError 401 ''invalid api key'', demo_service)
   \<and> Routes demo_env ''ApiKey k1'' (DeleteSystemPreset ''web'') demo_service = (writeError 404 noSuchPreset, demo_service)"
proof -
  have keys: "ParseAPIKey ''ApiKey k2'' = Some ''k2''" "ParseAPIKey ''ApiKey k1'' = Some ''k1''"
    using Parse_plain [of "''k2''"] Parse_plain [of "''k1''"] by (simp_all add: plain_key_def is_space_def)
  have auth: "authenticated demo_env ''ApiKey k2'' = None" "authenticated demo_env ''ApiKey k1'' = Some \<lparr>cl_ID = 1, cl_Name = ''acme''\<rparr>"
    by (simp_all add: authenticated_def keys demo_env_def)
  have env: "rv_ip_room demo_env" "rv_client_room demo_env c" "operators (rv_server demo_env) = {}"
    "rv_resolver demo_env ''k2'' = Inl ErrInvalidKey" for c
    by (simp_all add: demo_env_def demo_server_def NewServer_def)
  show ?thesis
    using unauthorized_inert [of "DeletePreset ''web''" demo_env "''ApiKey k2''" demo_service]
      unauthorized_inert [of "DeleteSystemPreset ''web''" demo_env "''ApiKey k1''" demo_service]
    by (simp add: auth env keys refused_answer_def is_v1_def system_handler_def)
qed

end
