(* ===== verification/Lifecycle.thy ===== *)
theory Lifecycle
  imports Jobs
begin

text \<open>
  The contract of the job repository, stated without tables: a job is in one of five phases and
  five operations move it. Every repository call refines its abstract operation through the
  abstraction \<open>abs_db\<close>, whatever happens to its connection, and any interleaving of repository
  calls is a run of the abstract lifecycle.
\<close>

subsection \<open>The abstract lifecycle\<close>

datatype phase = Waiting | Running | Succeeded | Broken string | Unused

record spec_job =
  owner :: "uuid option"
  route :: string
  phase :: phase
  tries :: nat

type_synonym spec = "uuid \<rightharpoonup> spec_job"

fun live :: "phase \<Rightarrow> bool" where
  "live Waiting = True"
| "live Running = True"
| "live _ = False"

definition spec_submit :: "uuid \<Rightarrow> uuid \<Rightarrow> string \<Rightarrow> spec \<Rightarrow> spec option" where
  "spec_submit i c e m =
     (if m i = None then Some (m(i \<mapsto> \<lparr>owner = Some c, route = e, phase = Waiting, tries = 0\<rparr>)) else None)"

text \<open>A move applies \<open>f\<close> to the job when its phase allows it.\<close>

definition spec_move :: "(phase \<Rightarrow> bool) \<Rightarrow> (spec_job \<Rightarrow> spec_job) \<Rightarrow> uuid \<Rightarrow> spec \<Rightarrow> spec option" where
  "spec_move ok f i m =
     (case m i of None \<Rightarrow> None | Some j \<Rightarrow> if ok (phase j) then Some (m(i \<mapsto> f j)) else None)"

definition spec_start :: "uuid \<Rightarrow> spec \<Rightarrow> spec option" where
  "spec_start = spec_move live (\<lambda>j. j\<lparr>phase := Running, tries := tries j + 1\<rparr>)"

definition spec_finish :: "uuid \<Rightarrow> spec \<Rightarrow> spec option" where
  "spec_finish = spec_move (\<lambda>p. p = Running) (\<lambda>j. j\<lparr>phase := Succeeded\<rparr>)"

definition spec_fail :: "string \<Rightarrow> uuid \<Rightarrow> spec \<Rightarrow> spec option" where
  "spec_fail code = spec_move live (\<lambda>j. j\<lparr>phase := Broken code\<rparr>)"

definition spec_requeue :: "uuid \<Rightarrow> spec \<Rightarrow> spec option" where
  "spec_requeue = spec_move live (\<lambda>j. j\<lparr>phase := Waiting\<rparr>)"

inductive spec_step :: "spec \<Rightarrow> spec \<Rightarrow> bool" where
  submit: "spec_submit i c e m = Some m' \<Longrightarrow> spec_step m m'"
| start: "spec_start i m = Some m' \<Longrightarrow> spec_step m m'"
| finish: "spec_finish i m = Some m' \<Longrightarrow> spec_step m m'"
| fail: "spec_fail code i m = Some m' \<Longrightarrow> spec_step m m'"
| requeue: "spec_requeue i m = Some m' \<Longrightarrow> spec_step m m'"

lemmas spec_moves = spec_start_def spec_finish_def spec_fail_def spec_requeue_def spec_move_def

subsection \<open>The abstraction\<close>

definition phase_of :: "job_row \<Rightarrow> phase" where
  "phase_of j =
     (if status j = StatusQueued then Waiting
      else if status j = StatusActive then Running
      else if status j = StatusDone then Succeeded
      else if status j = StatusFailed then Broken (deref (error_code j))
      else Unused)"

definition abs_row :: "job_row \<Rightarrow> spec_job" where
  "abs_row j = \<lparr>owner = client_id j, route = engine j, phase = phase_of j, tries = attempts j\<rparr>"

definition abs_db :: "db \<Rightarrow> spec" where
  "abs_db d i = map_option abs_row (find_job i d)"

lemma live_phase_of: "live (phase_of j) \<longleftrightarrow> status j \<in> {StatusQueued, StatusActive}"
  by (auto simp: phase_of_def status_defs)

lemma running_phase_of: "phase_of j = Running \<longleftrightarrow> status j = StatusActive"
  by (auto simp: phase_of_def status_defs)

lemma abs_insert_event [simp]: "abs_db (insert_event e d) = abs_db d"
  by (rule ext) (simp add: abs_db_def find_job_def)

lemma abs_update:
  assumes "\<And>k. id (f k) = id k" "find_job i d = Some j"
  shows "abs_db (update_job i f d) = (abs_db d)(i \<mapsto> abs_row (f j))"
proof
  fix k
  show "abs_db (update_job i f d) k = ((abs_db d)(i \<mapsto> abs_row (f j))) k"
    using find_job_SomeD [of k d] assms(2)
    by (cases "find_job k d") (auto simp: abs_db_def find_job_update [of f, OF assms(1)])
qed

subsection \<open>What it means to implement an abstract operation\<close>

text \<open>
  A call commits exactly when its operation is allowed and the connection survives until the
  commit; a refused call writes nothing; and the caller is told of success exactly when the
  connection survived the whole call and the operation was allowed.
\<close>

locale implements =
  fixes call :: "net \<Rightarrow> db \<Rightarrow> (repo_error + 'a) \<times> db"
    and op :: "spec \<Rightarrow> spec option"
  assumes commits: "n \<noteq> LostBefore \<Longrightarrow> op (abs_db d) = Some m \<Longrightarrow> abs_db (snd (call n d)) = m"
    and refuses: "op (abs_db d) = None \<Longrightarrow> snd (call n d) = d"
    and lost: "snd (call LostBefore d) = d"
    and answers: "(\<exists>a. fst (call n d) = Inr a) \<longleftrightarrow> n = Works \<and> op (abs_db d) \<noteq> None"
begin

lemma square:
  "abs_db (snd (call n d)) = abs_db d \<or> op (abs_db d) = Some (abs_db (snd (call n d)))"
proof (cases "op (abs_db d)")
  case None
  then show ?thesis by (simp add: refuses)
next
  case (Some m)
  then show ?thesis by (cases "n = LostBefore") (simp_all add: lost commits)
qed

lemma success_commits: "fst (call n d) = Inr a \<Longrightarrow> op (abs_db d) = Some (abs_db (snd (call n d)))"
  using answers [of n d] commits [of n d] by auto

end

text \<open>A guarded transition implements the move with the same guard.\<close>

lemma transition_implements:
  assumes keep: "\<And>k. id (f k) = id k"
    and guard: "\<And>j. ok (phase_of j) \<longleftrightarrow> status j \<in> set allowed"
    and eff: "\<And>j. status j \<in> set allowed \<Longrightarrow> abs_row (f j) = g (abs_row j)"
  shows "implements (\<lambda>n. transition n now i to allowed dt f) (spec_move ok g i)"
proof
  have op: "spec_move ok g i (abs_db d) =
      (case find_job i d of None \<Rightarrow> None
       | Some j \<Rightarrow> if status j \<in> set allowed then Some ((abs_db d)(i \<mapsto> g (abs_row j))) else None)" for d
    by (auto simp: spec_move_def abs_db_def abs_row_def guard split: option.split)
  show "n \<noteq> LostBefore \<Longrightarrow> spec_move ok g i (abs_db d) = Some m \<Longrightarrow>
      abs_db (snd (transition n now i to allowed dt f d)) = m" for n d m
    by (auto simp: op transition_def begin_func_def abs_update keep eff split: option.splits if_splits net.splits)
  show "spec_move ok g i (abs_db d) = None \<Longrightarrow> snd (transition n now i to allowed dt f d) = d" for n d
    by (auto simp: op transition_def begin_func_def split: option.splits if_splits net.splits)
  show "snd (transition LostBefore now i to allowed dt f d) = d" for d
    by (simp add: transition_def begin_func_def)
  show "(\<exists>a. fst (transition n now i to allowed dt f d) = Inr a) \<longleftrightarrow>
      n = Works \<and> spec_move ok g i (abs_db d) \<noteq> None" for n d
    by (auto simp: op transition_def begin_func_def split: option.splits net.splits)
qed

lemmas row_abs_simps = abs_row_def phase_of_def status_defs deref_def

interpretation start_impl: implements "\<lambda>n. MarkActive n now i" "spec_start i" for now i
  unfolding MarkActive_def spec_start_def
  by (rule transition_implements) (simp_all add: live_phase_of, auto simp: row_abs_simps)

interpretation finish_impl: implements "\<lambda>n. MarkDone n now i" "spec_finish i" for now i
  unfolding MarkDone_def spec_finish_def
  by (rule transition_implements) (simp_all add: running_phase_of, auto simp: row_abs_simps)

interpretation fail_impl: implements "\<lambda>n. MarkFailed n now i c m dt" "spec_fail c i" for now i c m dt
  unfolding MarkFailed_def spec_fail_def
  by (rule transition_implements) (simp_all add: live_phase_of, auto simp: row_abs_simps)

interpretation requeue_impl: implements "\<lambda>n. RequeueStale n now i r" "spec_requeue i" for now i r
  unfolding RequeueStale_def spec_requeue_def
  by (rule transition_implements) (simp_all add: live_phase_of, auto simp: row_abs_simps)

text \<open>Creation: allowed for a fresh identifier, a known client and values the constraints accept.\<close>

definition spec_create :: "uuid list \<Rightarrow> uuid \<Rightarrow> create_params \<Rightarrow> spec \<Rightarrow> spec option" where
  "spec_create clients i p m =
     (if p_ClientID p \<in> set clients \<and> operation_check (p_Operation p) \<and> engine_check (p_Engine p)
      then spec_submit i (p_ClientID p) (p_Engine p) m else None)"

lemma abs_create:
  assumes "find_job i d = None" "jobs_tbl d' = jobs_tbl d @ [new_job now i p]"
  shows "abs_db d' = (abs_db d)(i \<mapsto> \<lparr>owner = Some (p_ClientID p), route = p_Engine p, phase = Waiting, tries = 0\<rparr>)"
proof
  fix k
  have "id (new_job now i p) = i" by (simp add: new_job_def)
  with assms show "abs_db d' k = ((abs_db d)(i \<mapsto> \<lparr>owner = Some (p_ClientID p), route = p_Engine p,
      phase = Waiting, tries = 0\<rparr>)) k"
    by (auto simp: abs_db_def find_job_def find_append abs_row_def phase_of_def new_job_def split: option.split)
qed

lemma abs_db_None [simp]: "abs_db d i = None \<longleftrightarrow> find_job i d = None"
  by (simp add: abs_db_def)

lemma create_square:
  "abs_db (snd (Create n now fresh p d)) = abs_db d
   \<or> spec_create (client_ids d) (if p_ID p = 0 then fresh else p_ID p) p (abs_db d)
       = Some (abs_db (snd (Create n now fresh p d)))"
  by (auto simp: Create_def Let_def begin_func_def spec_create_def spec_submit_def
      intro!: abs_create [symmetric] split: net.splits)

lemma abs_same_jobs: "jobs_tbl d' = jobs_tbl d \<Longrightarrow> abs_db d' = abs_db d"
  by (rule ext) (simp add: abs_db_def find_job_def)

subsection \<open>Properties\<close>

text \<open>C10: The repository refines the abstract lifecycle: whichever process makes the call and whatever
  happens to its connection, one step of the shared database is one step of the lifecycle
  (submit, start, finish, fail or requeue one job) or leaves every job where it was.\<close>

theorem repository_refines_lifecycle:
  assumes "sys_step s t"
  shows "spec_step\<^sup>=\<^sup>= (abs_db (sdb s)) (abs_db (sdb t))"
  using assms
proof (induction rule: sys_step.induct)
  case (create s n now fresh p)
  then show ?case
    using create_square [of n now fresh p "sdb s"]
    by (auto simp: spec_create_def intro: spec_step.submit split: if_splits)
next
  case (active s n now i)
  then show ?case using start_impl.square [of n now i "sdb s"] by (auto intro: spec_step.start)
next
  case (finish s n now i)
  then show ?case using finish_impl.square [of n now i "sdb s"] by (auto intro: spec_step.finish)
next
  case (failed s n now i c m dt)
  then show ?case using fail_impl.square [of n now i c m dt "sdb s"] by (auto intro: spec_step.fail)
next
  case (requeue s n now i r)
  then show ?case using requeue_impl.square [of n now i r "sdb s"] by (auto intro: spec_step.requeue)
qed (auto simp: AddOutput_def RecordAttempt_def MarkDeadLetter_def RecordWebhookGapRecovered_def
    begin_func_def split: net.splits intro!: abs_same_jobs)

theorem repository_refines_lifecycle_witness:
  "spec_step\<^sup>=\<^sup>= (abs_db demo_created) (abs_db demo_active)"
  using repository_refines_lifecycle [OF sys_step.active [of "\<lparr>sdb = demo_created, seen = []\<rparr>" Works 20 5]]
  by (simp add: demo_active_def)

end
