(* ===== verification/Reconciler.thy ===== *)
theory Reconciler
  imports World
begin

text \<open>
  The sweeper \<open>internal/reconciler\<close>: a sweep is a sequence of calls to the job repository and to
  the broker, between any two of which other processes may act. The last part models the advisory
  lock that elects the sweeper.
\<close>

definition RecordReconcilerAction :: "string \<Rightarrow> 'q world \<Rightarrow> 'q world" where
  "RecordReconcilerAction a w = w\<lparr>wmetrics := wmetrics w @ [a]\<rparr>"

subsection \<open>The sweep\<close>

record Config =
  QueuedStaleAfter :: time
  ActiveStaleAfter :: time
  SweepInterval :: time
  MaxRecoveries :: int

text \<open>The branch for a job at or over the cap.\<close>

definition exhaust_job :: "'q broker \<Rightarrow> Client \<Rightarrow> 'q schedule \<Rightarrow> StaleJob \<Rightarrow> 'q world \<Rightarrow> 'q world" where
  "exhaust_job enq c s j w =
     (let (job, w1) = db_call s (\<lambda>n now d. (Get n (sj_ID j) d, d)) w;
          (ferr, w2) = db_call s (\<lambda>n now. MarkFailed n now (sj_ID j) ''reconciler_exhausted''
            ''recovery attempts exhausted'' (Some [(''action'', ''reconciler_exhausted'')])) w1;
          w3 = RecordReconcilerAction ''exhausted'' w2
      in case job of
           Inl _ \<Rightarrow> w3
         | Inr J \<Rightarrow> if CallbackURL J \<noteq> [] then snd (q_call s (EnqueueWebhookDeliver (traced enq) c (sj_ID j)) w3)
                  else w3)"

text \<open>The switch on the engine class; \<open>None\<close> is its default case.\<close>

definition enqueue_for ::
  "'q broker \<Rightarrow> Client \<Rightarrow> StaleJob \<Rightarrow> ('q \<Rightarrow> (enq_error + unit) \<times> 'q) option" where
  "enqueue_for enq c j =
     (if sj_Engine j = EngineImage then Some (EnqueueImageConvert enq c (sj_ID j))
      else if sj_Engine j = EngineDocument then Some (EnqueueDocumentConvert enq c (sj_ID j))
      else if sj_Engine j = EngineHTML then Some (EnqueueHTMLConvert enq c (sj_ID j))
      else if sj_Engine j = EngineAudio then Some (EnqueueAudioConvert enq c (sj_ID j))
      else if sj_Engine j = EngineAV then Some (EnqueueAVConvert enq c (sj_ID j))
      else None)"

definition record_recovery :: "'q schedule \<Rightarrow> StaleJob \<Rightarrow> 'q world \<Rightarrow> 'q world" where
  "record_recovery s j w =
     (let reason = ''stale_'' @ sj_Status j;
          (e1, w1) = db_call s (\<lambda>n now. RequeueStale n now (sj_ID j) reason) w
      in case e1 of
           Inr _ \<Rightarrow> RecordReconcilerAction ''recovered'' w1
         | Inl _ \<Rightarrow>
             (let (e2, w2) = db_call s (\<lambda>n now. RequeueStale n now (sj_ID j) reason) w1
              in case e2 of Inl _ \<Rightarrow> w2 | Inr _ \<Rightarrow> RecordReconcilerAction ''recovered'' w2))"

definition recover_job :: "'q broker \<Rightarrow> Client \<Rightarrow> 'q schedule \<Rightarrow> StaleJob \<Rightarrow> 'q world \<Rightarrow> 'q world" where
  "recover_job enq c s j w =
     (case enqueue_for (traced enq) c j of
        None \<Rightarrow> RecordReconcilerAction ''unroutable_engine'' w
      | Some f \<Rightarrow>
          (let (r, w1) = q_call s f w
           in case r of Inl _ \<Rightarrow> w1 | Inr _ \<Rightarrow> record_recovery s j w1))"

definition sweep_job ::
  "'q broker \<Rightarrow> Client \<Rightarrow> Config \<Rightarrow> 'q schedule \<Rightarrow> StaleJob \<Rightarrow> 'q world \<Rightarrow> 'q world" where
  "sweep_job enq c cfg s j w =
     (let (cnt, w1) = db_call s (\<lambda>n now d. (RecoveryCount n (sj_ID j) d, d)) w
      in case cnt of
           Inl _ \<Rightarrow> w1
         | Inr n \<Rightarrow> if MaxRecoveries cfg \<le> int n then exhaust_job enq c s j w1 else recover_job enq c s j w1)"

definition sweep_gap :: "'q broker \<Rightarrow> Client \<Rightarrow> 'q schedule \<Rightarrow> uuid \<times> string \<Rightarrow> 'q world \<Rightarrow> 'q world" where
  "sweep_gap enq c s g w =
     (let (r, w1) = q_call s (EnqueueWebhookDeliver (traced enq) c (fst g)) w
      in case r of
           Inl _ \<Rightarrow> w1
         | Inr _ \<Rightarrow> RecordReconcilerAction ''webhook_gap_recovered''
             (snd (db_call s (\<lambda>n now. RecordWebhookGapRecovered n now (fst g) (snd g)) w1)))"

definition sweep_gaps :: "'q broker \<Rightarrow> Client \<Rightarrow> Config \<Rightarrow> 'q schedule \<Rightarrow> 'q world \<Rightarrow> 'q world" where
  "sweep_gaps enq c cfg s w =
     (let (gaps, w1) = db_call s (\<lambda>n now d. (FindWebhookGaps n now (ActiveStaleAfter cfg) d, d)) w
      in case gaps of Inl _ \<Rightarrow> w1 | Inr gs \<Rightarrow> foldl (\<lambda>w g. sweep_gap enq c s g w) w1 gs)"

definition sweep :: "'q broker \<Rightarrow> Client \<Rightarrow> Config \<Rightarrow> 'q schedule \<Rightarrow> 'q world \<Rightarrow> 'q world" where
  "sweep enq c cfg s w =
     (let (stale, w1) = db_call s (\<lambda>n now d.
            (FindStale n now (QueuedStaleAfter cfg) (ActiveStaleAfter cfg) d, d)) w
      in case stale of
           Inl _ \<Rightarrow> w1
         | Inr js \<Rightarrow> sweep_gaps enq c cfg s (foldl (\<lambda>w j. sweep_job enq c cfg s j w) w1 js))"

text \<open>The ticking loop: one sweep per tick until the context is cancelled.\<close>

definition Run :: "'q broker \<Rightarrow> Client \<Rightarrow> Config \<Rightarrow> 'q schedule list \<Rightarrow> 'q world \<Rightarrow> 'q world" where
  "Run enq c cfg ticks w = foldl (\<lambda>w s. sweep enq c cfg s w) w ticks"

lemma action_simps [simp]:
  "wdb (RecordReconcilerAction a w) = wdb w" "wsent (RecordReconcilerAction a w) = wsent w"
  by (simp_all add: RecordReconcilerAction_def)

lemma enqueue_for_task:
  assumes "enqueue_for enq c j = Some f"
  shows "\<exists>t. f = enq t \<and> task_payload t = Some (sj_ID j) \<and> task_queue t = sj_Engine j
    \<and> task_type t = sj_Engine j @ '':convert'' \<and> task_type t \<noteq> TypeWebhookDeliver"
  using assms unfolding enqueue_for_def enqueue_defs
  by (fastforce simp: task_defs type_defs queue_defs engine_defs split: if_splits)

lemma exhaust_job_step:
  assumes "polite s"
  shows "other_step (wdb w) (wdb (exhaust_job enq c s j w))
    \<and> (\<exists>ts. wsent (exhaust_job enq c s j w) = wsent w @ ts
        \<and> (\<forall>t \<in> set ts. task_type t = TypeWebhookDeliver \<and> task_payload t = Some (sj_ID j)))"
proof -
  obtain job w1 where 1: "db_call s (\<lambda>n now d. (Get n (sj_ID j) d, d)) w = (job, w1)" by force
  obtain fe w2 where 2: "db_call s (\<lambda>n now. MarkFailed n now (sj_ID j) ''reconciler_exhausted''
      ''recovery attempts exhausted'' (Some [(''action'', ''reconciler_exhausted'')])) w1 = (fe, w2)" by force
  let ?w3 = "RecordReconcilerAction ''exhausted'' w2"
  obtain r w4 where 4: "q_call s (EnqueueWebhookDeliver (traced enq) c (sj_ID j)) ?w3 = (r, w4)" by force
  note s1 = db_call_query [OF 1 assms] and s2 = db_call_step [OF assms other_step_calls(1) 2]
  have "other_step (wdb w) (wdb w2) \<and> wsent w2 = wsent w"
    using s1 s2 other_step_trans by auto
  moreover have "other_step (wdb w2) (wdb w4)"
    using q_call_step [OF assms 4] by simp
  moreover have "wsent w4 = wsent w2 @ (if r = Inr () then [NewWebhookDeliverTask (sj_ID j) (webhookUniqueTTL c)] else [])"
    using q_call_traced [OF 4 [unfolded EnqueueWebhookDeliver_def]] by simp
  ultimately show ?thesis
    using 1 2 4 other_step_trans [of "wdb w" "wdb w2" "wdb w4"]
    by (auto simp: exhaust_job_def Let_def task_defs split: sum.splits if_splits)
qed

lemma record_recovery_step:
  assumes "polite s"
  shows "other_step (wdb w) (wdb (record_recovery s j w)) \<and> wsent (record_recovery s j w) = wsent w"
proof -
  let ?f = "\<lambda>n now. RequeueStale n now (sj_ID j) (''stale_'' @ sj_Status j)"
  obtain e1 w1 where 1: "db_call s ?f w = (e1, w1)" by force
  obtain e2 w2 where 2: "db_call s ?f w1 = (e2, w2)" by force
  show ?thesis
    using db_call_step [OF assms other_step_calls(2) 1] db_call_step [OF assms other_step_calls(2) 2]
      other_step_trans [of "wdb w" "wdb w1" "wdb w2"] 1 2
    by (auto simp: record_recovery_def Let_def split: sum.splits)
qed

text \<open>One stale job: the database moves by repository calls, and the tasks accepted are at most
  webhook deliveries and one convert task of the job's own engine.\<close>

lemma recover_job_cases:
  assumes "polite s"
  obtains "wdb (recover_job enq c s j w) = wdb w" "wsent (recover_job enq c s j w) = wsent w"
  | w1 where "other_step (wdb w) (wdb w1)" "wsent w1 = wsent w" "recover_job enq c s j w = w1"
  | w1 t where "other_step (wdb w) (wdb w1)" "wsent w1 = wsent w @ [t]"
      "recover_job enq c s j w = record_recovery s j w1" "task_payload t = Some (sj_ID j)"
      "task_queue t = sj_Engine j" "task_type t = sj_Engine j @ '':convert''"
      "task_type t \<noteq> TypeWebhookDeliver"
proof (cases "enqueue_for (traced enq) c j")
  case None
  then show ?thesis by (intro that(1)) (simp_all add: recover_job_def)
next
  case (Some f)
  then obtain t where t: "f = traced enq t" "task_payload t = Some (sj_ID j)"
    "task_queue t = sj_Engine j" "task_type t = sj_Engine j @ '':convert''"
    "task_type t \<noteq> TypeWebhookDeliver" using enqueue_for_task by blast
  obtain r w1 where q: "q_call s f w = (r, w1)" by force
  note steps = q_call_step [OF assms q] q_call_traced [OF q [unfolded t(1)]]
  show ?thesis
  proof (cases r)
    case (Inl e)
    then show ?thesis using that(2) [of w1] steps q Some by (simp add: recover_job_def)
  next
    case (Inr u)
    then show ?thesis using that(3) [of w1 t] steps q Some t by (simp add: recover_job_def)
  qed
qed

lemma sweep_job_cases:
  assumes "polite s" and "sweep_job enq c cfg s j w = w'"
  obtains w1 where "other_step (wdb w) (wdb w1)" "wsent w1 = wsent w"
      "w' = w1 \<or> w' = exhaust_job enq c s j w1"
  | w1 where "other_step (wdb w) (wdb w1)" "wsent w1 = wsent w"
      "int (recoveries (sj_ID j) (wdb w1)) < MaxRecoveries cfg" "w' = recover_job enq c s j w1"
proof -
  obtain r w1 where 1: "db_call s (\<lambda>n now d. (RecoveryCount n (sj_ID j) d, d)) w = (r, w1)" by force
  have "r = RecoveryCount (net_of s (wtick w)) (sj_ID j) (wdb w1)"
    by (rule db_call_query_result [OF 1])
  then show ?thesis
    using that [of w1] assms(2) 1 db_call_query [OF 1 assms(1)]
    by (fastforce simp: sweep_job_def RecoveryCount_def query_def Let_def split: sum.splits if_splits)
qed

subsection \<open>The recovery cap\<close>

definition convert_task :: "uuid \<Rightarrow> Task \<Rightarrow> bool" where
  "convert_task i t \<longleftrightarrow> task_payload t = Some i \<and> task_type t \<noteq> TypeWebhookDeliver"

definition accepted :: "uuid \<Rightarrow> 'q world \<Rightarrow> nat" where
  "accepted i w = length (filter (convert_task i) (wsent w))"

lemma requeue_counted:
  assumes s: "polite s" and "net_of s (wtick w) = Works" and "db_ok (wdb w)" "known i (wdb w)"
    and call: "db_call s (\<lambda>n now. RequeueStale n now i reason) w = (r, w')"
  shows "recoveries i (wdb w) < recoveries i (wdb w') \<or> gone i (wdb w')"
proof -
  obtain d q where o: "others s (wtick w) (wdb w, wq w) = (d, q)" by force
  then have step: "other_step (wdb w) d" using s by (metis fst_conv polite_def)
  have w': "wdb w' = snd (RequeueStale Works (clock s (wtick w)) i reason d)"
    using call o assms(2) by (auto simp: db_call_def Let_def split: prod.splits)
  obtain j where j: "find_job i d = Some j"
    using other_step_known [OF step assms(4)] by (auto simp: known_def)
  from live_or_gone [OF other_step_ok [OF step assms(3)] j]
  show ?thesis
  proof
    assume "status j \<in> {StatusQueued, StatusActive}"
    then show ?thesis
      using j other_step_recoveries [OF step, of i] by (auto simp: w' recoveries_requeue)
  next
    assume "gone i d"
    then show ?thesis using other_step_gone [OF other_step_calls(2)] by (simp add: w')
  qed
qed

lemma record_recovery_counted:
  assumes "polite s" "net_of s (wtick w) = Works" "db_ok (wdb w)" "known (sj_ID j) (wdb w)"
  shows "recoveries (sj_ID j) (wdb w) < recoveries (sj_ID j) (wdb (record_recovery s j w))
    \<or> gone (sj_ID j) (wdb (record_recovery s j w))"
proof -
  let ?f = "\<lambda>n now. RequeueStale n now (sj_ID j) (''stale_'' @ sj_Status j)"
  obtain e1 w1 where 1: "db_call s ?f w = (e1, w1)" by force
  obtain e2 w2 where 2: "db_call s ?f w1 = (e2, w2)" by force
  have "other_step (wdb w1) (wdb w2)"
    using db_call_step [OF assms(1) other_step_calls(2) 2] by blast
  then show ?thesis
    using requeue_counted [OF assms 1] 1 2 other_step_gone [of "wdb w1" "wdb w2" "sj_ID j"]
      other_step_recoveries [of "wdb w1" "wdb w2" "sj_ID j"]
    by (auto simp: record_recovery_def Let_def split: sum.splits)
qed

text \<open>The invariant of a run of sweeps, and its strong form while the job is still in the list
  the scan returned.\<close>

definition counted_ok :: "int \<Rightarrow> uuid \<Rightarrow> 'q world \<Rightarrow> bool" where
  "counted_ok M i w \<longleftrightarrow> accepted i w \<le> nat M
     \<and> (accepted i w \<le> recoveries i (wdb w) \<or> gone i (wdb w))"

definition pending_ok :: "int \<Rightarrow> uuid \<Rightarrow> 'q world \<Rightarrow> bool" where
  "pending_ok M i w \<longleftrightarrow> accepted i w \<le> nat M \<and> accepted i w \<le> recoveries i (wdb w) \<and> known i (wdb w)"

definition reliable :: "'q schedule \<Rightarrow> bool" where
  "reliable s \<longleftrightarrow> polite s \<and> (\<forall>k. net_of s k = Works)"

lemma ok_frame:
  assumes "other_step (wdb w) (wdb w')" "accepted i w' = accepted i w"
  shows "counted_ok M i w \<Longrightarrow> counted_ok M i w'" "pending_ok M i w \<Longrightarrow> pending_ok M i w'"
  using other_step_gone [OF assms(1)] other_step_known [OF assms(1)] other_step_recoveries [OF assms(1), of i] assms(2)
  by (auto simp: counted_ok_def pending_ok_def)

lemma pending_counted: "pending_ok M i w \<Longrightarrow> counted_ok M i w"
  by (simp add: pending_ok_def counted_ok_def)

lemma accepted_webhooks:
  "wsent w' = wsent w @ ts \<Longrightarrow> (\<forall>t \<in> set ts. task_type t = TypeWebhookDeliver) \<Longrightarrow>
   accepted i w' = accepted i w"
  by (auto simp: accepted_def convert_task_def filter_empty_conv)

lemma accepted_exhaust: "polite s \<Longrightarrow> accepted i (exhaust_job enq c s j w) = accepted i w"
  using exhaust_job_step [of s w enq c j] accepted_webhooks by metis

lemma recover_job_counts:
  assumes "reliable s" "db_ok (wdb w)"
    and "int (recoveries (sj_ID j) (wdb w)) < MaxRecoveries cfg"
  shows "other_step (wdb w) (wdb (recover_job enq c s j w))"
    and "i \<noteq> sj_ID j \<Longrightarrow> accepted i (recover_job enq c s j w) = accepted i w"
    and "pending_ok (MaxRecoveries cfg) (sj_ID j) w \<Longrightarrow>
      counted_ok (MaxRecoveries cfg) (sj_ID j) (recover_job enq c s j w)"
proof -
  have s: "polite s" using assms(1) by (simp add: reliable_def)
  let ?w' = "recover_job enq c s j w"
  have "other_step (wdb w) (wdb ?w') \<and> (i \<noteq> sj_ID j \<longrightarrow> accepted i ?w' = accepted i w)
    \<and> (pending_ok (MaxRecoveries cfg) (sj_ID j) w \<longrightarrow> counted_ok (MaxRecoveries cfg) (sj_ID j) ?w')"
  proof (cases rule: recover_job_cases [OF s, of enq c j w])
    case 1
    then show ?thesis by (auto simp: accepted_def counted_ok_def pending_ok_def)
  next
    case (2 w1)
    then show ?thesis
      using ok_frame(2) [of w w1] by (auto simp: accepted_def intro: pending_counted)
  next
    case (3 w1 t)
    note r = record_recovery_step [OF s, of w1 j]
    have "other_step (wdb w) (wdb ?w')"
      using 3 r other_step_trans by metis
    moreover have acc: "accepted i ?w' = accepted i w + (if i = sj_ID j then 1 else 0)" for i
      using 3 r by (simp add: accepted_def convert_task_def)
    moreover have "counted_ok (MaxRecoveries cfg) (sj_ID j) ?w'"
      if p: "pending_ok (MaxRecoveries cfg) (sj_ID j) w"
    proof -
      have "recoveries (sj_ID j) (wdb w1) < recoveries (sj_ID j) (wdb ?w') \<or> gone (sj_ID j) (wdb ?w')"
        unfolding 3(3) using assms(1) p other_step_ok [OF 3(1)] other_step_known [OF 3(1)] assms(2)
        by (intro record_recovery_counted) (auto simp: reliable_def pending_ok_def)
      then show ?thesis
        using p assms(3) other_step_recoveries [OF 3(1), of "sj_ID j"]
        by (auto simp: counted_ok_def pending_ok_def acc)
    qed
    ultimately show ?thesis by simp
  qed
  then show "other_step (wdb w) (wdb ?w')" "i \<noteq> sj_ID j \<Longrightarrow> accepted i ?w' = accepted i w"
    "pending_ok (MaxRecoveries cfg) (sj_ID j) w \<Longrightarrow> counted_ok (MaxRecoveries cfg) (sj_ID j) ?w'"
    by blast+
qed

lemma sweep_job_counts:
  assumes "reliable s" "db_ok (wdb w)"
  shows "other_step (wdb w) (wdb (sweep_job enq c cfg s j w))
    \<and> (i \<noteq> sj_ID j \<longrightarrow> accepted i (sweep_job enq c cfg s j w) = accepted i w)
    \<and> (pending_ok (MaxRecoveries cfg) (sj_ID j) w \<longrightarrow>
         counted_ok (MaxRecoveries cfg) (sj_ID j) (sweep_job enq c cfg s j w))"
proof -
  have s: "polite s" using assms(1) by (simp add: reliable_def)
  show ?thesis
  proof (cases rule: sweep_job_cases [where enq = enq and c = c and cfg = cfg and j = j and w = w, OF s refl])
    case (1 w1)
    let ?w' = "sweep_job enq c cfg s j w"
    have "other_step (wdb w1) (wdb ?w')" "accepted i ?w' = accepted i w1" for i
      using 1 exhaust_job_step [OF s, of w1 enq c j] accepted_exhaust [OF s] by auto
    then have "other_step (wdb w) (wdb ?w')" "accepted i ?w' = accepted i w" for i
      using 1 other_step_trans by (auto simp: accepted_def)
    then show ?thesis using ok_frame(2) pending_counted by blast
  next
    case (2 w1)
    have acc: "accepted i w1 = accepted i w" for i using 2 by (simp add: accepted_def)
    note r = recover_job_counts [OF assms(1) other_step_ok [OF 2(1) assms(2)] 2(3), where enq = enq and c = c]
    show ?thesis
      unfolding 2(4)
      using r other_step_trans [OF 2(1)] ok_frame(2) [OF 2(1) acc] acc by simp
  qed
qed

lemma sweep_jobs_counts:
  assumes "reliable s" "db_ok (wdb w)" "distinct (map sj_ID js)"
    and "\<And>i. counted_ok (MaxRecoveries cfg) i w"
    and "\<And>j. j \<in> set js \<Longrightarrow> pending_ok (MaxRecoveries cfg) (sj_ID j) w"
  shows "other_step (wdb w) (wdb (foldl (\<lambda>w j. sweep_job enq c cfg s j w) w js))
    \<and> counted_ok (MaxRecoveries cfg) i (foldl (\<lambda>w j. sweep_job enq c cfg s j w) w js)"
  using assms
proof (induction js arbitrary: w)
  case (Cons j js)
  let ?w = "sweep_job enq c cfg s j w"
  note step = sweep_job_counts [OF Cons.prems(1,2), of enq c cfg j]
  have "counted_ok (MaxRecoveries cfg) i ?w" for i
    using step [of i] ok_frame(1) [of w ?w i] Cons.prems(4,5) by (cases "i = sj_ID j") auto
  moreover have "pending_ok (MaxRecoveries cfg) (sj_ID k) ?w" if k: "k \<in> set js" for k
  proof -
    have "sj_ID k \<noteq> sj_ID j" using Cons.prems(3) k by (metis distinct.simps(2) image_eqI list.map(2) list.set_map)
    then show ?thesis
      using step [of "sj_ID k"] ok_frame(2) [of w ?w "sj_ID k"] Cons.prems(5) [of k] k by simp
  qed
  moreover have "db_ok (wdb ?w)" using step other_step_ok Cons.prems(2) by blast
  ultimately have "other_step (wdb ?w) (wdb (foldl (\<lambda>w j. sweep_job enq c cfg s j w) ?w js))
    \<and> counted_ok (MaxRecoveries cfg) i (foldl (\<lambda>w j. sweep_job enq c cfg s j w) ?w js)"
    using Cons.prems by (intro Cons.IH) auto
  then show ?case using other_step_trans [OF conjunct1 [OF step]] by simp
qed auto

text \<open>Recording a recovered webhook gap is safe on the rows the scan returned.\<close>

lemma gap_recorded_step:
  assumes "find_job i d = Some j" "status j = st" "terminal st"
  shows "other_step d (snd (RecordWebhookGapRecovered n now i st d))"
  using assms by (auto simp: other_step_def keeps_rows_inserts recoveries_other
      intro: RecordWebhookGapRecovered_ok)

lemma sweep_gap_step:
  assumes s: "polite s" and j: "find_job (fst g) (wdb w) = Some j" "status j = snd g" "terminal (snd g)"
  shows "other_step (wdb w) (wdb (sweep_gap enq c s g w)) \<and> accepted i (sweep_gap enq c s g w) = accepted i w
    \<and> (\<exists>ts. wsent (sweep_gap enq c s g w) = wsent w @ ts
        \<and> (\<forall>t \<in> set ts. task_type t = TypeWebhookDeliver \<and> task_payload t = Some (fst g)))"
proof -
  obtain r w1 where q: "q_call s (EnqueueWebhookDeliver (traced enq) c (fst g)) w = (r, w1)" by force
  note q_step = q_call_step [OF s q]
  have sent: "wsent w1 = wsent w @ (if r = Inr () then [NewWebhookDeliverTask (fst g) (webhookUniqueTTL c)] else [])"
    using q_call_traced [OF q [unfolded EnqueueWebhookDeliver_def]] by simp
  obtain e w2 where r: "db_call s (\<lambda>n now. RecordWebhookGapRecovered n now (fst g) (snd g)) w1 = (e, w2)" by force
  obtain d qq where o: "others s (wtick w1) (wdb w1, wq w1) = (d, qq)" by force
  then have od: "other_step (wdb w1) d" using s by (metis fst_conv polite_def)
  have "find_job (fst g) d = Some j"
    using other_step_trans [OF q_step od] j seen_stays by (auto simp: other_step_def)
  then have d2: "other_step d (wdb w2)"
    using r o gap_recorded_step [OF _ j(2,3), of _ d]
    by (auto simp: db_call_def Let_def split: prod.splits) (metis snd_conv)
  have "wsent w2 = wsent w1"
    using r by (auto simp: db_call_def Let_def split: prod.splits)
  with other_step_trans [OF q_step other_step_trans [OF od d2]] show ?thesis
    using q r q_step sent
    by (auto simp: sweep_gap_def accepted_def convert_task_def task_defs split: sum.splits)
qed

lemma sweep_gaps_loop:
  assumes "polite s" and "\<forall>g \<in> set gs. \<exists>j. find_job (fst g) (wdb w) = Some j \<and> status j = snd g \<and> terminal (snd g)"
  shows "other_step (wdb w) (wdb (foldl (\<lambda>w g. sweep_gap enq c s g w) w gs))
    \<and> accepted i (foldl (\<lambda>w g. sweep_gap enq c s g w) w gs) = accepted i w"
  using assms(2)
proof (induction gs arbitrary: w)
  case (Cons g gs)
  then obtain j where j: "find_job (fst g) (wdb w) = Some j" "status j = snd g" "terminal (snd g)" by auto
  let ?w = "sweep_gap enq c s g w"
  have step: "other_step (wdb w) (wdb ?w)" and acc: "accepted i ?w = accepted i w" for i
    using sweep_gap_step [OF assms(1) j] by blast+
  then have "keeps_rows (wdb w) (wdb ?w)" by (simp add: other_step_def)
  then have "\<forall>g \<in> set gs. \<exists>j. find_job (fst g) (wdb ?w) = Some j \<and> status j = snd g \<and> terminal (snd g)"
    using Cons.prems seen_stays by fastforce
  from Cons.IH [OF this] acc other_step_trans [OF step] show ?case by simp
qed simp

lemma sweep_gaps_step:
  assumes "polite s" "db_ok (wdb w)"
  shows "other_step (wdb w) (wdb (sweep_gaps enq c cfg s w)) \<and> accepted i (sweep_gaps enq c cfg s w) = accepted i w"
proof -
  obtain r w1 where f: "db_call s (\<lambda>n now d. (FindWebhookGaps n now (ActiveStaleAfter cfg) d, d)) w = (r, w1)"
    by force
  note q = db_call_query [OF f assms(1)]
  show ?thesis
  proof (cases r)
    case (Inl e)
    then show ?thesis using f q by (simp add: sweep_gaps_def accepted_def)
  next
    case (Inr gs)
    have "db_ok (wdb w1)" using q assms(2) other_step_ok by blast
    then have "\<forall>g \<in> set gs. \<exists>j. find_job (fst g) (wdb w1) = Some j \<and> status j = snd g \<and> terminal (snd g)"
      using FindWebhookGaps_terminal db_call_query_result [OF f] Inr by (metis prod.collapse)
    from sweep_gaps_loop [OF assms(1) this, of enq c i] show ?thesis
      using f q Inr other_step_trans [OF conjunct1 [OF q]] by (simp add: sweep_gaps_def accepted_def)
  qed
qed

lemma FindStale_rows:
  assumes "db_ok d" "FindStale n now a b d = Inr js"
  shows "distinct (map sj_ID js)"
    "J \<in> set js \<Longrightarrow> \<exists>j. find_job (sj_ID J) d = Some j \<and> \<not> terminal (status j)
       \<and> sj_Engine J = engine j \<and> sj_Status J = status j"
proof -
  have js: "js = map (\<lambda>j. \<lparr>sj_ID = id j, sj_Status = status j, sj_Engine = engine j\<rparr>)
      (filter (is_stale (now - a) (now - b)) (jobs_tbl d))"
    using assms(2) by (auto simp: FindStale_def query_def split: if_splits)
  have dist: "distinct (map id (jobs_tbl d))" using assms(1) by (simp add: db_ok_def)
  have "map sj_ID js = map id (filter (is_stale (now - a) (now - b)) (jobs_tbl d))"
    by (simp add: js)
  then show "distinct (map sj_ID js)" using dist by (simp add: distinct_map_filter)
  show "\<exists>j. find_job (sj_ID J) d = Some j \<and> \<not> terminal (status j)
       \<and> sj_Engine J = engine j \<and> sj_Status J = status j" if "J \<in> set js"
    using that find_job_unique [OF dist]
    by (auto simp: js is_stale_def terminal_def status_defs)
qed

lemma sweep_counts:
  assumes s: "reliable s" and ok: "db_ok (wdb w)" and inv: "\<And>i. counted_ok (MaxRecoveries cfg) i w"
  shows "other_step (wdb w) (wdb (sweep enq c cfg s w)) \<and> counted_ok (MaxRecoveries cfg) i (sweep enq c cfg s w)"
proof -
  have p: "polite s" using s by (simp add: reliable_def)
  obtain r w1 where f: "db_call s (\<lambda>n now d.
      (FindStale n now (QueuedStaleAfter cfg) (ActiveStaleAfter cfg) d, d)) w = (r, w1)" by force
  note q = db_call_query [OF f p]
  have ok1: "db_ok (wdb w1)" using q ok other_step_ok by blast
  have inv1: "counted_ok (MaxRecoveries cfg) i w1" for i
    using q inv [of i] ok_frame(1) [of w w1 i] by (simp add: accepted_def)
  show ?thesis
  proof (cases r)
    case (Inl e)
    then show ?thesis using f q inv1 by (simp add: sweep_def)
  next
    case (Inr js)
    note rows = FindStale_rows [OF ok1 db_call_query_result [OF f, symmetric, unfolded Inr]]
    let ?w2 = "foldl (\<lambda>w j. sweep_job enq c cfg s j w) w1 js"
    have "pending_ok (MaxRecoveries cfg) (sj_ID J) w1" if "J \<in> set js" for J
      using rows(2) [OF that] inv1 [of "sj_ID J"]
      by (auto simp: counted_ok_def pending_ok_def gone_def known_def)
    then have 2: "other_step (wdb w1) (wdb ?w2)" "counted_ok (MaxRecoveries cfg) i ?w2" for i
      using sweep_jobs_counts [OF s ok1 rows(1) inv1] by blast+
    have "db_ok (wdb ?w2)" using other_step_ok [OF 2(1) ok1] .
    note 3 = sweep_gaps_step [OF p this, of enq c cfg i]
    show ?thesis
      using f Inr ok_frame(1) [OF conjunct1 [OF 3] conjunct2 [OF 3] 2(2)]
        other_step_trans [OF conjunct1 [OF q] other_step_trans [OF 2(1) conjunct1 [OF 3]]]
      by (simp add: sweep_def)
  qed
qed

lemma sweeps_counts:
  assumes "\<And>s. s \<in> set ss \<Longrightarrow> reliable s" and "db_ok (wdb w)" and "\<And>i. counted_ok (MaxRecoveries cfg) i w"
  shows "db_ok (wdb (foldl (\<lambda>w s. sweep enq c cfg s w) w ss))
    \<and> counted_ok (MaxRecoveries cfg) i (foldl (\<lambda>w s. sweep enq c cfg s w) w ss)"
  using assms
proof (induction ss arbitrary: w)
  case (Cons s ss)
  have "other_step (wdb w) (wdb (sweep enq c cfg s w))"
    "counted_ok (MaxRecoveries cfg) i (sweep enq c cfg s w)" for i
    using sweep_counts [OF _ Cons.prems(2,3)] Cons.prems(1) by auto
  then show ?case using Cons.IH Cons.prems(1,2) other_step_ok by simp
qed auto

text \<open>C15: The recovery cap holds across any number of sweeps: whatever other processes do between the
  sweeper's calls and however the broker answers, as long as the sweeper's own database calls
  are not lost, the broker accepts at most \<open>MaxRecoveries\<close> convert tasks for a job from the
  sweeper, and the job table stays consistent with the event log.\<close>

theorem recovery_cap:
  assumes "\<forall>s \<in> set ss. reliable s" and "db_ok (wdb w)" and "wsent w = []"
  shows "accepted i (Run enq c cfg ss w) \<le> nat (MaxRecoveries cfg) \<and> db_ok (wdb (Run enq c cfg ss w))"
proof -
  have "counted_ok (MaxRecoveries cfg) i w" for i
    using assms(3) by (simp add: counted_ok_def accepted_def)
  then show ?thesis
    using sweeps_counts [of ss w cfg enq c i] assms(1,2) by (simp add: counted_ok_def Run_def)
qed

lemma quiet_reliable [simp]: "reliable (quiet now)"
  by (simp add: quiet_def reliable_def polite_def)

definition demo_config :: Config where
  "demo_config = \<lparr>QueuedStaleAfter = 60, ActiveStaleAfter = 900, SweepInterval = 30, MaxRecoveries = 3\<rparr>"

theorem recovery_cap_witness:
  "accepted 5 (Run (\<lambda>t q. (Inr (), q)) demo_client demo_config
     [quiet 5000, quiet 10000, quiet 15000, quiet 20000] (demo_world demo_active)) \<le> 3"
proof -
  have "db_ok demo_active"
    using sys_reachable_ok [OF demo_active_reachable] by (simp add: sys_ok_def)
  with recovery_cap [of "[quiet 5000, quiet 10000, quiet 15000, quiet 20000]" "demo_world demo_active" 5
      "\<lambda>t q. (Inr (), q)" demo_client demo_config]
  show ?thesis by (simp add: demo_world_def demo_config_def)
qed

subsection \<open>Routing\<close>

text \<open>A task that fits the row of the job it names.\<close>

definition routed :: "db \<Rightarrow> Task \<Rightarrow> bool" where
  "routed d t \<longleftrightarrow> (\<exists>i j. task_payload t = Some i \<and> find_job i d = Some j
     \<and> (task_type t = TypeWebhookDeliver
        \<or> task_queue t = engine j \<and> task_type t = engine j @ '':convert''))"

lemma other_step_row:
  assumes "other_step d d'" "find_job i d = Some j"
  shows "\<exists>j'. find_job i d' = Some j' \<and> engine j' = engine j"
proof -
  obtain j' where "find_job i d' = Some j'" "row_frame j j'"
    using assms unfolding other_step_def keeps_rows_def by blast
  then show ?thesis by (simp add: row_frame_def)
qed

lemma routed_mono: "other_step d d' \<Longrightarrow> routed d t \<Longrightarrow> routed d' t"
  unfolding routed_def by (elim exE conjE) (drule (1) other_step_row, fastforce)

text \<open>What a piece of the sweep may add to the trace.\<close>

definition extends :: "'q world \<Rightarrow> 'q world \<Rightarrow> bool" where
  "extends w w' \<longleftrightarrow> other_step (wdb w) (wdb w')
     \<and> (\<exists>ts. wsent w' = wsent w @ ts \<and> (\<forall>t \<in> set ts. routed (wdb w') t))"

lemma extends_trans: "extends a b \<Longrightarrow> extends b c \<Longrightarrow> extends a c"
  unfolding extends_def
proof (elim exE conjE, intro conjI)
  fix ts us
  assume b: "wsent b = wsent a @ ts" "\<forall>t \<in> set ts. routed (wdb b) t"
    and c: "wsent c = wsent b @ us" "\<forall>t \<in> set us. routed (wdb c) t" "other_step (wdb b) (wdb c)"
  have "\<forall>t \<in> set (ts @ us). routed (wdb c) t"
    using b(2) c(2) routed_mono [OF c(3)] by auto
  then show "\<exists>ts. wsent c = wsent a @ ts \<and> (\<forall>t \<in> set ts. routed (wdb c) t)"
    using b(1) c(1) by auto
qed (rule other_step_trans)

lemma extends_quiet: "other_step (wdb w) (wdb w') \<Longrightarrow> wsent w' = wsent w \<Longrightarrow> extends w w'"
  by (simp add: extends_def)

lemma sweep_job_extends:
  assumes s: "polite s" and j: "find_job (sj_ID J) (wdb w) = Some j" "sj_Engine J = engine j"
  shows "extends w (sweep_job enq c cfg s J w)"
proof (cases rule: sweep_job_cases [where enq = enq and c = c and cfg = cfg and j = J and w = w, OF s refl])
  case (1 w1)
  have row: "known (sj_ID J) (wdb (exhaust_job enq c s J w1))"
    using exhaust_job_step [OF s, of w1 enq c J] other_step_known 1(1) j by (auto simp: known_def)
  have "extends w1 (exhaust_job enq c s J w1)"
    unfolding extends_def
    using exhaust_job_step [OF s, of w1 enq c J] row by (fastforce simp: routed_def known_def)
  with extends_quiet [OF 1(1,2)] 1(3) show ?thesis by (auto intro: extends_trans)
next
  case (2 w1)
  obtain j1 where j1: "find_job (sj_ID J) (wdb w1) = Some j1" "engine j1 = engine j"
    using other_step_row [OF 2(1) j(1)] by blast
  have "extends w1 (recover_job enq c s J w1)"
  proof (cases rule: recover_job_cases [OF s, of enq c J w1])
    case (3 w2 t)
    note r = record_recovery_step [OF s, of w2 J]
    have "routed (wdb w1) t" using 3 j1 j(2) by (auto simp: routed_def)
    then have "extends w1 w2" using 3 routed_mono by (auto simp: extends_def)
    with extends_quiet [of w2 "record_recovery s J w2"] r 3 show ?thesis by (metis extends_trans)
  qed (auto intro: extends_quiet)
  with extends_quiet [OF 2(1,2)] 2(4) show ?thesis by (auto intro: extends_trans)
qed

lemma sweep_jobs_extend:
  assumes "polite s" and "\<forall>J \<in> set js. \<exists>j. find_job (sj_ID J) (wdb w) = Some j \<and> sj_Engine J = engine j"
  shows "extends w (foldl (\<lambda>w j. sweep_job enq c cfg s j w) w js)"
  using assms(2)
proof (induction js arbitrary: w)
  case (Cons J js)
  let ?w = "sweep_job enq c cfg s J w"
  have step: "extends w ?w" using Cons.prems sweep_job_extends [OF assms(1)] by auto
  then have "\<forall>J \<in> set js. \<exists>j. find_job (sj_ID J) (wdb ?w) = Some j \<and> sj_Engine J = engine j"
    using Cons.prems other_step_row unfolding extends_def by (metis list.set_intros(2))
  from extends_trans [OF step Cons.IH [OF this]] show ?case by simp
qed (simp add: extends_quiet)

lemma sweep_gaps_extend:
  assumes "polite s" and "\<forall>g \<in> set gs. \<exists>j. find_job (fst g) (wdb w) = Some j \<and> status j = snd g \<and> terminal (snd g)"
  shows "extends w (foldl (\<lambda>w g. sweep_gap enq c s g w) w gs)"
  using assms(2)
proof (induction gs arbitrary: w)
  case (Cons g gs)
  then obtain j where j: "find_job (fst g) (wdb w) = Some j" "status j = snd g" "terminal (snd g)" by auto
  let ?w = "sweep_gap enq c s g w"
  note st = sweep_gap_step [OF assms(1) j, of enq c]
  then have keep: "keeps_rows (wdb w) (wdb ?w)" by (simp add: other_step_def)
  then have "find_job (fst g) (wdb ?w) = Some j" using j seen_stays by auto
  then have step: "extends w ?w" using st unfolding extends_def routed_def by (metis)
  have "\<forall>g \<in> set gs. \<exists>j. find_job (fst g) (wdb ?w) = Some j \<and> status j = snd g \<and> terminal (snd g)"
    using Cons.prems seen_stays [OF keep] by fastforce
  from extends_trans [OF step Cons.IH [OF this]] show ?case by simp
qed (simp add: extends_quiet)

lemma sweep_extends:
  assumes p: "polite s" and ok: "db_ok (wdb w)"
  shows "extends w (sweep enq c cfg s w)"
proof -
  obtain r w1 where f: "db_call s (\<lambda>n now d.
      (FindStale n now (QueuedStaleAfter cfg) (ActiveStaleAfter cfg) d, d)) w = (r, w1)" by force
  note q = db_call_query [OF f p]
  have e1: "extends w w1" using q by (simp add: extends_quiet)
  have ok1: "db_ok (wdb w1)" using q ok other_step_ok by blast
  show ?thesis
  proof (cases r)
    case (Inl e)
    then show ?thesis using f e1 by (simp add: sweep_def)
  next
    case (Inr js)
    note rows = FindStale_rows [OF ok1 db_call_query_result [OF f, symmetric, unfolded Inr]]
    let ?w2 = "foldl (\<lambda>w j. sweep_job enq c cfg s j w) w1 js"
    have e2: "extends w1 ?w2" using rows(2) by (intro sweep_jobs_extend [OF p]) blast
    then have ok2: "db_ok (wdb ?w2)" using ok1 other_step_ok by (auto simp: extends_def)
    obtain g w3 where gf: "db_call s (\<lambda>n now d. (FindWebhookGaps n now (ActiveStaleAfter cfg) d, d)) ?w2 = (g, w3)"
      by force
    note gq = db_call_query [OF gf p]
    have e3: "extends ?w2 w3" using gq by (simp add: extends_quiet)
    have "extends w3 (sweep_gaps enq c cfg s ?w2)"
    proof (cases g)
      case (Inr gs)
      have "db_ok (wdb w3)" using gq ok2 other_step_ok by blast
      then have "\<forall>g \<in> set gs. \<exists>j. find_job (fst g) (wdb w3) = Some j \<and> status j = snd g \<and> terminal (snd g)"
        using FindWebhookGaps_terminal db_call_query_result [OF gf] Inr by (metis prod.collapse)
      from sweep_gaps_extend [OF p this] show ?thesis using gf Inr by (simp add: sweep_gaps_def)
    qed (use gf in \<open>simp add: sweep_gaps_def extends_quiet\<close>)
    then have "extends w (sweep_gaps enq c cfg s ?w2)"
      using extends_trans e1 e2 e3 by blast
    then show ?thesis using f Inr by (simp add: sweep_def)
  qed
qed

text \<open>A sweep never misroutes: under any interleaving, any lost connections and any broker, every
  task the broker accepted during a sweep names a job that exists, and is a webhook delivery
  or a convert task on the queue and of the type of that job's own engine.\<close>

theorem sweep_routes:
  assumes "polite s" and "db_ok (wdb w)"
  shows "\<exists>ts. wsent (sweep enq c cfg s w) = wsent w @ ts
    \<and> (\<forall>t \<in> set ts. routed (wdb (sweep enq c cfg s w)) t)"
  using sweep_extends [OF assms] by (simp add: extends_def)

theorem sweep_routes_witness:
  "\<exists>ts. wsent (sweep (\<lambda>t q. (Inr (), q)) demo_client demo_config (quiet 5000) (demo_world demo_active)) = [] @ ts"
proof -
  have "db_ok demo_active"
    using sys_reachable_ok [OF demo_active_reachable] by (simp add: sys_ok_def)
  moreover have "polite (quiet 5000 :: unit schedule)"
    using quiet_reliable reliable_def by blast
  ultimately show ?thesis
    using sweep_routes [of "quiet 5000" "demo_world demo_active" "\<lambda>t q. (Inr (), q)" demo_client demo_config]
    by (auto simp: demo_world_def)
qed

subsection \<open>Sweeps without interference\<close>

definition alone :: "'q schedule \<Rightarrow> bool" where
  "alone s \<longleftrightarrow> (\<forall>k x. others s k x = x)"

lemma alone_polite: "alone s \<Longrightarrow> polite s"
  by (simp add: alone_def polite_def)

lemma alone_quiet [simp]: "alone (quiet now)"
  by (simp add: alone_def quiet_def)

lemma alone_db_call:
  "alone s \<Longrightarrow> db_call s f w =
     (let k = wtick w; (r, d) = f (net_of s k) (clock s k) (wdb w) in (r, w\<lparr>wdb := d, wtick := Suc k\<rparr>))"
  by (simp add: alone_def db_call_def Let_def split: prod.splits)

lemma alone_q_call:
  "alone s \<Longrightarrow> q_call s (traced enq t) w = (r, w') \<Longrightarrow> r = fst (enq t (wq w)) \<and> wdb w' = wdb w"
  by (auto simp: alone_def q_call_def traced_def Let_def split: prod.splits)

text \<open>The row and the log of one job are the same in both databases.\<close>

definition same :: "uuid \<Rightarrow> db \<Rightarrow> db \<Rightarrow> bool" where
  "same i d d' \<longleftrightarrow> find_job i d' = find_job i d \<and> history i d' = history i d"

lemma same_refl [simp]: "same i d d"
  by (simp add: same_def)

lemma same_trans: "same i a b \<Longrightarrow> same i b c \<Longrightarrow> same i a c"
  by (simp add: same_def)

lemma recoveries_history: "recoveries i d = length (filter (has_action detailActionRecovery) (history i d))"
  by (simp add: recoveries_def history_def)

lemma same_recoveries: "same i d d' \<Longrightarrow> recoveries i d' = recoveries i d"
  by (simp add: same_def recoveries_history)

lemma same_transition:
  assumes "k \<noteq> i" "\<And>j. id (f j) = id j"
  shows "same i d (snd (transition n now k to allowed dt f d))"
proof (rule transition_keeps [where P = "same i d"])
  fix j
  assume "find_job k d = Some j"
  have "map_option (\<lambda>j. if id j = k then f j else j) (find_job i d) = find_job i d"
    using find_job_SomeD [of i d] assms(1) by (cases "find_job i d") auto
  then show "same i d (insert_event \<lparr>ev_job = k, from_status = Some (status j), to_status = to,
      ev_detail = dt, ev_at = now\<rparr> (update_job k f d))"
    using assms by (simp add: same_def history_insert find_job_update)
qed simp

lemma same_calls:
  assumes "k \<noteq> i"
  shows "same i d (snd (RequeueStale n now k r d))" "same i d (snd (MarkFailed n now k cd m dt d))"
    "same i d (snd (RecordWebhookGapRecovered n now k st d))"
  unfolding RequeueStale_def MarkFailed_def using same_transition [OF assms]
  by (auto simp: RecordWebhookGapRecovered_def begin_func_def same_def history_insert assms split: net.splits)

lemma alone_db_call_same:
  assumes "alone s" and "\<And>n t d. same i d (snd (f n t d))" and "db_call s f w = (r, w')"
  shows "same i (wdb w) (wdb w')"
  using assms(2) [of "wdb w" "net_of s (wtick w)" "clock s (wtick w)"] assms(1,3)
  by (auto simp: alone_db_call Let_def split: prod.splits)

lemma record_recovery_same:
  assumes "alone s" "sj_ID J \<noteq> i"
  shows "same i (wdb w) (wdb (record_recovery s J w))"
proof -
  let ?f = "\<lambda>n now. RequeueStale n now (sj_ID J) (''stale_'' @ sj_Status J)"
  obtain e1 w1 where 1: "db_call s ?f w = (e1, w1)" by force
  obtain e2 w2 where 2: "db_call s ?f w1 = (e2, w2)" by force
  note st = alone_db_call_same [OF assms(1) same_calls(1) [OF assms(2)]]
  show ?thesis
    using st [OF 1] same_trans [OF st [OF 1] st [OF 2]] 1 2
    by (auto simp: record_recovery_def Let_def split: sum.splits)
qed

lemma recover_job_same:
  assumes "alone s" "sj_ID J \<noteq> i \<or> (\<forall>t q. task_payload t = Some i \<longrightarrow> fst (enq t q) \<noteq> Inr ())"
  shows "same i (wdb w) (wdb (recover_job enq c s J w))"
proof (cases "enqueue_for (traced enq) c J")
  case (Some f)
  then obtain t where t: "f = traced enq t" "task_payload t = Some (sj_ID J)"
    using enqueue_for_task by blast
  obtain r w1 where q: "q_call s f w = (r, w1)" by force
  note a = alone_q_call [OF assms(1) q [unfolded t(1)]]
  show ?thesis
  proof (cases r)
    case (Inl e)
    then show ?thesis using a q Some by (simp add: recover_job_def)
  next
    case (Inr u)
    then have "sj_ID J \<noteq> i" using a assms(2) t(2) by fastforce
    from record_recovery_same [OF assms(1) this, of w1] show ?thesis
      using conjunct2 [OF a] q Some Inr by (simp add: recover_job_def)
  qed
qed (simp add: recover_job_def)

lemma exhaust_job_same:
  assumes "alone s" "sj_ID J \<noteq> i"
  shows "same i (wdb w) (wdb (exhaust_job enq c s J w))"
proof -
  obtain job w1 where 1: "db_call s (\<lambda>n now d. (Get n (sj_ID J) d, d)) w = (job, w1)" by force
  obtain fe w2 where 2: "db_call s (\<lambda>n now. MarkFailed n now (sj_ID J) ''reconciler_exhausted''
      ''recovery attempts exhausted'' (Some [(''action'', ''reconciler_exhausted'')])) w1 = (fe, w2)" by force
  let ?w3 = "RecordReconcilerAction ''exhausted'' w2"
  obtain r w4 where 4: "q_call s (traced enq (NewWebhookDeliverTask (sj_ID J) (webhookUniqueTTL c))) ?w3 = (r, w4)"
    by force
  have "same i (wdb w) (wdb w1)" by (rule alone_db_call_same [OF assms(1) _ 1]) simp
  moreover have "same i (wdb w1) (wdb w2)"
    by (rule alone_db_call_same [OF assms(1) same_calls(2) [OF assms(2)] 2])
  moreover have "wdb w4 = wdb w2" using alone_q_call [OF assms(1) 4] by simp
  ultimately show ?thesis
    using 1 2 4 same_trans [of i "wdb w" "wdb w1" "wdb w2"]
    by (auto simp: exhaust_job_def Let_def EnqueueWebhookDeliver_def split: sum.splits)
qed

lemma sweep_job_same:
  assumes s: "alone s" and "sj_ID J \<noteq> i \<or> (\<forall>t q. task_payload t = Some i \<longrightarrow> fst (enq t q) \<noteq> Inr ())
      \<and> int (recoveries i (wdb w)) < MaxRecoveries cfg"
  shows "same i (wdb w) (wdb (sweep_job enq c cfg s J w))"
proof -
  obtain r w1 where 1: "db_call s (\<lambda>n now d. (RecoveryCount n (sj_ID J) d, d)) w = (r, w1)" by force
  have w1: "wdb w1 = wdb w" using 1 s by (auto simp: alone_db_call Let_def)
  have r: "r = RecoveryCount (net_of s (wtick w)) (sj_ID J) (wdb w)"
    using db_call_query_result [OF 1] w1 by simp
  show ?thesis
  proof (cases "sj_ID J = i")
    case True
    then show ?thesis
      using 1 r assms recover_job_same [OF s, of J i enq w1 c] w1
      by (auto simp: sweep_job_def RecoveryCount_def query_def)
  next
    case False
    then show ?thesis
      using 1 w1 recover_job_same [OF s, of J i enq w1 c] exhaust_job_same [OF s False, of w1 enq c]
      by (auto simp: sweep_job_def split: sum.splits)
  qed
qed

lemma sweep_jobs_same:
  assumes s: "alone s" and "\<And>J. J \<in> set js \<Longrightarrow> sj_ID J \<noteq> i \<or>
      (\<forall>t q. task_payload t = Some i \<longrightarrow> fst (enq t q) \<noteq> Inr ()) \<and> int (recoveries i (wdb w)) < MaxRecoveries cfg"
  shows "same i (wdb w) (wdb (foldl (\<lambda>w j. sweep_job enq c cfg s j w) w js))"
  using assms(2)
proof (induction js arbitrary: w)
  case (Cons J js)
  let ?w = "sweep_job enq c cfg s J w"
  have st: "same i (wdb w) (wdb ?w)" using Cons.prems [of J] by (intro sweep_job_same [OF s]) simp
  have "same i (wdb ?w) (wdb (foldl (\<lambda>w j. sweep_job enq c cfg s j w) ?w js))"
    using Cons.prems same_recoveries [OF st] by (intro Cons.IH) (metis list.set_intros(2))
  from same_trans [OF st this] show ?case by simp
qed simp

lemma sweep_gap_same:
  assumes "alone s"
  shows "fst g \<noteq> i \<Longrightarrow> same i (wdb w) (wdb (sweep_gap enq c s g w))"
    and "find_job i (wdb (sweep_gap enq c s g w)) = find_job i (wdb w)
      \<and> recoveries i (wdb (sweep_gap enq c s g w)) = recoveries i (wdb w)"
proof -
  obtain r w1 where q: "q_call s (traced enq (NewWebhookDeliverTask (fst g) (webhookUniqueTTL c))) w = (r, w1)"
    by force
  note a = alone_q_call [OF assms q]
  have db: "wdb (sweep_gap enq c s g w) = (case r of Inl _ \<Rightarrow> wdb w
      | Inr _ \<Rightarrow> snd (RecordWebhookGapRecovered (net_of s (wtick w1)) (clock s (wtick w1)) (fst g) (snd g) (wdb w)))"
    using q a assms by (auto simp: sweep_gap_def EnqueueWebhookDeliver_def alone_db_call Let_def
        split: sum.splits prod.splits)
  show "fst g \<noteq> i \<Longrightarrow> same i (wdb w) (wdb (sweep_gap enq c s g w))"
    using same_calls(3) by (auto simp: db split: sum.splits)
  show "find_job i (wdb (sweep_gap enq c s g w)) = find_job i (wdb w)
      \<and> recoveries i (wdb (sweep_gap enq c s g w)) = recoveries i (wdb w)"
    using recoveries_other(4) [of i]
    by (auto simp: db RecordWebhookGapRecovered_def begin_func_def split: sum.splits net.splits)
qed

lemma sweep_gaps_same:
  assumes "alone s"
  shows "i \<notin> fst ` set gs \<Longrightarrow> same i (wdb w) (wdb (foldl (\<lambda>w g. sweep_gap enq c s g w) w gs))"
    and "find_job i (wdb (foldl (\<lambda>w g. sweep_gap enq c s g w) w gs)) = find_job i (wdb w)
      \<and> recoveries i (wdb (foldl (\<lambda>w g. sweep_gap enq c s g w) w gs)) = recoveries i (wdb w)"
proof -
  show "i \<notin> fst ` set gs \<Longrightarrow> same i (wdb w) (wdb (foldl (\<lambda>w g. sweep_gap enq c s g w) w gs))"
  proof (induction gs arbitrary: w)
    case (Cons g gs)
    then show ?case
      using same_trans [OF sweep_gap_same(1) [OF assms, of g i w enq c] Cons.IH] by simp
  qed simp
  show "find_job i (wdb (foldl (\<lambda>w g. sweep_gap enq c s g w) w gs)) = find_job i (wdb w)
      \<and> recoveries i (wdb (foldl (\<lambda>w g. sweep_gap enq c s g w) w gs)) = recoveries i (wdb w)"
    by (induction gs arbitrary: w) (simp_all add: sweep_gap_same(2) [OF assms])
qed

text \<open>The three phases of a sweep nobody interferes with.\<close>

lemma alone_sweep_phases:
  assumes s: "alone s" and ok: "db_ok (wdb w)"
  obtains w1 where "wdb w1 = wdb w" "sweep enq c cfg s w = w1"
      "net_of s (wtick w) \<noteq> Works"
  | w1 js w2 gs where "wdb w1 = wdb w"
      "FindStale Works (clock s (wtick w)) (QueuedStaleAfter cfg) (ActiveStaleAfter cfg) (wdb w) = Inr js"
      "wdb w2 = wdb (foldl (\<lambda>w j. sweep_job enq c cfg s j w) w1 js)"
      "sweep enq c cfg s w = foldl (\<lambda>w g. sweep_gap enq c s g w) w2 gs"
      "\<forall>g \<in> set gs. \<exists>j. find_job (fst g) (wdb w2) = Some j \<and> terminal (status j)"
proof -
  obtain r w1 where f: "db_call s (\<lambda>n now d.
      (FindStale n now (QueuedStaleAfter cfg) (ActiveStaleAfter cfg) d, d)) w = (r, w1)" by force
  have w1: "wdb w1 = wdb w" using f s by (auto simp: alone_db_call Let_def)
  have r: "r = FindStale (net_of s (wtick w)) (clock s (wtick w)) (QueuedStaleAfter cfg) (ActiveStaleAfter cfg) (wdb w)"
    using db_call_query_result [OF f] w1 by simp
  show ?thesis
  proof (cases r)
    case (Inl e)
    then have "net_of s (wtick w) \<noteq> Works" using r by (auto simp: FindStale_def query_def)
    then show ?thesis using that(1) [of w1] f w1 Inl by (simp add: sweep_def)
  next
    case (Inr js)
    let ?w2 = "foldl (\<lambda>w j. sweep_job enq c cfg s j w) w1 js"
    have net: "net_of s (wtick w) = Works" using r Inr by (auto simp: FindStale_def query_def split: if_splits)
    have ok1: "db_ok (wdb w1)" using ok w1 by simp
    note rows = FindStale_rows [OF ok1 db_call_query_result [OF f, symmetric, unfolded Inr]]
    have "extends w1 ?w2" using rows(2) by (intro sweep_jobs_extend [OF alone_polite [OF s]]) blast
    then have ok2: "db_ok (wdb ?w2)" using ok1 other_step_ok by (auto simp: extends_def)
    obtain g w3 where gf: "db_call s (\<lambda>n now d. (FindWebhookGaps n now (ActiveStaleAfter cfg) d, d)) ?w2 = (g, w3)"
      by force
    have w3: "wdb w3 = wdb ?w2" using gf s by (auto simp: alone_db_call Let_def)
    have stale: "FindStale Works (clock s (wtick w)) (QueuedStaleAfter cfg) (ActiveStaleAfter cfg) (wdb w) = Inr js"
      using r Inr net by simp
    have sw: "sweep enq c cfg s w = (case g of Inl _ \<Rightarrow> w3 | Inr gs \<Rightarrow> foldl (\<lambda>w g. sweep_gap enq c s g w) w3 gs)"
      using f Inr gf by (simp add: sweep_def sweep_gaps_def)
    show ?thesis
    proof (cases g)
      case (Inl e)
      then show ?thesis using that(2) [of w1 js w3 "[]"] w1 stale w3 sw by simp
    next
      case (Inr gs)
      have "\<forall>g \<in> set gs. \<exists>j. find_job (fst g) (wdb w3) = Some j \<and> terminal (status j)"
        using FindWebhookGaps_terminal [OF ok2] db_call_query_result [OF gf] Inr w3
        by (metis prod.collapse)
      then show ?thesis using that(2) [of w1 js w3 gs] w1 stale w3 sw Inr by simp
    qed
  qed
qed

text \<open>A backlogged job is left alone: when the broker refuses every task for a job that is still
  queued or active and under the cap (a live task holds its lock, or Redis is down), a sweep
  changes neither its row nor its event log, so it gains no recovery.\<close>

theorem backlogged_job_untouched:
  assumes "alone s" and "db_ok (wdb w)" and "find_job i (wdb w) = Some j" and "\<not> terminal (status j)"
    and "int (recoveries i (wdb w)) < MaxRecoveries cfg"
    and "\<forall>t q. task_payload t = Some i \<longrightarrow> fst (enq t q) \<noteq> Inr ()"
  shows "find_job i (wdb (sweep enq c cfg s w)) = Some j
    \<and> history i (wdb (sweep enq c cfg s w)) = history i (wdb w)"
proof -
  have "same i (wdb w) (wdb (sweep enq c cfg s w))"
  proof (cases rule: alone_sweep_phases [where enq = enq and c = c and cfg = cfg, OF assms(1,2)])
    case (1 w1)
    then show ?thesis by simp
  next
    case (2 w1 js w2 gs)
    have st: "same i (wdb w) (wdb w2)"
      unfolding 2(3) 2(1) [symmetric] using assms(5,6) 2(1) by (intro sweep_jobs_same [OF assms(1)]) simp
    then have "find_job i (wdb w2) = Some j" using assms(3) by (simp add: same_def)
    then have "i \<notin> fst ` set gs" using 2(5) assms(4) by fastforce
    from same_trans [OF st sweep_gaps_same(1) [OF assms(1) this]] show ?thesis unfolding 2(4) .
  qed
  then show ?thesis using assms(3) by (simp add: same_def)
qed

theorem backlogged_job_untouched_witness:
  "history 5 (wdb (sweep (\<lambda>t q. (Inl ErrDuplicateTask, q)) demo_client demo_config (quiet 5000)
     (demo_world demo_active))) = history 5 demo_active"
proof -
  have ok: "db_ok demo_active"
    using sys_reachable_ok [OF demo_active_reachable] by (simp add: sys_ok_def)
  have "find_job 5 demo_active \<noteq> None" "recoveries 5 demo_active = 0"
    by code_simp+
  moreover have "\<not> gone 5 demo_active" by code_simp
  ultimately obtain j where "find_job 5 demo_active = Some j" "\<not> terminal (status j)"
    "recoveries 5 demo_active = 0" by (auto simp: gone_def)
  with ok backlogged_job_untouched [of "quiet 5000" "demo_world demo_active" 5 j demo_config
      "\<lambda>t q. (Inl ErrDuplicateTask, q)" demo_client]
  show ?thesis by (simp add: demo_world_def demo_config_def)
qed

text \<open>A job processed with everything working.\<close>

lemma quiet_q_call:
  "fst (q_call (quiet now) (traced enq t) w) = fst (enq t (wq w))"
  "wdb (snd (q_call (quiet now) (traced enq t) w)) = wdb w"
  using alone_q_call [OF alone_quiet, of now enq t w] by (metis prod.collapse)+

lemma exhaust_job_row:
  assumes j: "find_job (sj_ID J) (wdb w) = Some j" "status j \<in> {StatusQueued, StatusActive}"
  shows "\<exists>j'. find_job (sj_ID J) (wdb (exhaust_job enq c (quiet now) J w)) = Some j'
    \<and> status j' = StatusFailed \<and> error_code j' = Some ''reconciler_exhausted''
    \<and> recoveries (sj_ID J) (wdb (exhaust_job enq c (quiet now) J w)) = recoveries (sj_ID J) (wdb w)"
proof -
  let ?d = "snd (MarkFailed Works now (sj_ID J) ''reconciler_exhausted'' ''recovery attempts exhausted''
      (Some [(''action'', ''reconciler_exhausted'')]) (wdb w))"
  have "wdb (exhaust_job enq c (quiet now) J w) = ?d"
    by (simp add: exhaust_job_def quiet_db_call quiet_q_call Let_def EnqueueWebhookDeliver_def split: sum.splits)
  moreover have "find_job (sj_ID J) ?d = Some (j\<lparr>status := StatusFailed, finished_at := Some now,
      error_code := Some ''reconciler_exhausted'', error_message := Some ''recovery attempts exhausted''\<rparr>)"
    unfolding MarkFailed_def using j by (subst conjunct1 [OF transition_row]) auto
  ultimately show ?thesis by (simp add: recoveries_other)
qed

lemma recover_job_row:
  assumes j: "find_job (sj_ID J) (wdb w) = Some j" "status j \<in> {StatusQueued, StatusActive}"
    and e: "sj_Engine J \<in> set AllConvertQueues" and acc: "\<And>t q. fst (enq t q) = Inr ()"
  shows "\<exists>j'. find_job (sj_ID J) (wdb (recover_job enq c (quiet now) J w)) = Some j' \<and> status j' = StatusQueued
    \<and> recoveries (sj_ID J) (wdb (recover_job enq c (quiet now) J w)) = Suc (recoveries (sj_ID J) (wdb w))"
proof -
  have "enqueue_for (traced enq) c J \<noteq> None"
    using e by (auto simp: enqueue_for_def AllConvertQueues_def queue_defs)
  then obtain t where t: "enqueue_for (traced enq) c J = Some (traced enq t)"
    using enqueue_for_task by blast
  obtain w1 where q: "q_call (quiet now) (traced enq t) w = (Inr (), w1)" "wdb w1 = wdb w"
    using quiet_q_call [of now enq t w] acc by (metis prod.collapse)
  let ?d = "snd (RequeueStale Works now (sj_ID J) (''stale_'' @ sj_Status J) (wdb w))"
  have row: "find_job (sj_ID J) ?d = Some (j\<lparr>status := StatusQueued\<rparr>)
      \<and> fst (RequeueStale Works now (sj_ID J) (''stale_'' @ sj_Status J) (wdb w)) = Inr ()"
    unfolding RequeueStale_def using j by (intro transition_row) auto
  have "wdb (recover_job enq c (quiet now) J w) = ?d"
    using t q row by (simp add: recover_job_def record_recovery_def quiet_db_call Let_def)
  then show ?thesis using row j by (simp add: recoveries_requeue)
qed

text \<open>C39: A sweep makes progress on every stranded job: with nobody interfering, no lost connection
  and a broker that accepts, one sweep brings a stale job of a routable engine back to the
  queue with exactly one more counted recovery when it is under the cap, and ends it as failed
  with the code \<open>reconciler_exhausted\<close> when it is not.\<close>

theorem sweep_progress:
  assumes ok: "db_ok (wdb w)" and j: "find_job i (wdb w) = Some j"
    and stale: "is_stale (now - QueuedStaleAfter cfg) (now - ActiveStaleAfter cfg) j"
    and eng: "engine j \<in> set AllConvertQueues" and acc: "\<And>t q. fst (enq t q) = Inr ()"
  shows "\<exists>j'. find_job i (wdb (sweep enq c cfg (quiet now) w)) = Some j'
    \<and> (if int (recoveries i (wdb w)) < MaxRecoveries cfg
       then status j' = StatusQueued
         \<and> recoveries i (wdb (sweep enq c cfg (quiet now) w)) = Suc (recoveries i (wdb w))
       else status j' = StatusFailed \<and> error_code j' = Some ''reconciler_exhausted'')"
proof (cases rule: alone_sweep_phases [where enq = enq and c = c and cfg = cfg, OF alone_quiet [of now] ok])
  case (1 w1)
  then show ?thesis by (simp add: quiet_def)
next
  case (2 w1 js w2 gs)
  let ?J = "\<lparr>sj_ID = i, sj_Status = status j, sj_Engine = engine j\<rparr>"
  have "?J \<in> set js"
    using 2(2) stale j find_job_SomeD [OF j]
    by (force simp: FindStale_def query_def quiet_def split: if_splits)
  then obtain xs ys where js: "js = xs @ ?J # ys" by (meson split_list)
  have other: "sj_ID K \<noteq> i" if "K \<in> set xs \<or> K \<in> set ys" for K
    using FindStale_rows(1) [OF ok 2(2)] that by (force simp: js)
  let ?a = "foldl (\<lambda>w j. sweep_job enq c cfg (quiet now) j w) w1 xs"
  let ?b = "sweep_job enq c cfg (quiet now) ?J ?a"
  have a: "same i (wdb w) (wdb ?a)"
    using other by (subst 2(1) [symmetric], intro sweep_jobs_same) auto
  have b: "same i (wdb ?b) (wdb w2)"
    unfolding 2(3) js using other by (simp, intro sweep_jobs_same) auto
  have ja: "find_job (sj_ID ?J) (wdb ?a) = Some j" using a j by (simp add: same_def)
  have live: "status j \<in> {StatusQueued, StatusActive}" using stale by (auto simp: is_stale_def)
  let ?a' = "?a\<lparr>wdb := wdb ?a, wtick := Suc (wtick ?a)\<rparr>"
  have sj: "?b = (if MaxRecoveries cfg \<le> int (recoveries i (wdb w)) then exhaust_job enq c (quiet now) ?J ?a'
      else recover_job enq c (quiet now) ?J ?a')"
    using same_recoveries [OF a] by (simp add: sweep_job_def quiet_db_call RecoveryCount_def query_def)
  have "\<exists>j'. find_job i (wdb ?b) = Some j'
    \<and> (if int (recoveries i (wdb w)) < MaxRecoveries cfg
       then status j' = StatusQueued \<and> recoveries i (wdb ?b) = Suc (recoveries i (wdb w))
       else status j' = StatusFailed \<and> error_code j' = Some ''reconciler_exhausted'')"
    using exhaust_job_row [of ?J ?a' j enq c now] recover_job_row [of ?J ?a' j enq c now] ja live eng acc
      same_recoveries [OF a] unfolding sj by auto
  moreover have "find_job i (wdb (foldl (\<lambda>w g. sweep_gap enq c (quiet now) g w) w2 gs)) = find_job i (wdb ?b)"
    "recoveries i (wdb (foldl (\<lambda>w g. sweep_gap enq c (quiet now) g w) w2 gs)) = recoveries i (wdb ?b)"
    using b same_recoveries [OF b] sweep_gaps_same(2) [OF alone_quiet [of now], where i = i and enq = enq and c = c
        and w = w2 and gs = gs] by (simp_all add: same_def)
  ultimately show ?thesis unfolding 2(4) by (simp only:)
qed

theorem sweep_progress_witness:
  "\<exists>j'. find_job 5 (wdb (sweep (\<lambda>t q. (Inr (), q)) demo_client demo_config (quiet 5000)
     (demo_world demo_active))) = Some j' \<and> status j' = StatusQueued"
proof -
  have ok: "db_ok demo_active"
    using sys_reachable_ok [OF demo_active_reachable] by (simp add: sys_ok_def)
  have r: "recoveries 5 demo_active = 0" by code_simp
  have "case find_job 5 demo_active of None \<Rightarrow> False
      | Some j \<Rightarrow> is_stale 4940 4100 j \<and> engine j \<in> set AllConvertQueues"
    by code_simp
  then obtain j where "find_job 5 demo_active = Some j" "is_stale 4940 4100 j" "engine j \<in> set AllConvertQueues"
    by (auto split: option.splits)
  with ok r sweep_progress [of "demo_world demo_active" 5 j 5000 demo_config "\<lambda>t q. (Inr (), q)" demo_client]
  show ?thesis by (auto simp: demo_world_def demo_config_def)
qed

subsection \<open>A webhook for a job that did not fail\<close>

text \<open>A schedule that loses the connection at one call, before its commit.\<close>

definition lost_at :: "nat \<Rightarrow> time \<Rightarrow> 'q schedule" where
  "lost_at n now = \<lparr>net_of = \<lambda>k. if k = n then LostBefore else Works, clock = \<lambda>_. now, others = \<lambda>_ x. x\<rparr>"

definition demo_stale :: StaleJob where
  "demo_stale = \<lparr>sj_ID = 5, sj_Status = StatusActive, sj_Engine = EngineImage\<rparr>"

definition demo_exhausted :: "unit world" where
  "demo_exhausted = exhaust_job (\<lambda>t q. (Inr (), q)) demo_client (lost_at 1 5000) demo_stale (demo_world demo_active)"

text \<open>The exhausted branch can announce a failure that was not recorded: when the connection is
  lost at \<open>MarkFailed\<close>, the error is dropped and the delivery task is enqueued all the same, so
  the broker holds a webhook task for a job whose row is still active. The worker's handlers
  guard the same situation.\<close>

theorem exhausted_webhook_without_failure:
  "map task_type (wsent demo_exhausted) = [TypeWebhookDeliver]
   \<and> map task_payload (wsent demo_exhausted) = [Some 5]
   \<and> map_option status (find_job 5 (wdb demo_exhausted)) = Some StatusActive"
proof -
  have "map_option (\<lambda>j. (callback_url j \<noteq> None \<and> callback_url j \<noteq> Some [], status j)) (find_job 5 demo_active)
      = Some (True, StatusActive)"
    by code_simp
  then obtain j where j: "find_job 5 demo_active = Some j" "callback_url j \<noteq> None" "callback_url j \<noteq> Some []"
    "status j = StatusActive" by auto
  then show ?thesis
    by (auto simp: demo_exhausted_def demo_stale_def exhaust_job_def db_call_def q_call_def traced_def
        EnqueueWebhookDeliver_def Let_def lost_at_def Get_def MarkFailed_def transition_def begin_func_def
        demo_world_def RecordReconcilerAction_def job_of_row_def deref_def task_defs)
qed

subsection \<open>Electing the sweeper\<close>

text \<open>
  \<open>PGAdvisoryLock\<close>: a dedicated connection from the pool. The outcome of \<open>pool.Acquire\<close> (\<open>None\<close>
  an error) and of the query (\<open>None\<close> an error, else what \<open>pg_try_advisory_lock\<close> returned) are
  inputs of a call; the pool slots handed out and not released are part of the state.
\<close>

record pg_lock =
  conn :: "nat option"
  closed :: bool
  slots :: "nat list"

definition NewPGAdvisoryLock :: "nat option \<Rightarrow> pg_lock option" where
  "NewPGAdvisoryLock acq =
     (case acq of None \<Rightarrow> None | Some k \<Rightarrow> Some \<lparr>conn = Some k, closed = False, slots = [k]\<rparr>)"

definition TryAcquire :: "nat option \<Rightarrow> bool option \<Rightarrow> pg_lock \<Rightarrow> (string + bool) \<times> pg_lock" where
  "TryAcquire acq ans l =
     (if closed l then (Inl ''advisory lock is closed'', l)
      else
        let l1 = (case conn l of
            Some k \<Rightarrow> Some l
          | None \<Rightarrow> (case acq of None \<Rightarrow> None | Some k \<Rightarrow> Some (l\<lparr>conn := Some k, slots := slots l @ [k]\<rparr>)))
        in case l1 of
             None \<Rightarrow> (Inl ''re-acquire dedicated advisory-lock connection'', l)
           | Some l2 \<Rightarrow>
               (case ans of
                  Some b \<Rightarrow> (Inr b, l2)
                | None \<Rightarrow> (Inl ''pg_try_advisory_lock'',
                    l2\<lparr>conn := None, slots := filter (\<lambda>k. Some k \<noteq> conn l2) (slots l2)\<rparr>)))"

definition Close :: "pg_lock \<Rightarrow> pg_lock" where
  "Close l = l\<lparr>closed := True, conn := None, slots := filter (\<lambda>k. Some k \<noteq> conn l) (slots l)\<rparr>"

text \<open>What the ticking goroutine and a concurrent shutdown do, in the order the mutex admits.\<close>

datatype 'q lock_event = Tick "nat option" "bool option" "'q schedule" | Shutdown

fun lock_event_step ::
  "'q broker \<Rightarrow> Client \<Rightarrow> Config \<Rightarrow> 'q lock_event \<Rightarrow> pg_lock \<times> 'q world \<Rightarrow> pg_lock \<times> 'q world" where
  "lock_event_step enq c cfg (Tick acq ans s) (l, w) =
     (let (ok, l') = TryAcquire acq ans l
      in (l', case ok of Inr True \<Rightarrow> sweep enq c cfg s w | _ \<Rightarrow> w))"
| "lock_event_step enq c cfg Shutdown (l, w) = (Close l, w)"

definition RunWithLock ::
  "'q broker \<Rightarrow> Client \<Rightarrow> Config \<Rightarrow> 'q lock_event list \<Rightarrow> pg_lock \<times> 'q world \<Rightarrow> pg_lock \<times> 'q world" where
  "RunWithLock enq c cfg es lw = foldl (\<lambda>lw e. lock_event_step enq c cfg e lw) lw es"

definition lock_ok :: "pg_lock \<Rightarrow> bool" where
  "lock_ok l \<longleftrightarrow> slots l = (case conn l of None \<Rightarrow> [] | Some k \<Rightarrow> [k]) \<and> (closed l \<longrightarrow> conn l = None)"

lemma lock_ok_new: "NewPGAdvisoryLock acq = Some l \<Longrightarrow> lock_ok l"
  by (auto simp: NewPGAdvisoryLock_def lock_ok_def split: option.splits)

lemma lock_ok_step: "lock_ok (fst lw) \<Longrightarrow> lock_ok (fst (lock_event_step enq c cfg e lw))"
  by (cases lw; cases e)
    (auto simp: lock_ok_def TryAcquire_def Close_def Let_def split: option.splits sum.splits prod.splits)

lemma lock_ok_run: "lock_ok (fst lw) \<Longrightarrow> lock_ok (fst (RunWithLock enq c cfg es lw))"
  unfolding RunWithLock_def by (induction es arbitrary: lw) (simp_all add: lock_ok_step)

lemma closed_run: "closed (fst lw) \<Longrightarrow> snd (RunWithLock enq c cfg es lw) = snd lw
    \<and> closed (fst (RunWithLock enq c cfg es lw))"
  unfolding RunWithLock_def
proof (induction es arbitrary: lw)
  case (Cons e es)
  obtain l w where lw: "lw = (l, w)" by force
  have st: "closed (fst (lock_event_step enq c cfg e lw)) \<and> snd (lock_event_step enq c cfg e lw) = w"
    using Cons.prems by (cases e) (auto simp: lw TryAcquire_def Close_def)
  then show ?case using Cons.IH [of "lock_event_step enq c cfg e lw"] by (simp add: lw)
qed simp

text \<open>Shutdown of the sweeper is final and leaks nothing: at any moment the lock holds the pool slot
  of its dedicated connection and no other; once \<open>Close\<close> ran, however ticks interleave with it
  and whatever the pool and the database answer, no later tick sweeps and no slot is held, so
  closing the pool cannot block.\<close>

theorem advisory_lock_close_terminal:
  assumes "NewPGAdvisoryLock acq = Some l"
  shows "slots (fst (RunWithLock enq c cfg es (l, w)))
      = (case conn (fst (RunWithLock enq c cfg es (l, w))) of None \<Rightarrow> [] | Some k \<Rightarrow> [k])
    \<and> slots (fst (RunWithLock enq c cfg (es @ Shutdown # fs) (l, w))) = []
    \<and> snd (RunWithLock enq c cfg (es @ Shutdown # fs) (l, w)) = snd (RunWithLock enq c cfg es (l, w))"
proof -
  let ?a = "RunWithLock enq c cfg es (l, w)"
  let ?b = "lock_event_step enq c cfg Shutdown ?a"
  have run: "RunWithLock enq c cfg (es @ Shutdown # fs) (l, w) = RunWithLock enq c cfg fs ?b"
    by (simp add: RunWithLock_def)
  have ok: "lock_ok (fst ?a)" using lock_ok_run lock_ok_new [OF assms] by (metis fst_conv)
  have cl: "closed (fst ?b)" "snd ?b = snd ?a" by (cases ?a; simp add: Close_def)+
  have "lock_ok (fst (RunWithLock enq c cfg fs ?b))" using lock_ok_run lock_ok_step ok by blast
  then show ?thesis
    using ok closed_run [OF cl(1), of enq c cfg fs] cl(2) unfolding run
    by (simp add: lock_ok_def)
qed

theorem advisory_lock_close_terminal_witness:
  "slots (fst (RunWithLock (\<lambda>t q. (Inr (), q)) demo_client demo_config
     [Tick None None (quiet 1), Shutdown, Tick (Some 8) (Some True) (quiet 2)]
     (\<lparr>conn = Some 7, closed = False, slots = [7]\<rparr>, demo_world demo_active))) = []"
  using advisory_lock_close_terminal [of "Some 7" "\<lparr>conn = Some 7, closed = False, slots = [7]\<rparr>"
      "\<lambda>t q. (Inr (), q)" demo_client demo_config "[Tick None None (quiet 1)]" "demo_world demo_active"
      "[Tick (Some 8) (Some True) (quiet 2)]"]
  by (simp add: NewPGAdvisoryLock_def)

end
