(* ===== verification/Exec.thy ===== *)
theory Exec
  imports Worker
begin

text \<open>
  What the conversion engines share: actions that may fail and change a state, errors with a sentinel in
  their chain, and the paths of \<open>path/filepath\<close>.
\<close>

subsection \<open>Actions\<close>

type_synonym ('s, 'a) action = "'s \<Rightarrow> (go_error + 'a) \<times> 's"

definition ret :: "go_error + 'a \<Rightarrow> ('s, 'a) action" where
  "ret r s = (r, s)"

definition then_run :: "('s, 'a) action \<Rightarrow> ('a \<Rightarrow> ('s, 'b) action) \<Rightarrow> ('s, 'b) action" where
  "then_run m f s = (case m s of (Inl e, s') \<Rightarrow> (Inl e, s') | (Inr x, s') \<Rightarrow> f x s')"

definition wrapping :: "string \<Rightarrow> ('s, 'a) action \<Rightarrow> ('s, 'a) action" where
  "wrapping pre m s = (case m s of (Inl e, s') \<Rightarrow> (Inl (wrapped pre e), s') | (Inr x, s') \<Rightarrow> (Inr x, s'))"

lemma then_run_Inr [simp]: "m s = (Inr x, s1) \<Longrightarrow> then_run m f s = f x s1"
  by (simp add: then_run_def)

lemma then_run_Inl [simp]: "m s = (Inl e, s1) \<Longrightarrow> then_run m f s = (Inl e, s1)"
  by (simp add: then_run_def)

lemma then_run_InrE:
  assumes "then_run m f s = (Inr y, s')"
  obtains x s1 where "m s = (Inr x, s1)" "f x s1 = (Inr y, s')"
  using assms by (auto simp: then_run_def split: prod.splits sum.splits)

lemma then_run_InlE:
  assumes "then_run m f s = (Inl e, s')"
  obtains "m s = (Inl e, s')" | x s1 where "m s = (Inr x, s1)" "f x s1 = (Inl e, s')"
  using assms by (auto simp: then_run_def split: prod.splits sum.splits)

lemma ret_apply [simp]: "ret r s = (r, s)"
  by (simp add: ret_def)

lemma wrapping_Inr [simp]: "wrapping pre m s = (Inr x, s') \<longleftrightarrow> m s = (Inr x, s')"
  by (simp add: wrapping_def split: prod.split sum.split)

text \<open>An action whose every run, failed or not, relates the state before to the state after.\<close>

definition acts :: "('s \<Rightarrow> 's \<Rightarrow> bool) \<Rightarrow> ('s, 'a) action \<Rightarrow> bool" where
  "acts R m \<longleftrightarrow> (\<forall>s. R s (snd (m s)))"

lemma actsI: "(\<And>s r s'. m s = (r, s') \<Longrightarrow> R s s') \<Longrightarrow> acts R m"
  by (metis acts_def prod.collapse)

lemma actsD: "acts R m \<Longrightarrow> m s = (r, s') \<Longrightarrow> R s s'"
  by (metis acts_def snd_conv)

locale effect =
  fixes R :: "'s \<Rightarrow> 's \<Rightarrow> bool"
  assumes refl: "R s s"
    and trans: "R s t \<Longrightarrow> R t u \<Longrightarrow> R s u"
begin

lemma acts_ret: "acts R (ret r)"
  by (simp add: acts_def refl)

lemma acts_then_run: "acts R m \<Longrightarrow> (\<And>x. acts R (f x)) \<Longrightarrow> acts R (then_run m f)"
  by (rule actsI) (auto simp: then_run_def dest: actsD intro: trans split: prod.splits sum.splits)

lemma acts_wrapping: "acts R m \<Longrightarrow> acts R (wrapping pre m)"
  by (rule actsI) (auto simp: wrapping_def dest: actsD split: prod.splits sum.splits)

end

subsection \<open>Errors\<close>

text \<open>A new error with a sentinel (or none) in its chain.\<close>

definition fault :: "sentinel list \<Rightarrow> string \<Rightarrow> go_error" where
  "fault cs msg = \<lparr>Error = msg, chain_of = cs\<rparr>"

text \<open>\<open>fmt.Errorf("%w: %w", sentinel, err)\<close>: both are in the chain.\<close>

definition staged :: "sentinel \<Rightarrow> string \<Rightarrow> go_error \<Rightarrow> go_error" where
  "staged s msg e = \<lparr>Error = msg @ '': '' @ Error e, chain_of = s # chain_of e\<rparr>"

subsection \<open>Paths\<close>

fun split_slash :: "string \<Rightarrow> string \<Rightarrow> string list" where
  "split_slash cur [] = [cur]"
| "split_slash cur (c # cs) = (if c = CHR ''/'' then cur # split_slash [] cs else split_slash (cur @ [c]) cs)"

text \<open>\<open>filepath.Clean\<close>: the kept elements are a stack, last one first.\<close>

definition clean_step :: "bool \<Rightarrow> string \<Rightarrow> string list \<Rightarrow> string list" where
  "clean_step rooted c st =
     (if c = [] \<or> c = ''.'' then st
      else if c = ''..'' then
        (case st of [] \<Rightarrow> if rooted then [] else [''..''] | t # rest \<Rightarrow> if t = ''..'' then ''..'' # st else rest)
      else c # st)"

fun join_slash :: "string list \<Rightarrow> string" where
  "join_slash [] = []"
| "join_slash [x] = x"
| "join_slash (x # y # zs) = x @ ''/'' @ join_slash (y # zs)"

definition filepath_Clean :: "string \<Rightarrow> string" where
  "filepath_Clean p =
     (let rooted = has_prefix p ''/''; kept = rev (fold (clean_step rooted) (split_slash [] p) [])
      in if rooted then ''/'' @ join_slash kept else if kept = [] then ''.'' else join_slash kept)"

definition filepath_Dir :: "string \<Rightarrow> string" where
  "filepath_Dir p = filepath_Clean (rev (dropWhile (\<lambda>c. c \<noteq> CHR ''/'') (rev p)))"

text \<open>\<open>filepath.Join\<close> of two elements\<close>

definition filepath_Join :: "string \<Rightarrow> string \<Rightarrow> string" where
  "filepath_Join a b =
     (if a = [] then if b = [] then [] else filepath_Clean b else filepath_Clean (a @ ''/'' @ b))"

end
