(* ===== verification/Video.thy ===== *)
theory Video
  imports Exec Sniff Auth
begin

text \<open>
  The video engine: \<open>internal/convert/av.go\<close> with the probes and guards of \<open>audioduration.go\<close>,
  \<open>avduration.go\<close>, \<open>avdiskguard.go\<close> and \<open>cgroup.go\<close>. \<open>ffprobe\<close> and \<open>ffmpeg\<close> are external programs: a run of
  the engine is the list of commands it starts, and what each of them returns is the parameter
  \<open>run_result\<close> of the environment, with the file system and the number formatting of Go.
\<close>

subsection \<open>Runs\<close>

text \<open>The value of \<open>strconv.ParseFloat\<close>.\<close>

datatype number = NaN | Inf | Fin rat

record avVideoStream =
  Index :: int
  CodecName :: string
  Width :: int
  Height :: int
  AttachedPic :: bool

record av_env =
  run_result :: "string \<Rightarrow> string list \<Rightarrow> go_error + string"
  decode_streams :: "string \<Rightarrow> go_error + avVideoStream list"
  ParseFloat :: "string \<Rightarrow> go_error + number"
  round64 :: "rat \<Rightarrow> rat"
  to_uint64 :: "rat \<Rightarrow> u64"
  FormatFloat :: "rat \<Rightarrow> string"
  format_fixed :: "nat \<Rightarrow> rat \<Rightarrow> string"
  format_number :: "number \<Rightarrow> string"
  format_duration :: "int \<Rightarrow> string"
  quoted :: "string \<Rightarrow> string"
  opts_message :: "opts_error \<Rightarrow> string"
  read_message :: "read_error \<Rightarrow> string"
  os_Stat :: "string \<Rightarrow> go_error + nat"
  os_Open :: "string \<Rightarrow> go_error + reader"
  Statfs :: "string \<Rightarrow> go_error + u64 \<times> u64"
  cpu_max :: "string option"
  NumCPU :: int
  disk_factor :: rat

type_synonym command = "string \<times> string list"
type_synonym 'a run = "(command list, 'a) action"

text \<open>\<open>runCommand\<close>: the command is started and its result comes back.\<close>

definition runCommand :: "av_env \<Rightarrow> string \<Rightarrow> string list \<Rightarrow> string run" where
  "runCommand env nm args cmds = (run_result env nm args, cmds @ [(nm, args)])"

subsection \<open>Durations\<close>

definition maxSaneDurationSeconds :: rat where
  "maxSaneDurationSeconds = 2 ^ 31"

definition parseProbedDuration :: "av_env \<Rightarrow> string \<Rightarrow> go_error + int" where
  "parseProbedDuration env raw =
     (case ParseFloat env (TrimSpace raw) of
        Inl e \<Rightarrow> Inl (wrapped (''ffprobe: unparseable duration '' @ quoted env raw) e)
      | Inr x \<Rightarrow>
          (case x of
             Fin secs \<Rightarrow>
               if secs < 0 \<or> maxSaneDurationSeconds < secs
               then Inl (fault [] (''ffprobe: implausible duration '' @ format_number env x))
               else Inr (trunc (round64 env (secs * of_int Second)))
           | _ \<Rightarrow> Inl (fault [] (''ffprobe: implausible duration '' @ format_number env x))))"

definition ffprobeDurationArgs :: "string \<Rightarrow> string list" where
  "ffprobeDurationArgs path =
     [''-v'', ''error'', ''-show_entries'', ''format=duration'', ''-of'', ''default=noprint_wrappers=1:nokey=1'',
      ''-protocol_whitelist'', ''file,crypto'', ''file:'' @ path]"

definition ProbeDuration :: "av_env \<Rightarrow> string \<Rightarrow> int run" where
  "ProbeDuration env path =
     then_run (wrapping ''ffprobe'' (runCommand env ''ffprobe'' (ffprobeDurationArgs path)))
       (\<lambda>out. ret (parseProbedDuration env out))"

definition enforceMaxDurationOf :: "av_env \<Rightarrow> int \<Rightarrow> int \<Rightarrow> go_error + unit" where
  "enforceMaxDurationOf env d mx =
     (if mx < d
      then Inl (fault [ErrAudioDurationExceeded] (''declared audio duration exceeds configured maximum: declared ''
        @ format_duration env d @ '' exceeds ceiling '' @ format_duration env mx))
      else Inr ())"

definition EnforceMaxDuration :: "av_env \<Rightarrow> string \<Rightarrow> int \<Rightarrow> unit run" where
  "EnforceMaxDuration env path mx = then_run (ProbeDuration env path) (\<lambda>d. ret (enforceMaxDurationOf env d mx))"

subsection \<open>Video streams\<close>

definition ffprobeStreamArgs :: "string \<Rightarrow> string list" where
  "ffprobeStreamArgs path =
     [''-v'', ''error'', ''-select_streams'', ''v'', ''-show_entries'',
      ''stream=index,codec_name,width,height:stream_disposition=attached_pic'', ''-of'', ''json'',
      ''-protocol_whitelist'', ''file,crypto'', ''file:'' @ path]"

definition no_video :: go_error where
  "no_video = fault [ErrAVNoVideoStream] ''ffprobe: no video stream found''"

definition checked_streams :: "av_env \<Rightarrow> string \<Rightarrow> go_error + avVideoStream list" where
  "checked_streams env out =
     (case decode_streams env out of
        Inl e \<Rightarrow> Inl (wrapped ''ffprobe: unparseable stream probe output'' e)
      | Inr ss \<Rightarrow>
          if ss = [] then Inl no_video
          else (case find (\<lambda>s. Width s \<le> 0 \<or> Height s \<le> 0) ss of
                  Some s \<Rightarrow> Inl (fault [] (''ffprobe: implausible resolution '' @ itoa (Width s) @ ''x'' @ itoa (Height s)))
                | None \<Rightarrow> Inr ss))"

definition probeVideoStreams :: "av_env \<Rightarrow> string \<Rightarrow> avVideoStream list run" where
  "probeVideoStreams env path =
     then_run (wrapping ''ffprobe'' (runCommand env ''ffprobe'' (ffprobeStreamArgs path)))
       (\<lambda>out. ret (checked_streams env out))"

definition area :: "avVideoStream \<Rightarrow> int" where
  "area s = wrap64 (Width s * Height s)"

text \<open>One loop of \<open>avPrimaryVideoStream\<close>: the first of the streams with the largest area.\<close>

definition larger_stream :: "avVideoStream \<Rightarrow> avVideoStream option \<Rightarrow> avVideoStream option" where
  "larger_stream s best = (case best of None \<Rightarrow> Some s | Some b \<Rightarrow> if area b < area s then Some s else best)"

definition avPrimaryVideoStream :: "avVideoStream list \<Rightarrow> avVideoStream option" where
  "avPrimaryVideoStream ss =
     (case fold larger_stream (filter (\<lambda>s. \<not> AttachedPic s) ss) None of
        Some b \<Rightarrow> Some b
      | None \<Rightarrow> fold larger_stream ss None)"

definition avMaxVideoHeight :: "avVideoStream list \<Rightarrow> int" where
  "avMaxVideoHeight ss = fold (\<lambda>s mx. if mx < Height s then Height s else mx) ss 0"

definition enforceMaxResolutionOf :: "avVideoStream list \<Rightarrow> int \<Rightarrow> go_error + unit" where
  "enforceMaxResolutionOf ss maxHeight =
     (if maxHeight < avMaxVideoHeight ss
      then Inl (fault [ErrAVResolutionExceeded] (''declared video resolution exceeds configured maximum: declared height ''
        @ itoa (avMaxVideoHeight ss) @ '' exceeds ceiling '' @ itoa maxHeight))
      else Inr ())"

definition EnforceMaxResolution :: "av_env \<Rightarrow> string \<Rightarrow> int \<Rightarrow> unit run" where
  "EnforceMaxResolution env path maxHeight =
     then_run (probeVideoStreams env path) (\<lambda>ss. ret (enforceMaxResolutionOf ss maxHeight))"

definition probeVideoStream :: "av_env \<Rightarrow> string \<Rightarrow> (string \<times> int \<times> int) run" where
  "probeVideoStream env path =
     then_run (probeVideoStreams env path) (\<lambda>ss. ret
       (case avPrimaryVideoStream ss of None \<Rightarrow> Inl no_video | Some s \<Rightarrow> Inr (CodecName s, Width s, Height s)))"

subsection \<open>Disk space and threads\<close>

definition EnforceMinFreeDisk :: "av_env \<Rightarrow> string \<Rightarrow> nat \<Rightarrow> rat \<Rightarrow> go_error + unit" where
  "EnforceMinFreeDisk env dir inputSize factor =
     (case Statfs env dir of
        Inl e \<Rightarrow> Inl (wrapped (''av: statfs '' @ quoted env dir) e)
      | Inr (bavail, bsize) \<Rightarrow>
          (let free = bavail * bsize; needed = to_uint64 env (round64 env (round64 env (of_nat inputSize) * factor))
           in if free < needed
              then Inl (fault [ErrAVInsufficientDiskSpace] (''av: insufficient free disk space: free='' @ itoa (uint free) @ '' needed='' @ itoa (uint needed)
                @ '' input='' @ itoa (int inputSize) @ '' factor='' @ format_fixed env 2 factor))
              else Inr ()))"

definition effectiveAVDiskSafetyFactor :: "av_env \<Rightarrow> rat" where
  "effectiveAVDiskSafetyFactor env = (if 0 < disk_factor env then disk_factor env else 3)"

text \<open>\<open>strconv.ParseInt (s, 10, 64)\<close>\<close>

definition ParseInt64 :: "string \<Rightarrow> int option" where
  "ParseInt64 s =
     (let (neg, ds) = (case s of c # cs \<Rightarrow> if c = CHR ''-'' then (True, cs) else if c = CHR ''+'' then (False, cs) else (False, s)
                       | [] \<Rightarrow> (False, []))
      in if ds = [] \<or> list_ex (\<lambda>c. c \<notin> set ''0123456789'') ds then None
         else let n = foldl (\<lambda>v c. 10 * v + (of_char c - 48)) (0 :: int) ds; v = (if neg then - n else n)
              in if - (2 ^ 63) \<le> v \<and> v < 2 ^ 63 then Some v else None)"

text \<open>\<open>strings.Fields\<close> is the model's of \<open>Auth\<close>.\<close>

definition parseCPUMax :: "string \<Rightarrow> int option" where
  "parseCPUMax s =
     (case Fields s of
        [q, p] \<Rightarrow>
          if q = ''max'' then None
          else (case ParseInt64 q of
                  None \<Rightarrow> None
                | Some quota \<Rightarrow>
                    if quota \<le> 0 then None
                    else (case ParseInt64 p of
                            None \<Rightarrow> None
                          | Some period \<Rightarrow> if period \<le> 0 then None else Some (max 1 (quota div period))))
      | _ \<Rightarrow> None)"

definition CgroupCPULimit :: "av_env \<Rightarrow> int option" where
  "CgroupCPULimit env = (case cpu_max env of None \<Rightarrow> None | Some s \<Rightarrow> parseCPUMax s)"

definition avThreadCount :: "av_env \<Rightarrow> int" where
  "avThreadCount env = (case CgroupCPULimit env of Some n \<Rightarrow> n | None \<Rightarrow> NumCPU env)"

subsection \<open>Command lines\<close>

definition avScaleFilter :: "int \<Rightarrow> string" where
  "avScaleFilter h = (if h = 0 then [] else ''scale=-2:'' @ itoa h)"

definition avInputArgs :: "string \<Rightarrow> string list" where
  "avInputArgs inPath = [''-y'', ''-nostdin'', ''-protocol_whitelist'', ''file,crypto'', ''-i'', ''file:'' @ inPath]"

definition scale_args :: "int \<Rightarrow> string list" where
  "scale_args h = (if avScaleFilter h \<noteq> [] then [''-vf'', avScaleFilter h] else [])"

definition x264DefaultCRF :: int where "x264DefaultCRF = 23"
definition x265DefaultCRF :: int where "x265DefaultCRF = 28"

definition transcodeToMP4Args :: "string \<Rightarrow> string \<Rightarrow> string \<Rightarrow> int \<Rightarrow> int \<Rightarrow> int \<Rightarrow> string list" where
  "transcodeToMP4Args inPath outPath codec height videoIndex threads =
     (let (videoCodec, crf) = (if codec = ''hevc'' then (''libx265'', x265DefaultCRF) else (''libx264'', x264DefaultCRF))
      in avInputArgs inPath @ [''-map'', ''0:'' @ itoa videoIndex, ''-map'', ''0:a:0?''] @ scale_args height
         @ [''-c:v'', videoCodec, ''-preset'', ''veryfast'', ''-crf'', itoa crf, ''-c:a'', ''aac'', ''-b:a'', ''128k'',
            ''-movflags'', ''+faststart'', ''-threads'', itoa threads, ''file:'' @ outPath])"

definition transcodeToWebMArgs :: "string \<Rightarrow> string \<Rightarrow> int \<Rightarrow> int \<Rightarrow> int \<Rightarrow> string list" where
  "transcodeToWebMArgs inPath outPath height videoIndex threads =
     avInputArgs inPath @ [''-map'', ''0:'' @ itoa videoIndex, ''-map'', ''0:a:0?''] @ scale_args height
     @ [''-c:v'', ''libvpx-vp9'', ''-b:v'', ''1M'', ''-c:a'', ''libopus'', ''-threads'', itoa threads, ''file:'' @ outPath]"

definition streamCopyArgs :: "string \<Rightarrow> string \<Rightarrow> string \<Rightarrow> int \<Rightarrow> string list" where
  "streamCopyArgs inPath outPath target videoIndex =
     avInputArgs inPath @ [''-map'', ''0:'' @ itoa videoIndex, ''-map'', ''0:a:0'', ''-c'', ''copy'']
     @ (if target = ''mp4'' then [''-movflags'', ''+faststart''] else []) @ [''file:'' @ outPath]"

text \<open>A nil argument list is \<open>None\<close>.\<close>

definition extractAudioArgs :: "string \<Rightarrow> string \<Rightarrow> string \<Rightarrow> bool \<Rightarrow> string list option" where
  "extractAudioArgs inPath outPath target streamCopy =
     map_option (\<lambda>codec. avInputArgs inPath @ [''-vn''] @ codec @ [''file:'' @ outPath])
       (if streamCopy then Some [''-c:a'', ''copy'']
        else if target = ''mp3'' then Some [''-c:a'', ''libmp3lame'', ''-q:a'', ''2'']
        else if target = ''wav'' then Some [''-c:a'', ''pcm_s16le'']
        else if target = ''m4a'' then Some [''-c:a'', ''aac'', ''-b:a'', ''128k'']
        else None)"

definition thumbnailArgs :: "av_env \<Rightarrow> string \<Rightarrow> string \<Rightarrow> string \<Rightarrow> rat \<Rightarrow> int \<Rightarrow> string list option" where
  "thumbnailArgs env inPath outPath target timecode videoIndex =
     map_option (\<lambda>codec. [''-y'', ''-nostdin'', ''-protocol_whitelist'', ''file,crypto'', ''-ss'', FormatFloat env timecode,
         ''-i'', ''file:'' @ inPath, ''-map'', ''0:'' @ itoa videoIndex, ''-frames:v'', ''1''] @ codec @ [''file:'' @ outPath])
       (if target = ''jpg'' then Some [''-c:v'', ''mjpeg'', ''-q:v'', ''2'']
        else if target = ''png'' then Some [''-c:v'', ''png'']
        else if target = ''webp'' then Some [''-c:v'', ''libwebp'']
        else None)"

definition ffprobeAudioCodecArgs :: "string \<Rightarrow> string list" where
  "ffprobeAudioCodecArgs path =
     [''-v'', ''error'', ''-select_streams'', ''a:0'', ''-show_entries'', ''stream=codec_name'', ''-of'', ''csv=p=0'',
      ''-protocol_whitelist'', ''file,crypto'', ''file:'' @ path]"

subsection \<open>Guards on the re-encode and the copy\<close>

definition avMaxReencodeSourceHeight :: int where "avMaxReencodeSourceHeight = 1080"
definition avMaxReencodeSourceWidth :: int where "avMaxReencodeSourceWidth = 1920"

definition enforceReencodeSourceBound :: "int \<Rightarrow> int \<Rightarrow> go_error + unit" where
  "enforceReencodeSourceBound width height =
     (if avMaxReencodeSourceHeight < height \<or> avMaxReencodeSourceWidth < width
      then Inl (fault [ErrAVReencodeResolutionExceeded] (''av: re-encode source resolution exceeds bound: declared resolution ''
        @ itoa width @ ''x'' @ itoa height @ '' exceeds '' @ itoa avMaxReencodeSourceWidth @ ''x''
        @ itoa avMaxReencodeSourceHeight @ '' bound''))
      else Inr ())"

definition avStreamCopyLegal :: "string \<Rightarrow> string \<Rightarrow> string \<Rightarrow> bool" where
  "avStreamCopyLegal targetContainer srcVideoCodec srcAudioCodec \<longleftrightarrow>
     (if targetContainer = ''mp4'' then srcVideoCodec = ''h264'' \<and> srcAudioCodec = ''aac''
      else if targetContainer = ''webm'' then srcVideoCodec = ''vp9'' \<and> srcAudioCodec = ''opus''
      else False)"

definition probeAudioCodec :: "av_env \<Rightarrow> string \<Rightarrow> string run" where
  "probeAudioCodec env path =
     then_run (wrapping ''ffprobe'' (runCommand env ''ffprobe'' (ffprobeAudioCodecArgs path)))
       (\<lambda>out. ret (Inr (TrimSpace out)))"

definition missing_or_empty :: string where
  "missing_or_empty = ''av: output missing or empty''"

definition validateAVOutput :: "av_env \<Rightarrow> string \<Rightarrow> string \<Rightarrow> go_error + unit" where
  "validateAVOutput env path target =
     (case os_Stat env path of
        Inl e \<Rightarrow> Inl (fault [ErrAVOutputMissingOrEmpty] (missing_or_empty @ '': '' @ Error e))
      | Inr n \<Rightarrow>
          if n = 0 then Inl (fault [ErrAVOutputMissingOrEmpty] missing_or_empty)
          else if target \<in> set [''jpg'', ''png'', ''webp''] then
            (case os_Open env path of
               Inl e \<Rightarrow> Inl (fault [ErrAVOutputMissingOrEmpty] (missing_or_empty @ '': '' @ Error e))
             | Inr f \<Rightarrow>
                 (case Sniff f of
                    Inl e \<Rightarrow> Inl (fault [] (''av: thumbnail not a valid '' @ target @ '': '' @ read_message env e))
                  | Inr (detected, _) \<Rightarrow>
                      if detected \<noteq> target
                      then Inl (fault [] (''av: thumbnail not a valid '' @ target @ '' (detected '' @ quoted env detected @ '')''))
                      else Inr ()))
          else Inr ())"

subsection \<open>The source probe\<close>

record avSourceProbe =
  duration :: int
  videoStreams :: "avVideoStream list"
  primary :: avVideoStream
  audioCodec :: string

definition avProbeSource :: "av_env \<Rightarrow> string \<Rightarrow> avSourceProbe run" where
  "avProbeSource env inPath =
     then_run (ProbeDuration env inPath) (\<lambda>dur.
     then_run (probeVideoStreams env inPath) (\<lambda>streams.
       (case avPrimaryVideoStream streams of
          None \<Rightarrow> ret (Inl no_video)
        | Some prim \<Rightarrow>
            then_run (probeAudioCodec env inPath) (\<lambda>codec.
              ret (Inr \<lparr>duration = dur, videoStreams = streams, primary = prim, audioCodec = codec\<rparr>)))))"

definition avStreamCopyEligible :: "string \<Rightarrow> AVOpts \<Rightarrow> avSourceProbe \<Rightarrow> bool" where
  "avStreamCopyEligible target opt src \<longleftrightarrow>
     (if \<not> avStreamCopyLegal target (CodecName (primary src)) (audioCodec src) then False
      else if ResolutionHeight opt \<noteq> 0 then False
      else if Codec opt \<noteq> [] \<and> Codec opt \<noteq> CodecName (primary src) then False
      else True)"

subsection \<open>The three pipelines\<close>

definition ffmpeg_stage :: "av_env \<Rightarrow> sentinel \<Rightarrow> string \<Rightarrow> string list \<Rightarrow> string \<Rightarrow> string \<Rightarrow> unit run" where
  "ffmpeg_stage env s msg args outPath target cmds =
     (case runCommand env ''ffmpeg'' args cmds of
        (Inl e, cmds') \<Rightarrow> (Inl (staged s msg e), cmds')
      | (Inr _, cmds') \<Rightarrow> (validateAVOutput env outPath target, cmds'))"

definition convertTranscode :: "av_env \<Rightarrow> string \<Rightarrow> string \<Rightarrow> string \<Rightarrow> AVOpts \<Rightarrow> avSourceProbe \<Rightarrow> unit run" where
  "convertTranscode env inPath outPath target opt src =
     (let stage = (\<lambda>args. ffmpeg_stage env ErrAVTranscodeFailed ''av: transcode failed'' args outPath target)
      in if avStreamCopyEligible target opt src
         then stage (streamCopyArgs inPath outPath target (Index (primary src)))
         else (case enforceReencodeSourceBound (Width (primary src)) (Height (primary src)) of
                 Inl e \<Rightarrow> ret (Inl (wrapped ''av'' e))
               | Inr _ \<Rightarrow>
                   if target = ''mp4'' then stage (transcodeToMP4Args inPath outPath (Codec opt) (ResolutionHeight opt)
                     (Index (primary src)) (avThreadCount env))
                   else if target = ''webm'' then stage (transcodeToWebMArgs inPath outPath (ResolutionHeight opt)
                     (Index (primary src)) (avThreadCount env))
                   else ret (Inl (fault [] (''av: unsupported transcode target '' @ quoted env target)))))"

definition convertAudioExtract :: "av_env \<Rightarrow> string \<Rightarrow> string \<Rightarrow> string \<Rightarrow> avSourceProbe \<Rightarrow> unit run" where
  "convertAudioExtract env inPath outPath target src =
     (case extractAudioArgs inPath outPath target (target = ''m4a'' \<and> audioCodec src = ''aac'') of
        None \<Rightarrow> ret (Inl (fault [] (''av: unsupported audio-extract target '' @ quoted env target)))
      | Some args \<Rightarrow> ffmpeg_stage env ErrAVAudioExtractFailed ''av: audio-extract failed'' args outPath target)"

text \<open>\<open>time.Duration.Seconds\<close>\<close>

definition Seconds :: "av_env \<Rightarrow> int \<Rightarrow> rat" where
  "Seconds env d = round64 env (of_int (d div Second) + round64 env (of_int (d mod Second) / of_int Second))"

definition avDefaultThumbnailTimecode :: rat where "avDefaultThumbnailTimecode = 1"

definition convertThumbnail :: "av_env \<Rightarrow> string \<Rightarrow> string \<Rightarrow> string \<Rightarrow> AVOpts \<Rightarrow> avSourceProbe \<Rightarrow> unit run" where
  "convertThumbnail env inPath outPath target opt src =
     (let seconds = Seconds env (duration src);
          go = (\<lambda>timecode. case thumbnailArgs env inPath outPath target timecode (Index (primary src)) of
                  None \<Rightarrow> ret (Inl (fault [] (''av: unsupported thumbnail target '' @ quoted env target)))
                | Some args \<Rightarrow> ffmpeg_stage env ErrAVThumbnailFailed ''av: thumbnail failed'' args outPath target)
      in case Timecode opt of
           Some timecode \<Rightarrow>
             if seconds \<le> timecode
             then ret (Inl (fault [ErrAVTimecodeOutOfRange] (''av: timecode exceeds source duration: timecode ''
               @ format_fixed env 3 timecode @ ''s exceeds source duration '' @ format_fixed env 3 seconds @ ''s'')))
             else go timecode
         | None \<Rightarrow> go (min avDefaultThumbnailTimecode (round64 env (seconds / 2))))"

subsection \<open>Convert\<close>

record av_config =
  MaxSourceDuration :: int
  MaxSourceResolutionHeight :: int

definition avMaxSourceDuration :: int where "avMaxSourceDuration = 4 * 60 * Minute"
definition avMaxSourceResolutionHeight :: int where "avMaxSourceResolutionHeight = 4320"

definition max_duration :: "av_config \<Rightarrow> int" where
  "max_duration c = (if MaxSourceDuration c = 0 then avMaxSourceDuration else MaxSourceDuration c)"

definition max_height :: "av_config \<Rightarrow> int" where
  "max_height c = (if MaxSourceResolutionHeight c = 0 then avMaxSourceResolutionHeight else MaxSourceResolutionHeight c)"

definition disk_guard :: "av_env \<Rightarrow> string \<Rightarrow> go_error + unit" where
  "disk_guard env inPath =
     (case os_Stat env inPath of
        Inl e \<Rightarrow> Inl e
      | Inr n \<Rightarrow> EnforceMinFreeDisk env (filepath_Dir inPath) n (effectiveAVDiskSafetyFactor env))"

text \<open>The guard stage: probe, duration, resolution, disk.\<close>

definition guard_stage :: "av_env \<Rightarrow> av_config \<Rightarrow> string \<Rightarrow> avSourceProbe run" where
  "guard_stage env c inPath =
     then_run (avProbeSource env inPath) (\<lambda>src.
     then_run (ret (enforceMaxDurationOf env (duration src) (max_duration c))) (\<lambda>_.
     then_run (ret (enforceMaxResolutionOf (videoStreams src) (max_height c))) (\<lambda>_.
     then_run (ret (disk_guard env inPath)) (\<lambda>_. ret (Inr src)))))"

text \<open>The dispatch on the target format.\<close>

definition pipeline :: "av_env \<Rightarrow> string \<Rightarrow> string \<Rightarrow> string \<Rightarrow> AVOpts \<Rightarrow> avSourceProbe \<Rightarrow> unit run" where
  "pipeline env inPath outPath target opt src =
     (if target \<in> set [''mp4'', ''webm''] then convertTranscode env inPath outPath target opt src
      else if target \<in> set [''mp3'', ''wav'', ''m4a''] then convertAudioExtract env inPath outPath target src
      else convertThumbnail env inPath outPath target opt src)"

definition target_of :: "string \<Rightarrow> string" where
  "target_of outPath = NormalizeFormat (path_Ext outPath)"

definition av_targets :: "string list" where
  "av_targets = [''mp4'', ''webm'', ''mp3'', ''wav'', ''m4a'', ''jpg'', ''png'', ''webp'']"

definition Convert :: "av_env \<Rightarrow> av_config \<Rightarrow> string \<Rightarrow> string \<Rightarrow> opts \<Rightarrow> unit run" where
  "Convert env c inPath outPath raw =
     (case AVOptsFromMap raw of
        Inl e \<Rightarrow> ret (Inl (fault [] (''av: '' @ opts_message env e)))
      | Inr opt \<Rightarrow>
          (let target = target_of outPath
           in if target \<notin> set av_targets
              then ret (Inl (fault [] (''av: unsupported target format '' @ quoted env target)))
              else then_run (wrapping ''av'' (guard_stage env c inPath)) (\<lambda>src.
                pipeline env inPath outPath target opt src)))"

subsection \<open>Runs: what was started\<close>

definition probe_commands :: "string \<Rightarrow> command list" where
  "probe_commands path =
     [(''ffprobe'', ffprobeDurationArgs path), (''ffprobe'', ffprobeStreamArgs path),
      (''ffprobe'', ffprobeAudioCodecArgs path)]"

lemma ProbeDuration_run:
  "ProbeDuration env p cmds =
     ((case run_result env ''ffprobe'' (ffprobeDurationArgs p) of
         Inl e \<Rightarrow> Inl (wrapped ''ffprobe'' e) | Inr out \<Rightarrow> parseProbedDuration env out),
      cmds @ [(''ffprobe'', ffprobeDurationArgs p)])"
  by (simp add: ProbeDuration_def then_run_def wrapping_def runCommand_def split: sum.splits)

lemma probeVideoStreams_run:
  "probeVideoStreams env p cmds =
     ((case run_result env ''ffprobe'' (ffprobeStreamArgs p) of
         Inl e \<Rightarrow> Inl (wrapped ''ffprobe'' e) | Inr out \<Rightarrow> checked_streams env out),
      cmds @ [(''ffprobe'', ffprobeStreamArgs p)])"
  by (simp add: probeVideoStreams_def then_run_def wrapping_def runCommand_def split: sum.splits)

lemma probeAudioCodec_run:
  "probeAudioCodec env p cmds =
     ((case run_result env ''ffprobe'' (ffprobeAudioCodecArgs p) of
         Inl e \<Rightarrow> Inl (wrapped ''ffprobe'' e) | Inr out \<Rightarrow> Inr (TrimSpace out)),
      cmds @ [(''ffprobe'', ffprobeAudioCodecArgs p)])"
  by (simp add: probeAudioCodec_def then_run_def wrapping_def runCommand_def split: sum.splits)

lemmas probe_runs = ProbeDuration_run probeVideoStreams_run probeAudioCodec_run

lemma avProbeSource_trace:
  assumes "avProbeSource env p cmds = (r, cmds')"
  shows "\<exists>ps. cmds' = cmds @ ps \<and> prefix ps (probe_commands p) \<and> ((\<exists>src. r = Inr src) \<longrightarrow> ps = probe_commands p)"
  using assms
  by (auto simp: avProbeSource_def then_run_def probe_runs probe_commands_def split: sum.splits option.splits prod.splits)

lemma guard_stage_passed:
  assumes "guard_stage env c p cmds = (Inr src, cmds')"
  shows "avProbeSource env p cmds = (Inr src, cmds')" "duration src \<le> max_duration c"
    "avMaxVideoHeight (videoStreams src) \<le> max_height c" "disk_guard env p = Inr ()"
  using assms
  by (auto simp: guard_stage_def enforceMaxDurationOf_def enforceMaxResolutionOf_def elim!: then_run_InrE split: if_splits)

lemma guard_stage_trace:
  assumes "guard_stage env c p cmds = (r, cmds')"
  shows "\<exists>r0. avProbeSource env p cmds = (r0, cmds')"
  using assms by (auto simp: guard_stage_def then_run_def split: sum.splits prod.splits)

lemma avMaxVideoHeight_bound: "s \<in> set ss \<Longrightarrow> Height s \<le> avMaxVideoHeight ss"
proof -
  have mono: "mx \<le> fold (\<lambda>s mx. if mx < Height s then Height s else mx) ss mx" for mx :: int and ss
    by (induction ss arbitrary: mx) (auto intro: order_trans [OF less_imp_le])
  have "s \<in> set ss \<Longrightarrow> Height s \<le> fold (\<lambda>s mx. if mx < Height s then Height s else mx) ss mx" for mx
  proof (induction ss arbitrary: mx)
    case (Cons t ss)
    then show ?case using mono [of "if mx < Height s then Height s else mx" ss] by (auto split: if_splits)
  qed simp
  then show "s \<in> set ss \<Longrightarrow> Height s \<le> avMaxVideoHeight ss" by (simp add: avMaxVideoHeight_def)
qed

text \<open>The primary stream: embedded cover art never wins over a real video stream, and no eligible stream is larger.\<close>

lemma larger_stream_spec:
  "fold larger_stream ss best = Some b \<Longrightarrow> (Some b = best \<or> b \<in> set ss) \<and> (\<forall>s \<in> set ss. area s \<le> area b)
     \<and> (\<forall>a. best = Some a \<longrightarrow> area a \<le> area b)"
proof (induction ss arbitrary: best)
  case (Cons s ss)
  have "(Some b = larger_stream s best \<or> b \<in> set ss) \<and> (\<forall>s \<in> set ss. area s \<le> area b)
     \<and> (\<forall>a. larger_stream s best = Some a \<longrightarrow> area a \<le> area b)" using Cons by simp
  then show ?case by (auto simp: larger_stream_def split: option.splits if_splits)
qed simp

lemma larger_stream_None: "fold larger_stream ss best = None \<longleftrightarrow> ss = [] \<and> best = None"
  by (induction ss arbitrary: best) (auto simp: larger_stream_def split: option.splits)

lemma primary_stream:
  assumes "avPrimaryVideoStream ss = Some b"
  shows "b \<in> set ss \<and> (\<forall>s \<in> set ss. \<not> AttachedPic s \<longrightarrow> \<not> AttachedPic b \<and> area s \<le> area b)"
proof (cases "fold larger_stream (filter (\<lambda>s. \<not> AttachedPic s) ss) None")
  case None
  then have "\<forall>s \<in> set ss. AttachedPic s" by (auto simp: larger_stream_None filter_empty_conv)
  moreover have "fold larger_stream ss None = Some b" using assms None by (simp add: avPrimaryVideoStream_def)
  ultimately show ?thesis using larger_stream_spec [of ss None b] by auto
next
  case (Some a)
  then show ?thesis using assms larger_stream_spec [OF Some] by (auto simp: avPrimaryVideoStream_def)
qed

lemma primary_stream_exists: "ss \<noteq> [] \<Longrightarrow> avPrimaryVideoStream ss \<noteq> None"
  using larger_stream_None [of ss None] by (auto simp: avPrimaryVideoStream_def split: option.splits)

lemma avProbeSource_primary:
  assumes "avProbeSource env p cmds = (Inr src, cmds')"
  shows "avPrimaryVideoStream (videoStreams src) = Some (primary src)"
  using assms by (auto simp: avProbeSource_def then_run_def split: sum.splits prod.splits option.splits)

text \<open>Durations stay in range: the float rounding is monotone and exact on the two bounds.\<close>

lemma probed_duration_bounds:
  assumes "parseProbedDuration env raw = Inr d" "mono (round64 env)" "round64 env 0 = 0"
    and "round64 env (2 ^ 31 * 10 ^ 9) = 2 ^ 31 * 10 ^ 9"
  shows "0 \<le> d \<and> d \<le> 2 ^ 31 * 10 ^ 9 \<and> d < 2 ^ 63"
proof -
  obtain secs where secs: "0 \<le> secs" "secs \<le> 2 ^ 31" "d = trunc (round64 env (secs * of_int Second))"
    using assms(1) by (auto simp: parseProbedDuration_def maxSaneDurationSeconds_def not_less
        split: sum.splits number.splits if_splits)
  have "secs * of_int Second \<le> 2 ^ 31 * 10 ^ 9" using secs(2) by (simp add: Second_def)
  then have hi: "round64 env (secs * of_int Second) \<le> 2 ^ 31 * 10 ^ 9" using monoD [OF assms(2)] assms(4) by metis
  have "0 \<le> secs * of_int Second" using secs(1) by (simp add: Second_def)
  then have lo: "0 \<le> round64 env (secs * of_int Second)" using monoD [OF assms(2)] assms(3) by metis
  have "d \<le> 2 ^ 31 * 10 ^ 9" using hi lo secs(3) by (simp add: trunc_def floor_le_iff)
  then show ?thesis using lo secs(3) by (simp add: trunc_def)
qed

lemma CgroupCPULimit_pos: "CgroupCPULimit env = Some n \<Longrightarrow> 1 \<le> n"
  by (auto simp: CgroupCPULimit_def parseCPUMax_def split: option.splits list.splits if_splits)

lemma avThreadCount_pos: "1 \<le> NumCPU env \<Longrightarrow> 1 \<le> avThreadCount env"
  using CgroupCPULimit_pos [of env] by (auto simp: avThreadCount_def split: option.split)

subsection \<open>Runs: the commands\<close>

fun adjacent :: "'a \<Rightarrow> 'a \<Rightarrow> 'a list \<Rightarrow> bool" where
  "adjacent x y (a # b # rest) = (a = x \<and> b = y \<or> adjacent x y (b # rest))"
| "adjacent x y _ = False"

text \<open>
  A command no file name can turn into something else: reads are confined to local files before the
  input is named, the input and the output are named as files, and \<open>ffmpeg\<close> reads no terminal.
\<close>

definition hardened :: "string \<Rightarrow> string \<Rightarrow> command \<Rightarrow> bool" where
  "hardened inPath outPath cmd =
     (case cmd of (nm, args) \<Rightarrow>
        (nm = ''ffprobe'' \<and> adjacent ''-protocol_whitelist'' ''file,crypto'' args \<and> last args = ''file:'' @ inPath)
        \<or> (nm = ''ffmpeg'' \<and> take 4 args = [''-y'', ''-nostdin'', ''-protocol_whitelist'', ''file,crypto'']
           \<and> adjacent ''-i'' (''file:'' @ inPath) args \<and> last args = ''file:'' @ outPath))"

lemmas args_defs = transcodeToMP4Args_def transcodeToWebMArgs_def streamCopyArgs_def avInputArgs_def
  scale_args_def avScaleFilter_def Let_def

lemma probes_hardened: "x \<in> set (probe_commands p) \<Longrightarrow> fst x = ''ffprobe'' \<and> hardened p q x"
  by (auto simp: probe_commands_def hardened_def ffprobeDurationArgs_def ffprobeStreamArgs_def ffprobeAudioCodecArgs_def)

lemma transcode_hardened:
  "hardened p q (''ffmpeg'', streamCopyArgs p q t i)"
  "hardened p q (''ffmpeg'', transcodeToMP4Args p q cd h i n)"
  "hardened p q (''ffmpeg'', transcodeToWebMArgs p q h i n)"
  by (auto simp: hardened_def args_defs)

lemma extract_hardened:
  "extractAudioArgs p q t b = Some args \<Longrightarrow> hardened p q (''ffmpeg'', args)"
  "thumbnailArgs env p q t tc i = Some args \<Longrightarrow> hardened p q (''ffmpeg'', args)"
  by (auto simp: hardened_def extractAudioArgs_def thumbnailArgs_def avInputArgs_def split: if_splits)

definition stage_sentinel :: "string \<Rightarrow> sentinel \<Rightarrow> bool" where
  "stage_sentinel t s \<longleftrightarrow> (if t = ''mp4'' \<or> t = ''webm'' then s = ErrAVTranscodeFailed
     else s = ErrAVAudioExtractFailed \<or> s = ErrAVThumbnailFailed)"

definition pipeline_outcome :: "av_env \<Rightarrow> string \<Rightarrow> string \<Rightarrow> string \<Rightarrow> command list \<Rightarrow> (go_error + unit) \<times> command list \<Rightarrow> bool" where
  "pipeline_outcome env p q t cmds out \<longleftrightarrow>
     (\<exists>e. out = (Inl e, cmds)) \<or>
     (\<exists>args s msg. hardened p q (''ffmpeg'', args) \<and> stage_sentinel t s \<and> out = ffmpeg_stage env s msg args q t cmds
       \<and> snd out = cmds @ [(''ffmpeg'', args)])"

lemma outcome_error: "pipeline_outcome env p q t cmds (Inl e, cmds)"
  by (simp add: pipeline_outcome_def)

lemma snd_ffmpeg_stage: "snd (ffmpeg_stage env s msg args q t cmds) = cmds @ [(''ffmpeg'', args)]"
  by (simp add: ffmpeg_stage_def runCommand_def split: sum.splits)

lemma outcome_stage:
  "hardened p q (''ffmpeg'', args) \<Longrightarrow> stage_sentinel t s
   \<Longrightarrow> pipeline_outcome env p q t cmds (ffmpeg_stage env s msg args q t cmds)"
  unfolding pipeline_outcome_def by (metis snd_ffmpeg_stage)

lemma transcode_outcome:
  "t = ''mp4'' \<or> t = ''webm'' \<Longrightarrow> pipeline_outcome env p q t cmds (convertTranscode env p q t opt src cmds)"
  by (simp add: convertTranscode_def Let_def outcome_stage transcode_hardened stage_sentinel_def outcome_error split: sum.split)

lemma extract_outcome:
  "t \<noteq> ''mp4'' \<Longrightarrow> t \<noteq> ''webm'' \<Longrightarrow> pipeline_outcome env p q t cmds (convertAudioExtract env p q t src cmds)"
  by (simp add: convertAudioExtract_def outcome_stage extract_hardened(1) stage_sentinel_def outcome_error split: option.split)

lemma thumbnail_outcome:
  "t \<noteq> ''mp4'' \<Longrightarrow> t \<noteq> ''webm'' \<Longrightarrow> pipeline_outcome env p q t cmds (convertThumbnail env p q t opt src cmds)"
  by (simp add: convertThumbnail_def Let_def outcome_stage extract_hardened(2) stage_sentinel_def outcome_error split: option.split)

lemma pipeline_ends: "pipeline_outcome env p q t cmds (pipeline env p q t opt src cmds)"
  by (simp add: pipeline_def transcode_outcome extract_outcome thumbnail_outcome)

text \<open>A run of the engine: nothing started, a guard failed, or the guards passed and a pipeline ran.\<close>

lemma Convert_cases:
  assumes "Convert env c p q raw [] = (r, cmds)"
  obtains (idle) e where "r = Inl e" "cmds = []"
  | (guard) opt e where "AVOptsFromMap raw = Inr opt" "guard_stage env c p [] = (Inl e, cmds)" "r = Inl (wrapped ''av'' e)"
  | (ran) opt src where "AVOptsFromMap raw = Inr opt" "target_of q \<in> set av_targets"
      "guard_stage env c p [] = (Inr src, probe_commands p)"
      "avProbeSource env p [] = (Inr src, probe_commands p)"
      "pipeline env p q (target_of q) opt src (probe_commands p) = (r, cmds)"
proof (cases "AVOptsFromMap raw")
  case (Inl e)
  then show ?thesis using assms by (auto simp: Convert_def intro: idle)
next
  case opt: (Inr opt)
  show ?thesis
  proof (cases "target_of q \<in> set av_targets")
    case False
    then show ?thesis using assms opt by (auto simp: Convert_def Let_def intro: idle)
  next
    case tgt: True
    obtain g cs where g: "guard_stage env c p [] = (g, cs)" by fastforce
    have conv: "Convert env c p q raw [] = then_run (wrapping ''av'' (guard_stage env c p)) (pipeline env p q (target_of q) opt) []"
      using tgt opt by (simp add: Convert_def Let_def)
    show ?thesis
    proof (cases g)
      case (Inl e)
      then show ?thesis using assms g conv opt by (auto simp: then_run_def wrapping_def intro: guard)
    next
      case (Inr src)
      have probe: "avProbeSource env p [] = (Inr src, cs)" using guard_stage_passed(1) g Inr by simp
      then have "cs = probe_commands p" using avProbeSource_trace by fastforce
      then show ?thesis using assms g conv opt tgt Inr probe by (auto simp: then_run_def wrapping_def intro: ran)
    qed
  qed
qed

lemma guard_commands:
  assumes "guard_stage env c p [] = (r, cmds)"
  shows "set cmds \<subseteq> set (probe_commands p)"
  using guard_stage_trace [OF assms] avProbeSource_trace by (fastforce dest: set_mono_prefix)

subsection \<open>Properties\<close>

lemma disk_guard_passed:
  assumes "disk_guard env p = Inr ()"
  obtains n bavail bsize where "os_Stat env p = Inr n" "Statfs env (filepath_Dir p) = Inr (bavail, bsize)"
    "to_uint64 env (round64 env (round64 env (of_nat n) * effectiveAVDiskSafetyFactor env)) \<le> bavail * bsize"
  using assms
  by (auto simp: disk_guard_def EnforceMinFreeDisk_def Let_def not_less split: sum.splits prod.splits if_splits)

text \<open>C27: Every run of the video engine keeps to the guard-before-decode discipline, whatever the probed
  file and the tools answer: every command confines reads to local files and names its input and
  output as files; \<open>ffmpeg\<close> is started at most once and as the last command; and it is started only after the three
  probes of one pass accepted the source: its duration and the height of every stream, cover art included,
  are within the configured ceilings, and the file system has the room the disk guard asks for.\<close>

theorem av_convert_guarded:
  assumes "Convert env c inPath outPath raw [] = (r, cmds)"
  shows "(\<forall>x \<in> set cmds. hardened inPath outPath x)
    \<and> (\<forall>x \<in> set (butlast cmds). fst x = ''ffprobe'')
    \<and> (\<forall>args. (''ffmpeg'', args) \<in> set cmds \<longrightarrow>
        (\<exists>src n bavail bsize. cmds = probe_commands inPath @ [(''ffmpeg'', args)]
           \<and> avProbeSource env inPath [] = (Inr src, probe_commands inPath)
           \<and> duration src \<le> max_duration c \<and> (\<forall>s \<in> set (videoStreams src). Height s \<le> max_height c)
           \<and> os_Stat env inPath = Inr n \<and> Statfs env (filepath_Dir inPath) = Inr (bavail, bsize)
           \<and> to_uint64 env (round64 env (round64 env (of_nat n) * effectiveAVDiskSafetyFactor env)) \<le> bavail * bsize))"
  using assms
proof (cases rule: Convert_cases)
  case idle
  then show ?thesis by simp
next
  case guard
  have "fst x = ''ffprobe'' \<and> hardened inPath outPath x" if "x \<in> set cmds" for x
    using guard_commands [OF guard(2)] that probes_hardened by blast
  then show ?thesis by (fastforce dest: in_set_butlastD)
next
  case (ran opt src)
  note passed = guard_stage_passed [OF ran(3)]
  obtain n bavail bsize where disk: "os_Stat env inPath = Inr n" "Statfs env (filepath_Dir inPath) = Inr (bavail, bsize)"
    "to_uint64 env (round64 env (round64 env (of_nat n) * effectiveAVDiskSafetyFactor env)) \<le> bavail * bsize"
    using disk_guard_passed [OF passed(4)] .
  have heights: "\<forall>s \<in> set (videoStreams src). Height s \<le> max_height c"
    using avMaxVideoHeight_bound passed(3) order_trans by blast
  have pr: "x \<in> set (probe_commands inPath) \<Longrightarrow> fst x = ''ffprobe'' \<and> hardened inPath outPath x" for x
    using probes_hardened by blast
  have "cmds = probe_commands inPath \<or>
      (\<exists>args. hardened inPath outPath (''ffmpeg'', args) \<and> cmds = probe_commands inPath @ [(''ffmpeg'', args)])"
    using pipeline_ends [of env inPath outPath "target_of outPath" "probe_commands inPath" opt src] ran(5)
    by (auto simp: pipeline_outcome_def)
  then consider "cmds = probe_commands inPath"
    | args where "hardened inPath outPath (''ffmpeg'', args)" "cmds = probe_commands inPath @ [(''ffmpeg'', args)]" by blast
  then show ?thesis
  proof cases
    case 1
    then show ?thesis using pr by (fastforce dest: in_set_butlastD)
  next
    case (2 args)
    have no: "(''ffmpeg'', x) \<notin> set (probe_commands inPath)" for x using pr by fastforce
    show ?thesis using 2 pr no ran(4) passed(2) heights disk by auto
  qed
qed

text \<open>What a transcode delivers, read off its command line.\<close>

definition delivered_video :: "string list \<Rightarrow> avSourceProbe \<Rightarrow> string" where
  "delivered_video args src =
     (if adjacent ''-c'' ''copy'' args then CodecName (primary src)
      else if adjacent ''-c:v'' ''libx264'' args then ''h264''
      else if adjacent ''-c:v'' ''libx265'' args then ''hevc''
      else if adjacent ''-c:v'' ''libvpx-vp9'' args then ''vp9'' else [])"

definition delivered_audio :: "string list \<Rightarrow> avSourceProbe \<Rightarrow> string" where
  "delivered_audio args src =
     (if adjacent ''-c'' ''copy'' args then audioCodec src
      else if adjacent ''-c:a'' ''aac'' args then ''aac''
      else if adjacent ''-c:a'' ''libopus'' args then ''opus'' else [])"

lemma adjacent_append [simp]:
  "adjacent x y (as @ b # bs) \<longleftrightarrow> adjacent x y as \<or> (as \<noteq> [] \<and> last as = x \<and> b = y) \<or> adjacent x y (b # bs)"
  by (induction x y as rule: adjacent.induct) (cases bs; auto)+

lemma copy_delivers:
  "delivered_video (streamCopyArgs p q t i) src = CodecName (primary src)"
  "delivered_audio (streamCopyArgs p q t i) src = audioCodec src"
  "adjacent ''-map'' (''0:'' @ itoa i) (streamCopyArgs p q t i)"
  by (simp_all add: delivered_video_def delivered_audio_def args_defs)

lemma mp4_delivers:
  "delivered_video (transcodeToMP4Args p q cd h i n) src = (if cd = ''hevc'' then ''hevc'' else ''h264'')"
  "delivered_audio (transcodeToMP4Args p q cd h i n) src = ''aac''"
  "adjacent ''-map'' (''0:'' @ itoa i) (transcodeToMP4Args p q cd h i n)"
  "h \<noteq> 0 \<Longrightarrow> adjacent ''-vf'' (''scale=-2:'' @ itoa h) (transcodeToMP4Args p q cd h i n)"
  "\<not> adjacent ''-c'' ''copy'' (transcodeToMP4Args p q cd h i n)"
  by (simp_all add: delivered_video_def delivered_audio_def args_defs)

lemma webm_delivers:
  "delivered_video (transcodeToWebMArgs p q h i n) src = ''vp9''"
  "delivered_audio (transcodeToWebMArgs p q h i n) src = ''opus''"
  "adjacent ''-map'' (''0:'' @ itoa i) (transcodeToWebMArgs p q h i n)"
  "h \<noteq> 0 \<Longrightarrow> adjacent ''-vf'' (''scale=-2:'' @ itoa h) (transcodeToWebMArgs p q h i n)"
  "\<not> adjacent ''-c'' ''copy'' (transcodeToWebMArgs p q h i n)"
  by (simp_all add: delivered_video_def delivered_audio_def args_defs)

lemma transcode_commands:
  assumes "pipeline env p q t opt src cmds0 = (r, cmds0 @ [(''ffmpeg'', args)])" "t = ''mp4'' \<or> t = ''webm''"
  obtains (copy) "avStreamCopyEligible t opt src" "args = streamCopyArgs p q t (Index (primary src))"
  | (mp4) "t = ''mp4''" "Width (primary src) \<le> 1920" "Height (primary src) \<le> 1080"
      "args = transcodeToMP4Args p q (Codec opt) (ResolutionHeight opt) (Index (primary src)) (avThreadCount env)"
  | (webm) "t = ''webm''" "Width (primary src) \<le> 1920" "Height (primary src) \<le> 1080"
      "args = transcodeToWebMArgs p q (ResolutionHeight opt) (Index (primary src)) (avThreadCount env)"
  using assms
  by (auto simp: pipeline_def convertTranscode_def Let_def ffmpeg_stage_def runCommand_def
      enforceReencodeSourceBound_def avMaxReencodeSourceHeight_def avMaxReencodeSourceWidth_def
      split: if_splits sum.splits)

lemma AVOpts_codec: "AVOptsFromMap raw = Inr opt \<Longrightarrow> Codec opt \<in> {[], ''h264'', ''hevc''}"
  using ParseAVOpts_sound [of "marshal_map raw" opt]
  by (auto simp: AVOptsFromMap_def zero_AVOpts_def avCodecAllowlist_def split: if_splits)

text \<open>C28: A transcode delivers what its container promises and what the client asked for: an MP4 holds H.264 or HEVC with AAC
  and a WebM holds VP9 with Opus, whatever codec was asked for, by re-encoding or because the copied streams are already
  so; a codec requested of an MP4 is the codec delivered and a requested height is always scaled to, in both; the
  mapped stream is the primary one, never cover art beside a real video stream and never smaller than one; and a re-encode only ever decodes a source of at most 1920x1080.\<close>

theorem av_transcode_delivers:
  assumes "Convert env c inPath outPath raw [] = (r, cmds)" "(''ffmpeg'', args) \<in> set cmds"
    "target_of outPath = ''mp4'' \<or> target_of outPath = ''webm''"
  shows "\<exists>opt src. AVOptsFromMap raw = Inr opt \<and> avProbeSource env inPath [] = (Inr src, probe_commands inPath)
    \<and> adjacent ''-map'' (''0:'' @ itoa (Index (primary src))) args
    \<and> (\<forall>s \<in> set (videoStreams src). \<not> AttachedPic s \<longrightarrow> \<not> AttachedPic (primary src) \<and> area s \<le> area (primary src))
    \<and> (target_of outPath = ''mp4'' \<longrightarrow> delivered_video args src \<in> {''h264'', ''hevc''} \<and> delivered_audio args src = ''aac''
         \<and> (Codec opt \<noteq> [] \<longrightarrow> delivered_video args src = Codec opt))
    \<and> (target_of outPath = ''webm'' \<longrightarrow> delivered_video args src = ''vp9'' \<and> delivered_audio args src = ''opus'')
    \<and> (ResolutionHeight opt \<noteq> 0 \<longrightarrow> adjacent ''-vf'' (''scale=-2:'' @ itoa (ResolutionHeight opt)) args)
    \<and> (\<not> adjacent ''-c'' ''copy'' args \<longrightarrow> Width (primary src) \<le> 1920 \<and> Height (primary src) \<le> 1080)"
  using assms(1)
proof (cases rule: Convert_cases)
  case idle
  then show ?thesis using assms(2) by simp
next
  case guard
  then show ?thesis using guard_commands assms(2) probes_hardened by fastforce
next
  case (ran opt src)
  have prim: "\<forall>s \<in> set (videoStreams src). \<not> AttachedPic s \<longrightarrow> \<not> AttachedPic (primary src) \<and> area s \<le> area (primary src)"
    using primary_stream [OF avProbeSource_primary [OF ran(4)]] by blast
  have no: "(''ffmpeg'', args) \<notin> set (probe_commands inPath)" using probes_hardened by fastforce
  then have "cmds = probe_commands inPath @ [(''ffmpeg'', args)]"
    using pipeline_ends [of env inPath outPath "target_of outPath" "probe_commands inPath" opt src] ran(5) assms(2)
    by (auto simp: pipeline_outcome_def)
  from ran(5) [unfolded this] assms(3) show ?thesis
  proof (cases rule: transcode_commands)
    case copy
    then show ?thesis using ran(1,4) assms(3) prim
      by (auto simp: avStreamCopyEligible_def avStreamCopyLegal_def copy_delivers split: if_splits)
        (simp_all add: args_defs)
  next
    case mp4
    then show ?thesis using ran(1,4) prim AVOpts_codec [OF ran(1)] by (auto simp: mp4_delivers [simplified])
  next
    case webm
    then show ?thesis using ran(1,4) prim by (auto simp: webm_delivers [simplified])
  qed
qed

text \<open>
  A WebM asked for in H.264 passes the admission check, which knows only that HEVC needs an MP4. The
  option then merely rules out the copy: the file is encoded as VP9, and the client is not told.
\<close>

theorem webm_codec_discarded:
  assumes "Codec opt = ''h264''" "Timecode opt = None" "Width (primary src) \<le> 1920" "Height (primary src) \<le> 1080"
  shows "ValidateAVApplicability EngineAV source ''webm'' opt = None
    \<and> (\<exists>args. convertTranscode env p q ''webm'' opt src cmds
          = ffmpeg_stage env ErrAVTranscodeFailed ''av: transcode failed'' args q ''webm'' cmds
        \<and> delivered_video args src = ''vp9'')"
proof
  have t: "NormalizeFormat ''webm'' = ''webm''" "''webm'' \<in> set avTranscodeTargets" by code_simp+
  show "ValidateAVApplicability EngineAV source ''webm'' opt = None"
    using assms(1,2) t by (simp add: ValidateAVApplicability_def)
  have "\<not> avStreamCopyEligible ''webm'' opt src"
    using assms(1) by (auto simp: avStreamCopyEligible_def avStreamCopyLegal_def)
  moreover have "enforceReencodeSourceBound (Width (primary src)) (Height (primary src)) = Inr ()"
    using assms(3,4) by (simp add: enforceReencodeSourceBound_def avMaxReencodeSourceHeight_def avMaxReencodeSourceWidth_def)
  ultimately show "\<exists>args. convertTranscode env p q ''webm'' opt src cmds
          = ffmpeg_stage env ErrAVTranscodeFailed ''av: transcode failed'' args q ''webm'' cmds
        \<and> delivered_video args src = ''vp9''"
    by (intro exI [of _ "transcodeToWebMArgs p q (ResolutionHeight opt) (Index (primary src)) (avThreadCount env)"] conjI)
      (simp_all add: convertTranscode_def Let_def webm_delivers [simplified])
qed

text \<open>How the worker files a failed run: is it final, and under which code.\<close>

definition filed_as :: "go_error + unit \<Rightarrow> bool \<Rightarrow> string \<Rightarrow> bool" where
  "filed_as r final code \<longleftrightarrow>
     (case r of Inl e \<Rightarrow> isAVTerminal (Some (wrapped ''convert'' e)) = final \<and> fst (avFailureCode (wrapped ''convert'' e)) = code
      | Inr _ \<Rightarrow> False)"

lemmas filing = filed_as_def isAVTerminal_def avFailureCode_def errors_Is_def wrapped_def staged_def fault_def Let_def

lemma stage_filed:
  assumes "run_result env ''ffmpeg'' args = Inl x" "set (chain_of x) \<subseteq> {DeadlineExceeded}"
    and "s = ErrAVTranscodeFailed \<and> final = (chain_of x = []) \<or> (s = ErrAVAudioExtractFailed \<or> s = ErrAVThumbnailFailed) \<and> final"
  shows "filed_as (fst (ffmpeg_stage env s msg args q t cmds)) final ''engine_error''"
proof -
  have "chain_of x = [] \<or> DeadlineExceeded \<in> set (chain_of x)" using assms(2) by (cases "chain_of x") auto
  moreover have "z \<in> set (chain_of x) \<Longrightarrow> z = DeadlineExceeded" for z using assms(2) by auto
  ultimately show ?thesis using assms(1,3) by (auto simp: ffmpeg_stage_def runCommand_def filing)
qed

lemma empty_output_filed:
  assumes "run_result env ''ffmpeg'' args = Inr out" "(\<exists>e. os_Stat env q = Inl e) \<or> os_Stat env q = Inr 0"
  shows "filed_as (fst (ffmpeg_stage env s msg args q t cmds)) True ''engine_error''"
  using assms by (auto simp: ffmpeg_stage_def runCommand_def validateAVOutput_def filing)

lemma Convert_probed:
  assumes "AVOptsFromMap raw = Inr opt" "target_of q \<in> set av_targets"
    and "avProbeSource env p [] = (Inr src, probe_commands p)"
  shows "max_duration c < duration src \<Longrightarrow> filed_as (fst (Convert env c p q raw [])) True ''duration_exceeded''"
    and "duration src \<le> max_duration c \<Longrightarrow> max_height c < avMaxVideoHeight (videoStreams src)
         \<Longrightarrow> filed_as (fst (Convert env c p q raw [])) True ''resolution_exceeded''"
    and "duration src \<le> max_duration c \<Longrightarrow> avMaxVideoHeight (videoStreams src) \<le> max_height c \<Longrightarrow> disk_guard env p = Inr ()
         \<Longrightarrow> Convert env c p q raw [] = pipeline env p q (target_of q) opt src (probe_commands p)"
  using assms
  by (auto simp: Convert_def guard_stage_def then_run_def wrapping_def enforceMaxDurationOf_def enforceMaxResolutionOf_def filing)

lemma Convert_no_video:
  assumes "AVOptsFromMap raw = Inr opt" "target_of q \<in> set av_targets" "avProbeSource env p [] = (Inl no_video, ps)"
  shows "filed_as (fst (Convert env c p q raw [])) True ''no_video_stream''"
  using assms by (auto simp: Convert_def guard_stage_def then_run_def wrapping_def no_video_def filing)

text \<open>Nothing in the chain of a probe's error or of a full disk is known to the video classifier: only the text decides.\<close>

lemma unclassified_filed:
  "set (chain_of e) \<subseteq> {DeadlineExceeded, ErrAVInsufficientDiskSpace} \<Longrightarrow> r = Inl (wrapped ''av'' e) \<Longrightarrow>
   filed_as r (isTerminal (Some (wrapped ''convert'' (wrapped ''av'' e)))) ''engine_error''"
  by (auto simp: filed_as_def isAVTerminal_def avFailureCode_def errors_Is_def wrapped_def Let_def)

lemma Convert_refused:
  assumes "AVOptsFromMap raw = Inr opt" "target_of q \<in> set av_targets"
  shows "avProbeSource env p [] = (Inl e, ps) \<Longrightarrow> fst (Convert env c p q raw []) = Inl (wrapped ''av'' e)"
    and "avProbeSource env p [] = (Inr src, probe_commands p) \<Longrightarrow> duration src \<le> max_duration c
      \<Longrightarrow> avMaxVideoHeight (videoStreams src) \<le> max_height c \<Longrightarrow> disk_guard env p = Inl e
      \<Longrightarrow> fst (Convert env c p q raw []) = Inl (wrapped ''av'' e)"
  using assms
  by (auto simp: Convert_def guard_stage_def then_run_def wrapping_def enforceMaxDurationOf_def enforceMaxResolutionOf_def)

text \<open>C29: How failures of the video engine are filed, for options that parse and a target it makes. A source without a
  video stream, longer or taller than the ceilings, or, when the disk has room, too large to re-encode or with a
  thumbnail asked for beyond its end fails the job for good before any decoding, each under its own code (a re-encode
  refusal under the general one). A source the probes reject otherwise and a disk without room carry no error the
  classifier knows: under the general code they are final only when their text contains one of the general terminal
  phrases, and retried otherwise. A failed \<open>ffmpeg\<close> is final, except that a transcode that ran out of time is retried;
  and an \<open>ffmpeg\<close> that exits cleanly with no output, or an empty one, is a final failure and never a success.\<close>

theorem av_failures_classified:
  assumes "AVOptsFromMap raw = Inr opt" "target_of q \<in> set av_targets" "Convert env c p q raw [] = (r, cmds)"
  shows "(\<forall>ps. avProbeSource env p [] = (Inl no_video, ps) \<longrightarrow> filed_as r True ''no_video_stream'')
    \<and> (\<forall>src. avProbeSource env p [] = (Inr src, probe_commands p) \<longrightarrow>
        (if max_duration c < duration src then filed_as r True ''duration_exceeded''
         else if max_height c < avMaxVideoHeight (videoStreams src) then filed_as r True ''resolution_exceeded''
         else disk_guard env p = Inr () \<longrightarrow>
           (target_of q \<in> {''mp4'', ''webm''} \<and> \<not> avStreamCopyEligible (target_of q) opt src
              \<and> (1920 < Width (primary src) \<or> 1080 < Height (primary src)) \<longrightarrow> filed_as r True ''engine_error'')
           \<and> (target_of q \<in> {''jpg'', ''png'', ''webp''} \<and> (\<exists>t. Timecode opt = Some t \<and> Seconds env (duration src) \<le> t)
              \<longrightarrow> filed_as r True ''timecode_out_of_range'')))
    \<and> (\<forall>args x. (''ffmpeg'', args) \<in> set cmds \<and> run_result env ''ffmpeg'' args = Inl x \<and> set (chain_of x) \<subseteq> {DeadlineExceeded}
        \<longrightarrow> filed_as r (\<not> (target_of q \<in> {''mp4'', ''webm''} \<and> errors_Is x DeadlineExceeded)) ''engine_error'')
    \<and> (\<forall>args out. (''ffmpeg'', args) \<in> set cmds \<and> run_result env ''ffmpeg'' args = Inr out
        \<and> ((\<exists>e. os_Stat env q = Inl e) \<or> os_Stat env q = Inr 0) \<longrightarrow> filed_as r True ''engine_error'')
    \<and> (\<forall>e ps. avProbeSource env p [] = (Inl e, ps) \<and> set (chain_of e) \<subseteq> {DeadlineExceeded}
        \<longrightarrow> filed_as r (isTerminal (Some (wrapped ''convert'' (wrapped ''av'' e)))) ''engine_error'')
    \<and> (\<forall>src n bavail bsize. avProbeSource env p [] = (Inr src, probe_commands p) \<and> duration src \<le> max_duration c
        \<and> avMaxVideoHeight (videoStreams src) \<le> max_height c
        \<and> os_Stat env p = Inr n \<and> Statfs env (filepath_Dir p) = Inr (bavail, bsize)
        \<and> bavail * bsize < to_uint64 env (round64 env (round64 env (of_nat n) * effectiveAVDiskSafetyFactor env))
        \<longrightarrow> (\<exists>e. disk_guard env p = Inl e \<and> errors_Is e ErrAVInsufficientDiskSpace
              \<and> filed_as r (isTerminal (Some (wrapped ''convert'' (wrapped ''av'' e)))) ''engine_error''))"
    (is "?nv \<and> ?guards \<and> ?failed \<and> ?empty \<and> ?probe \<and> ?disk")
proof -
  note r = assms(3)
  have ?nv using Convert_no_video [OF assms(1,2)] r by (metis fst_conv)
  moreover have ?guards
  proof (intro allI impI)
    fix src assume src: "avProbeSource env p [] = (Inr src, probe_commands p)"
    note probed = Convert_probed [OF assms(1,2) src, of c, unfolded r]
    show "if max_duration c < duration src then filed_as r True ''duration_exceeded''
         else if max_height c < avMaxVideoHeight (videoStreams src) then filed_as r True ''resolution_exceeded''
         else disk_guard env p = Inr () \<longrightarrow>
           (target_of q \<in> {''mp4'', ''webm''} \<and> \<not> avStreamCopyEligible (target_of q) opt src
              \<and> (1920 < Width (primary src) \<or> 1080 < Height (primary src)) \<longrightarrow> filed_as r True ''engine_error'')
           \<and> (target_of q \<in> {''jpg'', ''png'', ''webp''} \<and> (\<exists>t. Timecode opt = Some t \<and> Seconds env (duration src) \<le> t)
              \<longrightarrow> filed_as r True ''timecode_out_of_range'')"
      using probed
      by (auto simp: pipeline_def convertTranscode_def convertThumbnail_def enforceReencodeSourceBound_def
          avMaxReencodeSourceHeight_def avMaxReencodeSourceWidth_def filing)
  qed
  moreover have started: "\<exists>s msg. stage_sentinel (target_of q) s \<and> r = fst (ffmpeg_stage env s msg args q (target_of q) (probe_commands p))"
    if "(''ffmpeg'', args) \<in> set cmds" for args
    using r
  proof (cases rule: Convert_cases)
    case (ran opt' src)
    have "(''ffmpeg'', args) \<notin> set (probe_commands p)" using probes_hardened by fastforce
    with that pipeline_ends [of env p q "target_of q" "probe_commands p" opt' src] show ?thesis
      by (auto simp: pipeline_outcome_def ran(5)) (metis fst_conv)
  qed (use that guard_commands probes_hardened in fastforce)+
  then have ?failed
    by (fastforce simp: stage_sentinel_def errors_Is_def subset_singleton_iff intro: stage_filed split: if_splits)
  moreover have ?empty using started empty_output_filed by blast
  moreover have ?probe
    using Convert_refused(1) [OF assms(1,2), of env p _ _ c, unfolded r fst_conv] unclassified_filed by blast
  moreover have ?disk
  proof (intro allI impI, elim conjE)
    fix src n bavail bsize
    assume h: "avProbeSource env p [] = (Inr src, probe_commands p)" "duration src \<le> max_duration c"
      "avMaxVideoHeight (videoStreams src) \<le> max_height c"
      and full: "os_Stat env p = Inr n" "Statfs env (filepath_Dir p) = Inr (bavail, bsize)"
      "bavail * bsize < to_uint64 env (round64 env (round64 env (of_nat n) * effectiveAVDiskSafetyFactor env))"
    from full obtain e where e: "disk_guard env p = Inl e" "chain_of e = [ErrAVInsufficientDiskSpace]"
      by (auto simp: disk_guard_def EnforceMinFreeDisk_def fault_def Let_def)
    from Convert_refused(2) [OF assms(1,2) h e(1), unfolded r fst_conv] e
    show "\<exists>e. disk_guard env p = Inl e \<and> errors_Is e ErrAVInsufficientDiskSpace
        \<and> filed_as r (isTerminal (Some (wrapped ''convert'' (wrapped ''av'' e)))) ''engine_error''"
      by (intro exI [of _ e]) (auto simp: errors_Is_def intro: unclassified_filed)
  qed
  ultimately show ?thesis by blast
qed

text \<open>The error of a probe that found nothing to read.\<close>

definition unreadable :: go_error where
  "unreadable = fault [] ''ffprobe failed: exit status 1: moov atom not found''"

text \<open>A source of twelve seconds, one H.264 stream of 1280x720 with AAC, and a client that wants HEVC.\<close>

definition demo_av :: av_env where
  "demo_av =
     \<lparr>run_result = \<lambda>nm args. Inr (if adjacent ''-show_entries'' ''stream=codec_name'' args then ''aac'' else ''12''),
      decode_streams = \<lambda>_. Inr [\<lparr>Index = 0, CodecName = ''h264'', Width = 1280, Height = 720, AttachedPic = False\<rparr>],
      ParseFloat = \<lambda>_. Inr (Fin 12), round64 = \<lambda>q. q, to_uint64 = \<lambda>q. of_int \<lfloor>q\<rfloor>, FormatFloat = \<lambda>_. ''1'',
      format_fixed = \<lambda>_ _. ''1'', format_number = \<lambda>_. ''1'', format_duration = \<lambda>_. ''1s'', quoted = \<lambda>s. s,
      opts_message = \<lambda>_. ''opts'', read_message = \<lambda>_. ''read'', os_Stat = \<lambda>_. Inr 1000, os_Open = \<lambda>_. Inl unreadable,
      Statfs = \<lambda>_. Inr (1000, 4096), cpu_max = Some ''200000 100000'', NumCPU = 16, disk_factor = 0\<rparr>"

definition av_defaults :: av_config where
  "av_defaults = \<lparr>MaxSourceDuration = 0, MaxSourceResolutionHeight = 0\<rparr>"

definition args_hevc :: "string list" where
  "args_hevc = transcodeToMP4Args ''/w/in.mov'' ''/w/out.mp4'' ''hevc'' 480 0 2"

definition hevc_480 :: opts where
  "hevc_480 = [(''resolution_height'', JsonNum 480), (''codec'', JsonStr ''hevc'')]"

text \<open>The same source when \<open>ffmpeg\<close> is killed at its deadline.\<close>

definition killed :: go_error where
  "killed = fault [DeadlineExceeded] ''ffmpeg killed: context deadline exceeded''"

definition slow_av :: av_env where
  "slow_av = demo_av\<lparr>run_result := \<lambda>nm args. if nm = ''ffmpeg'' then Inl killed else run_result demo_av nm args\<rparr>"

definition thumb_png :: "string list" where
  "thumb_png = [''-y'', ''-nostdin'', ''-protocol_whitelist'', ''file,crypto'', ''-ss'', ''1'', ''-i'', ''file:/w/in.mov'',
     ''-map'', ''0:0'', ''-frames:v'', ''1'', ''-c:v'', ''png'', ''file:/w/out.png'']"

lemma video_request:
  "AVOptsFromMap hevc_480 = Inr \<lparr>Timecode = None, ResolutionHeight = 480, Codec = ''hevc''\<rparr>
   \<and> target_of ''/w/out.mp4'' = ''mp4'' \<and> target_of ''/w/out.png'' = ''png''
   \<and> filepath_Dir ''/w/in.mov'' = ''/w'' \<and> avThreadCount demo_av = 2 \<and> itoa 0 = ''0'' \<and> itoa 480 = ''480''"
  by code_simp

definition demo_source :: avSourceProbe where
  "demo_source =
     (let s = \<lparr>Index = 0, CodecName = ''h264'', Width = 1280, Height = 720, AttachedPic = False\<rparr>
      in \<lparr>duration = 12 * Second, videoStreams = [s], primary = s, audioCodec = ''aac''\<rparr>)"

lemma slow_av_fields:
  "run_result slow_av nm = (if nm = ''ffmpeg'' then (\<lambda>_. Inl killed) else run_result demo_av nm)"
  "decode_streams slow_av = decode_streams demo_av" "ParseFloat slow_av = ParseFloat demo_av"
  "round64 slow_av = round64 demo_av"
  "cpu_max slow_av = cpu_max demo_av" "FormatFloat slow_av = FormatFloat demo_av"
  by (simp_all add: slow_av_def fun_eq_iff)

lemma demo_probes:
  "run_result demo_av nm (ffprobeDurationArgs p) = Inr ''12''" "run_result demo_av nm (ffprobeStreamArgs p) = Inr ''12''"
  "run_result demo_av nm (ffprobeAudioCodecArgs p) = Inr ''aac''" "TrimSpace ''aac'' = ''aac''"
  "parseProbedDuration demo_av ''12'' = Inr (12 * Second)"
  "checked_streams demo_av ''12'' = Inr (videoStreams demo_source)"
  "avPrimaryVideoStream (videoStreams demo_source) = Some (primary demo_source)"
  by (simp_all add: demo_av_def demo_source_def ffprobeDurationArgs_def ffprobeStreamArgs_def ffprobeAudioCodecArgs_def
      TrimSpace_def is_space_def parseProbedDuration_def maxSaneDurationSeconds_def Second_def trunc_def
      checked_streams_def avPrimaryVideoStream_def larger_stream_def Let_def)

lemma demo_probed:
  "avProbeSource demo_av ''/w/in.mov'' [] = (Inr demo_source, probe_commands ''/w/in.mov'')"
  "avProbeSource slow_av ''/w/in.mov'' [] = (Inr demo_source, probe_commands ''/w/in.mov'')"
proof -
  have "parseProbedDuration slow_av = parseProbedDuration demo_av" "checked_streams slow_av = checked_streams demo_av"
    by (simp_all add: slow_av_def parseProbedDuration_def checked_streams_def fun_eq_iff split: sum.split number.split)
  moreover have "demo_source = \<lparr>duration = 12 * Second, videoStreams = videoStreams demo_source,
      primary = primary demo_source, audioCodec = ''aac''\<rparr>" by (simp add: demo_source_def Let_def)
  ultimately show "avProbeSource demo_av ''/w/in.mov'' [] = (Inr demo_source, probe_commands ''/w/in.mov'')"
    "avProbeSource slow_av ''/w/in.mov'' [] = (Inr demo_source, probe_commands ''/w/in.mov'')"
    by (simp_all add: avProbeSource_def then_run_def probe_runs probe_commands_def demo_probes slow_av_fields(1))
qed

lemma demo_guards:
  "duration demo_source \<le> max_duration av_defaults" "avMaxVideoHeight (videoStreams demo_source) \<le> max_height av_defaults"
  "disk_guard demo_av p = Inr ()" "disk_guard slow_av p = Inr ()"
  by (simp_all add: slow_av_def demo_source_def av_defaults_def max_duration_def max_height_def avMaxSourceDuration_def
      avMaxSourceResolutionHeight_def avMaxVideoHeight_def Second_def Minute_def demo_av_def disk_guard_def
      EnforceMinFreeDisk_def effectiveAVDiskSafetyFactor_def Let_def)

lemmas demo_converted = Convert_probed(3) [OF _ _ demo_probed(1) demo_guards(1,2,3)]
  Convert_probed(3) [OF _ _ demo_probed(2) demo_guards(1,2,4)]

lemmas pipeline_defs = pipeline_def convertTranscode_def convertThumbnail_def ffmpeg_stage_def runCommand_def
  enforceReencodeSourceBound_def avMaxReencodeSourceHeight_def avMaxReencodeSourceWidth_def avStreamCopyEligible_def
  avStreamCopyLegal_def

lemma video_runs:
  "Convert demo_av av_defaults ''/w/in.mov'' ''/w/out.mp4'' hevc_480 [] =
     (Inr (), probe_commands ''/w/in.mov'' @ [(''ffmpeg'', args_hevc)])"
  "Convert slow_av av_defaults ''/w/in.mov'' ''/w/out.mp4'' hevc_480 [] =
     (Inl (staged ErrAVTranscodeFailed ''av: transcode failed'' killed), probe_commands ''/w/in.mov'' @ [(''ffmpeg'', args_hevc)])"
  "Convert slow_av av_defaults ''/w/in.mov'' ''/w/out.png'' [] [] =
     (Inl (staged ErrAVThumbnailFailed ''av: thumbnail failed'' killed), probe_commands ''/w/in.mov'' @ [(''ffmpeg'', thumb_png)])"
proof -
  have opts: "AVOptsFromMap [] = Inr zero_AVOpts" by (simp add: AVOptsFromMap_def)
  have threads: "avThreadCount slow_av = avThreadCount demo_av"
    by (simp add: slow_av_def avThreadCount_def CgroupCPULimit_def split: option.split)
  note conv = demo_converted [of hevc_480 _ "''/w/out.mp4''"] demo_converted(2) [of "[]" _ "''/w/out.png''"]
  have probed: "Width (primary demo_source) = 1280" "Height (primary demo_source) = 720" "Index (primary demo_source) = 0"
    "CodecName (primary demo_source) = ''h264''" "duration demo_source = 12 * Second"
    by (simp_all add: demo_source_def Let_def)
  have valid: "validateAVOutput demo_av q ''mp4'' = Inr ()" for q by (simp add: validateAVOutput_def demo_av_def)
  have ran: "run_result demo_av ''ffmpeg'' args \<noteq> Inl e" "run_result slow_av ''ffmpeg'' args = Inl killed" for args e
    by (simp_all add: demo_av_def slow_av_def)
  show "Convert demo_av av_defaults ''/w/in.mov'' ''/w/out.mp4'' hevc_480 [] =
     (Inr (), probe_commands ''/w/in.mov'' @ [(''ffmpeg'', args_hevc)])"
    using video_request ran(1)
    by (subst conv(1)) (auto simp: av_targets_def pipeline_defs Let_def probed valid args_hevc_def split: sum.split)
  show "Convert slow_av av_defaults ''/w/in.mov'' ''/w/out.mp4'' hevc_480 [] =
     (Inl (staged ErrAVTranscodeFailed ''av: transcode failed'' killed), probe_commands ''/w/in.mov'' @ [(''ffmpeg'', args_hevc)])"
    using video_request
    by (subst conv(2)) (auto simp: av_targets_def pipeline_defs Let_def probed ran threads args_hevc_def)
  show "Convert slow_av av_defaults ''/w/in.mov'' ''/w/out.png'' [] [] =
     (Inl (staged ErrAVThumbnailFailed ''av: thumbnail failed'' killed), probe_commands ''/w/in.mov'' @ [(''ffmpeg'', thumb_png)])"
    using video_request opts
    by (subst conv(3)) (auto simp: av_targets_def pipeline_defs Let_def probed ran thumb_png_def thumbnailArgs_def
        zero_AVOpts_def slow_av_fields demo_av_def)
qed

lemmas video_run = video_runs(1)
lemmas slow_mp4 = video_runs(2)
lemmas slow_png = video_runs(3)

theorem av_convert_guarded_witness:
  "\<exists>src n. avProbeSource demo_av ''/w/in.mov'' [] = (Inr src, probe_commands ''/w/in.mov'')
     \<and> duration src \<le> avMaxSourceDuration \<and> os_Stat demo_av ''/w/in.mov'' = Inr n"
  using av_convert_guarded [OF video_run] by (auto simp: max_duration_def av_defaults_def)

theorem av_transcode_delivers_witness:
  "\<exists>src. avProbeSource demo_av ''/w/in.mov'' [] = (Inr src, probe_commands ''/w/in.mov'')
     \<and> delivered_video args_hevc src = ''hevc'' \<and> adjacent ''-vf'' ''scale=-2:480'' args_hevc \<and> Height (primary src) \<le> 1080"
proof -
  have "\<not> adjacent ''-c'' ''copy'' args_hevc" by (simp add: args_hevc_def mp4_delivers)
  then show ?thesis
    using av_transcode_delivers [OF video_run, of args_hevc] video_request by (fastforce simp: args_hevc_def mp4_delivers(1))
qed

theorem av_failures_classified_witness:
  "filed_as (fst (Convert slow_av av_defaults ''/w/in.mov'' ''/w/out.mp4'' hevc_480 [])) False ''engine_error''
   \<and> filed_as (fst (Convert slow_av av_defaults ''/w/in.mov'' ''/w/out.png'' [] [])) True ''engine_error''"
proof -
  have opts: "AVOptsFromMap hevc_480 = Inr \<lparr>Timecode = None, ResolutionHeight = 480, Codec = ''hevc''\<rparr>"
    "AVOptsFromMap [] = Inr zero_AVOpts" using video_request by (simp_all add: AVOptsFromMap_def)
  have killed: "run_result slow_av ''ffmpeg'' args = Inl killed \<and> set (chain_of killed) \<subseteq> {DeadlineExceeded}" for args
    by (simp add: slow_av_def killed_def fault_def)
  note filed = av_failures_classified [THEN conjunct2, THEN conjunct2, THEN conjunct1, rule_format]
  show ?thesis
    using filed [OF opts(1) _ slow_mp4, of args_hevc killed] filed [OF opts(2) _ slow_png, of thumb_png killed] killed video_request
    by (simp add: av_targets_def slow_mp4 slow_png errors_Is_def) (simp add: killed_def fault_def)
qed

subsection \<open>The engine behind its handler\<close>

text \<open>The answer of \<open>io_convert\<close> when the engine is this one.\<close>

definition engine_answer :: "go_error + unit \<Rightarrow> go_error option" where
  "engine_answer r = (case r of Inl e \<Rightarrow> Some e | Inr _ \<Rightarrow> None)"

text \<open>What \<open>filed_as\<close> means for the job: final failures close it under their code, the others leave it active for a retry.\<close>

theorem filed_job:
  assumes j: "find_job i (wdb w) = Some j" "status j \<in> {StatusQueued, StatusActive}"
    and av: "AVOptsFromMap (options j) = Inr opt" "engine j = EngineAV" "source_format j = Some src" "target_format j = Some tgt"
      "Lookup Default src tgt = Some AVConverter"
    and inp: "Inputs Works i (wdb w) = Inr (f # fs)"
    and io: "io_mkdtemp io = None" "io_download io (object_key f) = None"
      "\<And>p q raw. io_convert io AVConverter p q raw = engine_answer (fst (Convert env cfg p q raw []))"
    and filed: "filed_as (fst (Convert env cfg (io_workdir io @ ''/in.'' @ src) (io_workdir io @ ''/out.'' @ tgt) (options j) []))
      final code"
    and r: "HandleAVConvert enq c (quiet now) io (Some i) w = (oc, w')"
  shows "\<exists>j'. find_job i (wdb w') = Some j' \<and>
    (if final then (\<exists>m. oc = SkipRetry m) \<and> status j' = StatusFailed \<and> error_code j' = Some code
     else (\<exists>e. oc = Retry e) \<and> status j' = StatusActive)"
proof -
  obtain e where e: "fst (Convert env cfg (io_workdir io @ ''/in.'' @ src) (io_workdir io @ ''/out.'' @ tgt) (options j) []) = Inl e"
    "isAVTerminal (Some (wrapped ''convert'' e)) = final" "fst (avFailureCode (wrapped ''convert'' e)) = code"
    using filed by (auto simp: filed_as_def split: sum.splits)
  have "run_engine io (job_of_row j) f = Inl (wrapped ''convert'' e)"
    using av io e(1)
    by (simp add: run_engine_def job_of_row_def deref_def enforceAudioGuardBeforeConvert_def engine_defs engine_answer_def Let_def)
  from failed_attempt [OF j _ inp this r [unfolded HandleAVConvert_def]] av(1) e(2,3)
  show ?thesis by (auto simp: parsed_def)
qed

text \<open>
  A source \<open>ffprobe\<close> cannot read: the audio classifier knows the shape of the message and fails the job,
  the video classifier does not and has the same hopeless job retried.
\<close>

lemma unreadable_filed:
  "isAudioTerminal (engine_answer (Inl (wrapped ''ffprobe'' unreadable)))
   \<and> filed_as (Inl (wrapped ''av'' (wrapped ''ffprobe'' unreadable))) False ''engine_error''"
  by code_simp

theorem corrupt_source_final_for_audio_only:
  assumes "run_result env ''ffprobe'' (ffprobeDurationArgs p) = Inl unreadable"
    and "AVOptsFromMap raw = Inr opt" "target_of q \<in> set av_targets"
  shows "isAudioTerminal (engine_answer (fst (EnforceMaxDuration env p mx [])))"
    and "filed_as (fst (Convert env c p q raw [])) False ''engine_error''"
proof -
  have "EnforceMaxDuration env p mx [] = (Inl (wrapped ''ffprobe'' unreadable), [(''ffprobe'', ffprobeDurationArgs p)])"
    using assms(1) by (simp add: EnforceMaxDuration_def then_run_def ProbeDuration_run)
  moreover have "isAudioTerminal (engine_answer (Inl (wrapped ''ffprobe'' unreadable)))" using unreadable_filed by simp
  ultimately show "isAudioTerminal (engine_answer (fst (EnforceMaxDuration env p mx [])))" by simp
  have "fst (Convert env c p q raw []) = Inl (wrapped ''av'' (wrapped ''ffprobe'' unreadable))"
    using assms by (simp add: Convert_def guard_stage_def avProbeSource_def then_run_def wrapping_def ProbeDuration_run)
  moreover have "filed_as (Inl (wrapped ''av'' (wrapped ''ffprobe'' unreadable))) False ''engine_error''" using unreadable_filed by simp
  ultimately show "filed_as (fst (Convert env c p q raw [])) False ''engine_error''" by simp
qed

end
