(* ===== verification/Render.thy ===== *)
theory Render
  imports Opts Sniff
begin

text \<open>
  The page the HTML engine prints, \<open>internal/convert/chromium.go\<close>: a policy that forbids scripts goes
  behind the opening \<open>head\<close> tag and the print style before the closing one. The tags are found in a
  lower-cased copy; \<open>bytes.ToLower\<close> decodes runes when the page is not ASCII, so the copy may have
  another length than the page, and a position found in it may be out of range. Such a panic is \<open>None\<close>.
  The case mapping \<open>unicode.ToLower\<close> of runes is a parameter.
\<close>

subsection \<open>Searching bytes\<close>

text \<open>\<open>bytes.Index\<close>\<close>

fun index_of :: "'a list \<Rightarrow> 'a list \<Rightarrow> nat option" where
  "index_of sep [] = (if sep = [] then Some 0 else None)"
| "index_of sep (x # xs) = (if has_prefix (x # xs) sep then Some 0 else map_option Suc (index_of sep xs))"

lemma index_of_Some:
  "index_of sep xs = Some i \<longleftrightarrow>
     i \<le> length xs \<and> has_prefix (drop i xs) sep \<and> (\<forall>j < i. \<not> has_prefix (drop j xs) sep)"
proof (induction xs arbitrary: i)
  case Nil
  then show ?case by (auto simp: has_prefix_def)
next
  case (Cons x xs)
  show ?case
  proof (cases i)
    case 0
    then show ?thesis by simp
  next
    case (Suc k)
    have "(\<forall>j < Suc k. \<not> has_prefix (drop j (x # xs)) sep) \<longleftrightarrow>
        \<not> has_prefix (x # xs) sep \<and> (\<forall>j < k. \<not> has_prefix (drop j xs) sep)"
      by (simp add: All_less_Suc2)
    then show ?thesis using Suc Cons.IH [of k] by auto
  qed
qed

lemma has_prefix_byte: "j < length xs \<Longrightarrow> has_prefix (drop j xs) [c] \<longleftrightarrow> xs ! j = c"
  by (simp add: has_prefix_def Cons_nth_drop_Suc [symmetric])

lemma index_of_byte:
  assumes "index_of [c] xs = Some i"
  shows "i < length xs" "xs ! i = c" "c \<notin> set (take i xs)"
proof -
  have p: "has_prefix (drop i xs) [c]" "\<forall>j < i. \<not> has_prefix (drop j xs) [c]" using assms by (simp_all add: index_of_Some)
  show i: "i < length xs" using p(1) by (cases "i < length xs") (simp_all add: has_prefix_def)
  show "xs ! i = c" using p(1) has_prefix_byte [OF i] by simp
  show "c \<notin> set (take i xs)" using p(2) has_prefix_byte [of _ xs] i by (auto simp: in_set_conv_nth)
qed

subsection \<open>Lower case\<close>

definition RuneError :: nat where "RuneError = 0xFFFD"

text \<open>\<open>utf8.DecodeRune\<close>: the rune and its width; an invalid sequence is one byte wide.\<close>

definition decode_rune :: "bytes \<Rightarrow> nat \<times> nat" where
  "decode_rune b =
     (case b of
        [] \<Rightarrow> (RuneError, 0)
      | a # r \<Rightarrow>
          if a < 0x80 then (unat a, 1)
          else if cont 0xC2 0xDF a then
            (case r of
               b1 # _ \<Rightarrow> if cont 0x80 0xBF b1 then ((unat a - 0xC0) * 64 + (unat b1 - 0x80), 2) else (RuneError, 1)
             | _ \<Rightarrow> (RuneError, 1))
          else if cont 0xE0 0xEF a then
            (case r of
               b1 # b2 # _ \<Rightarrow>
                 if cont (if a = 0xE0 then 0xA0 else 0x80) (if a = 0xED then 0x9F else 0xBF) b1 \<and> cont 0x80 0xBF b2
                 then ((unat a - 0xE0) * 4096 + (unat b1 - 0x80) * 64 + (unat b2 - 0x80), 3) else (RuneError, 1)
             | _ \<Rightarrow> (RuneError, 1))
          else if cont 0xF0 0xF4 a then
            (case r of
               b1 # b2 # b3 # _ \<Rightarrow>
                 if cont (if a = 0xF0 then 0x90 else 0x80) (if a = 0xF4 then 0x8F else 0xBF) b1
                    \<and> cont 0x80 0xBF b2 \<and> cont 0x80 0xBF b3
                 then ((unat a - 0xF0) * 262144 + (unat b1 - 0x80) * 4096 + (unat b2 - 0x80) * 64 + (unat b3 - 0x80), 4)
                 else (RuneError, 1)
             | _ \<Rightarrow> (RuneError, 1))
          else (RuneError, 1))"

text \<open>\<open>utf8.AppendRune\<close>\<close>

definition encode_rune :: "nat \<Rightarrow> bytes" where
  "encode_rune r0 =
     (let r = (if 0x10FFFF < r0 \<or> (0xD800 \<le> r0 \<and> r0 \<le> 0xDFFF) then RuneError else r0)
      in if r \<le> 0x7F then [of_nat r]
         else if r \<le> 0x7FF then [of_nat (0xC0 + r div 64), of_nat (0x80 + r mod 64)]
         else if r \<le> 0xFFFF then [of_nat (0xE0 + r div 4096), of_nat (0x80 + r div 64 mod 64), of_nat (0x80 + r mod 64)]
         else [of_nat (0xF0 + r div 262144), of_nat (0x80 + r div 4096 mod 64), of_nat (0x80 + r div 64 mod 64),
               of_nat (0x80 + r mod 64)])"

text \<open>\<open>bytes.Map\<close>\<close>

function map_runes :: "(nat \<Rightarrow> nat) \<Rightarrow> bytes \<Rightarrow> bytes" where
  "map_runes f [] = []"
| "map_runes f (a # r) =
     encode_rune (f (fst (decode_rune (a # r)))) @ map_runes f (drop (snd (decode_rune (a # r)) - 1) r)"
  by pat_completeness auto
termination by (relation "measure (\<lambda>(f, b). length b)") auto

definition ascii :: "bytes \<Rightarrow> bool" where
  "ascii b \<longleftrightarrow> list_all (\<lambda>x. x < 0x80) b"

definition bytes_ToLower :: "(nat \<Rightarrow> nat) \<Rightarrow> bytes \<Rightarrow> bytes" where
  "bytes_ToLower ul b = (if ascii b then map lower_byte b else map_runes ul b)"

subsection \<open>The injections\<close>

definition cspNoScriptMeta :: string where
  "cspNoScriptMeta = ''<meta http-equiv=\"Content-Security-Policy\" content=\"script-src 'none'; object-src 'none'\">''"

definition headCloseTag :: bytes where "headCloseTag = bytes_of ''</head>''"
definition headOpenPrefix :: bytes where "headOpenPrefix = bytes_of ''<head''"
definition htmlOpenPrefix :: bytes where "htmlOpenPrefix = bytes_of ''<html''"

definition spliceAt :: "bytes \<Rightarrow> nat \<Rightarrow> string \<Rightarrow> bytes option" where
  "spliceAt html i css =
     (case gslice html 0 i of
        None \<Rightarrow> None
      | Some a \<Rightarrow> (case gslice html i (length html) of None \<Rightarrow> None | Some z \<Rightarrow> Some (a @ bytes_of css @ z)))"

text \<open>
  The position behind the first tag that starts with \<open>pre\<close> in the lower-cased copy and is closed:
  \<open>None\<close> is a panic, \<open>Some None\<close> no such tag.
\<close>

definition open_tag_end :: "bytes \<Rightarrow> bytes \<Rightarrow> bytes \<Rightarrow> nat option option" where
  "open_tag_end low html pre =
     (case index_of pre low of
        None \<Rightarrow> Some None
      | Some i \<Rightarrow>
          (case gslice html i (length html) of
             None \<Rightarrow> None
           | Some rest \<Rightarrow> Some (map_option (\<lambda>e. i + e + 1) (index_of [0x3E] rest))))"

definition injectPrintCSS :: "(nat \<Rightarrow> nat) \<Rightarrow> bytes \<Rightarrow> string \<Rightarrow> bytes option" where
  "injectPrintCSS ul html css =
     (let low = bytes_ToLower ul html
      in case index_of headCloseTag low of
           Some i \<Rightarrow> spliceAt html i css
         | None \<Rightarrow>
             (case open_tag_end low html htmlOpenPrefix of
                None \<Rightarrow> None
              | Some (Some i) \<Rightarrow> spliceAt html i css
              | Some None \<Rightarrow> spliceAt html 0 css))"

definition injectCSPFirst :: "(nat \<Rightarrow> nat) \<Rightarrow> bytes \<Rightarrow> string \<Rightarrow> bytes option" where
  "injectCSPFirst ul html csp =
     (let low = bytes_ToLower ul html
      in case open_tag_end low html headOpenPrefix of
           None \<Rightarrow> None
         | Some (Some i) \<Rightarrow> spliceAt html i csp
         | Some None \<Rightarrow>
             (case open_tag_end low html htmlOpenPrefix of
                None \<Rightarrow> None
              | Some (Some i) \<Rightarrow> spliceAt html i csp
              | Some None \<Rightarrow> spliceAt html 0 csp))"

definition render :: "(nat \<Rightarrow> nat) \<Rightarrow> HTMLOpts \<Rightarrow> bytes \<Rightarrow> bytes option" where
  "render ul opt html =
     (case injectCSPFirst ul html cspNoScriptMeta of
        None \<Rightarrow> None
      | Some page \<Rightarrow> injectPrintCSS ul page (buildPrintCSS opt))"

subsection \<open>Where the policy stands\<close>

lemma has_prefix_nth:
  assumes "has_prefix (drop j xs) p" "k < length p"
  shows "j + k < length xs \<and> xs ! (j + k) = p ! k"
proof -
  obtain r where r: "drop j xs = p @ r" using assms(1) by (auto simp: has_prefix_iff)
  then have "k < length (drop j xs)" using assms(2) by simp
  then have "j + k < length xs" by simp
  then show ?thesis using r assms(2) by (metis nth_append nth_drop add_leE less_imp_le)
qed

lemma lower_ascii: "ascii html \<Longrightarrow> bytes_ToLower ul html = map lower_byte html"
  by (simp add: bytes_ToLower_def)

lemma ascii_append [simp]: "ascii (xs @ ys) \<longleftrightarrow> ascii xs \<and> ascii ys"
  by (simp add: ascii_def)

lemma spliceAt_eq: "i \<le> length html \<Longrightarrow> spliceAt html i css = Some (take i html @ bytes_of css @ drop i html)"
  by (simp add: spliceAt_def gslice_def)

lemma spliceAt_append: "spliceAt (x @ y) (length x) css = Some (x @ bytes_of css @ y)"
  by (simp add: spliceAt_eq)

lemma open_tag_end_total:
  assumes "length low = length html"
  shows "open_tag_end low html pre \<noteq> None"
    and "open_tag_end low html pre = Some (Some p) \<Longrightarrow> p \<le> length html"
proof -
  have "i \<le> length html" if "index_of pre low = Some i" for i using that assms by (simp add: index_of_Some)
  moreover have "i + e < length html" if "index_of pre low = Some i" "index_of [0x3E] (drop i html) = Some e" for i e
    using index_of_byte(1) [OF that(2)] by simp
  ultimately show "open_tag_end low html pre \<noteq> None"
    "open_tag_end low html pre = Some (Some p) \<Longrightarrow> p \<le> length html"
    by (fastforce simp: open_tag_end_def gslice_def split: option.splits)+
qed

text \<open>A text put somewhere into a page.\<close>

definition inserted :: "string \<Rightarrow> bytes \<Rightarrow> bytes \<Rightarrow> bool" where
  "inserted css x y \<longleftrightarrow> (\<exists>u v. x = u @ v \<and> y = u @ bytes_of css @ v)"

lemma lower_csp: "map lower_byte (bytes_of cspNoScriptMeta) = bytes_of ''<meta http-equiv=\"content-security-policy\" content=\"script-src 'none'; object-src 'none'\">''"
  by (simp add: cspNoScriptMeta_def bytes_of_def lower_byte_def)

lemma ascii_csp: "ascii (bytes_of cspNoScriptMeta)"
  by (simp add: cspNoScriptMeta_def bytes_of_def ascii_def)

text \<open>No closing tag starts inside the policy.\<close>

lemma no_tag_in_csp:
  assumes "k < length (bytes_of cspNoScriptMeta)"
  shows "\<not> has_prefix (drop (length x + k) (map lower_byte (x @ bytes_of cspNoScriptMeta @ y))) headCloseTag"
proof
  let ?c = "map lower_byte (bytes_of cspNoScriptMeta)"
  assume p: "has_prefix (drop (length x + k) (map lower_byte (x @ bytes_of cspNoScriptMeta @ y))) headCloseTag"
  have at: "map lower_byte (x @ bytes_of cspNoScriptMeta @ y) ! (length x + i) = ?c ! i" if "i < length ?c" for i
    using that by (simp add: nth_append)
  have tag: "headCloseTag ! 0 = 0x3C" "headCloseTag ! 1 = 0x2F" "length headCloseTag = 7"
    by (simp_all add: headCloseTag_def bytes_of_def)
  have "?c ! k = 0x3C" using has_prefix_nth [OF p, of 0] at [of k] tag assms by simp
  moreover have "0x3C \<notin> set (tl ?c)" unfolding lower_csp by (simp add: bytes_of_def)
  moreover have "?c ! k \<in> set (tl ?c)" if "0 < k"
  proof -
    have "k - 1 < length (tl ?c)" using that assms by simp
    from nth_mem [OF this] show ?thesis using that \<open>k - 1 < length (tl ?c)\<close> by (simp add: nth_tl)
  qed
  ultimately have "k = 0" by fastforce
  then have "?c ! 1 = 0x2F" using has_prefix_nth [OF p, of 1] at [of 1] tag by (simp add: cspNoScriptMeta_def)
  moreover have "?c ! 1 = 0x6D" unfolding lower_csp by (simp add: bytes_of_def)
  ultimately show False by simp
qed

lemma csp_closes_once: "0x3E \<notin> set (butlast (bytes_of cspNoScriptMeta))"
  by (simp add: cspNoScriptMeta_def bytes_of_def)

text \<open>A tag ends with its closing bracket.\<close>

lemma open_tag_end_bracket:
  assumes "open_tag_end low html pre = Some (Some p)"
  shows "0 < p \<and> html ! (p - 1) = 0x3E"
proof -
  obtain i e where "index_of pre low = Some i" "i \<le> length html" "index_of [0x3E] (drop i html) = Some e" "p = i + e + 1"
    using assms by (auto simp: open_tag_end_def gslice_def split: option.splits if_splits)
  then show ?thesis using index_of_byte [of "0x3E" "drop i html" e] by simp
qed

lemma css_around_csp:
  assumes "ascii x" "ascii y"
  shows "\<exists>out pre post. injectPrintCSS ul (x @ bytes_of cspNoScriptMeta @ y) css = Some out
    \<and> out = pre @ bytes_of cspNoScriptMeta @ post
    \<and> (inserted css x pre \<and> post = y \<or> pre = x \<and> inserted css y post)"
proof -
  let ?c = "bytes_of cspNoScriptMeta" and ?page = "x @ bytes_of cspNoScriptMeta @ y"
  let ?low = "map lower_byte ?page"
  have low: "bytes_ToLower ul ?page = ?low" using assms ascii_csp by (intro lower_ascii) simp
  have around: "\<exists>out pre post. spliceAt ?page i css = Some out \<and> out = pre @ ?c @ post
      \<and> (inserted css x pre \<and> post = y \<or> pre = x \<and> inserted css y post)"
    if "i \<le> length x \<or> length x + length ?c \<le> i" "i \<le> length ?page" for i
  proof (cases "i \<le> length x")
    case True
    then have "spliceAt ?page i css = Some ((take i x @ bytes_of css @ drop i x) @ ?c @ y)" by (simp add: spliceAt_eq)
    moreover have "inserted css x (take i x @ bytes_of css @ drop i x)"
      unfolding inserted_def by (rule exI [of _ "take i x"], rule exI [of _ "drop i x"]) simp
    ultimately show ?thesis by blast
  next
    case False
    let ?k = "i - (length x + length ?c)"
    have "spliceAt ?page i css = Some (x @ ?c @ take ?k y @ bytes_of css @ drop ?k y)"
      using False that by (simp add: spliceAt_eq)
    moreover have "inserted css y (take ?k y @ bytes_of css @ drop ?k y)"
      unfolding inserted_def by (rule exI [of _ "take ?k y"], rule exI [of _ "drop ?k y"]) simp
    ultimately show ?thesis by blast
  qed
  show ?thesis
  proof (cases "index_of headCloseTag ?low")
    case (Some i)
    then have "has_prefix (drop i ?low) headCloseTag" "i \<le> length ?page" by (simp_all add: index_of_Some)
    moreover have "i \<le> length x \<or> length x + length ?c \<le> i"
    proof (rule ccontr)
      assume "\<not> (i \<le> length x \<or> length x + length ?c \<le> i)"
      then have "i - length x < length ?c" "length x + (i - length x) = i" by auto
      then show False using no_tag_in_csp [of "i - length x" x y] calculation(1) by presburger
    qed
    ultimately show ?thesis using around [of i] Some by (simp add: injectPrintCSS_def low)
  next
    case None
    show ?thesis
    proof (cases "open_tag_end ?low ?page htmlOpenPrefix")
      case None
      then show ?thesis using open_tag_end_total(1) [of ?low ?page htmlOpenPrefix] by simp
    next
      case (Some q)
      show ?thesis
      proof (cases q)
        case None
        then show ?thesis using around [of 0] Some \<open>index_of headCloseTag ?low = None\<close>
          by (simp add: injectPrintCSS_def low)
      next
        case q: (Some i)
        have i: "0 < i" "?page ! (i - 1) = 0x3E" "i \<le> length ?page"
          using open_tag_end_bracket [OF Some [unfolded q]] open_tag_end_total(2) [OF _ Some [unfolded q]] by simp_all
        have "i \<le> length x \<or> length x + length ?c \<le> i"
        proof (rule ccontr)
          assume "\<not> (i \<le> length x \<or> length x + length ?c \<le> i)"
          then have k: "i - 1 - length x < length (butlast ?c)" "length x \<le> i - 1" by auto
          moreover have "i - 1 - length x < length ?c" using k(1) by simp
          ultimately have "?page ! (i - 1) = butlast ?c ! (i - 1 - length x)" by (simp add: nth_append nth_butlast)
          then show False using i(2) csp_closes_once nth_mem [OF k(1)] by simp
        qed
        then show ?thesis using around [of i] i(3) Some q \<open>index_of headCloseTag ?low = None\<close>
          by (simp add: injectPrintCSS_def low)
      qed
    qed
  qed
qed

text \<open>The first opening \<open>head\<close> tag of a page: nothing before it looks like one, and it ends at its bracket.\<close>

definition first_head :: "bytes \<Rightarrow> bytes \<Rightarrow> bytes \<Rightarrow> bool" where
  "first_head a t r \<longleftrightarrow>
     t \<noteq> [] \<and> last t = 0x3E \<and> 0x3E \<notin> set (butlast t) \<and> has_prefix (map lower_byte t) headOpenPrefix
     \<and> (\<forall>j < length a. \<not> has_prefix (drop j (map lower_byte (a @ t @ r))) headOpenPrefix)"

lemma csp_behind_head:
  assumes "ascii (a @ t @ r)" "first_head a t r"
  shows "injectCSPFirst ul (a @ t @ r) csp = Some ((a @ t) @ bytes_of csp @ r)"
proof -
  obtain body where t: "t = body @ [0x3E]" "0x3E \<notin> set body" and pre: "has_prefix (map lower_byte t) headOpenPrefix"
    and first: "\<forall>j < length a. \<not> has_prefix (drop j (map lower_byte (a @ t @ r))) headOpenPrefix"
    using assms(2) append_butlast_last_id [of t] by (metis first_head_def)
  have "has_prefix (map lower_byte (t @ r)) headOpenPrefix" using pre by (auto simp: has_prefix_iff)
  then have "index_of headOpenPrefix (map lower_byte (a @ t @ r)) = Some (length a)"
    using first by (simp add: index_of_Some)
  moreover have "index_of [0x3E] (t @ r) = Some (length body)"
  proof -
    have "\<not> has_prefix (drop j (t @ r)) [0x3E]" if "j < length body" for j
      using that t(1) nth_mem [OF that] t(2) has_prefix_byte [of j "t @ r" "0x3E"] by (simp add: nth_append) (metis nth_mem)
    moreover have "has_prefix (drop (length body) (t @ r)) [0x3E]" by (simp add: t(1) has_prefix_def)
    ultimately show ?thesis by (simp add: index_of_Some t(1))
  qed
  ultimately have "open_tag_end (map lower_byte (a @ t @ r)) (a @ t @ r) headOpenPrefix = Some (Some (length (a @ t)))"
    by (simp add: open_tag_end_def gslice_def t(1))
  then show ?thesis
    using spliceAt_append [of "a @ t" r csp] lower_ascii [OF assms(1), of ul] by (simp add: injectCSPFirst_def)
qed

text \<open>On an ASCII page the policy that forbids scripts stands directly behind the first opening \<open>head\<close> tag, so the
  whole rest of the page, and every script in it, comes after the policy; the rendered page is the uploaded
  one with that policy and one style element put in and nothing removed or changed, whatever the print options.\<close>

theorem policy_precedes_page:
  assumes "ascii (a @ t @ r)" "first_head a t r"
  shows "\<exists>out pre post. render ul opt (a @ t @ r) = Some out \<and> out = pre @ bytes_of cspNoScriptMeta @ post
    \<and> (inserted (buildPrintCSS opt) (a @ t) pre \<and> post = r \<or> pre = a @ t \<and> inserted (buildPrintCSS opt) r post)"
  using css_around_csp [of "a @ t" r ul "buildPrintCSS opt"] csp_behind_head [OF assms, of ul cspNoScriptMeta] assms(1)
  by (simp add: render_def)

definition demo_page :: "bytes list" where
  "demo_page = map bytes_of [''<!DOCTYPE html><HTML>'', ''<HEAD lang=en>'', ''<script>x()</script></head></html>'']"

lemma demo_page_head:
  "ascii (concat demo_page) \<and> first_head (demo_page ! 0) (demo_page ! 1) (demo_page ! 2)"
  by code_simp

text \<open>
  What the search does not see: a \<open>header\<close> element or a comment counts as the opening tag, and the policy
  lands behind a script, or inside the comment.
\<close>

theorem policy_behind_script:
  "injectCSPFirst ul (bytes_of ''<html><script>x()</script><header>'') csp
     = Some (bytes_of ''<html><script>x()</script><header>'' @ bytes_of csp)"
  by (code_simp, simp)

theorem policy_inside_comment:
  "injectCSPFirst ul (bytes_of ''<!--<head>--><script>x()</script>'') csp
     = Some (bytes_of ''<!--<head>'' @ bytes_of csp @ bytes_of ''--><script>x()</script>'')"
  by code_simp

text \<open>
  On a page with letters whose lower case is longer in UTF-8, such as U+023A with U+2C65, the position found in
  the copy lies behind the end of the page, and the slice panics.
\<close>

lemma encode_ascii: "b < 0x80 \<Longrightarrow> encode_rune (unat b) = [b]"
proof -
  assume "b < 0x80"
  then have "unat b \<le> 0x7F" by (simp add: word_less_nat_alt)
  then show ?thesis by (simp add: encode_rune_def)
qed

lemma lower_byte_ascii: "a < 0x80 \<Longrightarrow> lower_byte a < 0x80"
  by (auto simp: lower_byte_def word_less_nat_alt word_le_nat_alt unat_word_ariths)

text \<open>A case mapping that is the usual one on ASCII.\<close>

lemma map_runes_ascii:
  assumes "\<And>r. r < 0x80 \<Longrightarrow> ul r = unat (lower_byte (of_nat r))" "a < 0x80"
  shows "map_runes ul (a # r) = lower_byte a # map_runes ul r"
proof -
  have "ul (unat a) = unat (lower_byte a)" using assms(1) [of "unat a"] assms(2) by (simp add: word_less_nat_alt)
  then show ?thesis using assms(2) by (simp add: decode_rune_def encode_ascii lower_byte_ascii)
qed

lemma map_runes_23A:
  assumes "ul 0x23A = 0x2C65"
  shows "map_runes ul (0xC8 # 0xBA # r) = 0xE2 # 0xB1 # 0xA5 # map_runes ul r"
proof -
  have "encode_rune 0x2C65 = [0xE2, 0xB1, 0xA5]" by (simp add: encode_rune_def)
  then show ?thesis using assms by (simp add: decode_rune_def cont_def)
qed

theorem lower_case_offset_panics:
  assumes "ul 0x23A = 0x2C65" "\<And>r. r < 0x80 \<Longrightarrow> ul r = unat (lower_byte (of_nat r))"
  shows "injectCSPFirst ul ([0x3C, 0x68, 0x74, 0x6D, 0x6C, 0x3E, 0xC8, 0xBA, 0xC8, 0xBA, 0xC8, 0xBA, 0xC8, 0xBA, 0xC8, 0xBA,
      0xC8, 0xBA, 0xC8, 0xBA, 0x3C, 0x68, 0x65, 0x61, 0x64, 0x3E]) csp = None"
    (is "injectCSPFirst ul ?page csp = None")
proof -
  have "bytes_ToLower ul ?page = [0x3C, 0x68, 0x74, 0x6D, 0x6C, 0x3E, 0xE2, 0xB1, 0xA5, 0xE2, 0xB1, 0xA5, 0xE2, 0xB1, 0xA5,
      0xE2, 0xB1, 0xA5, 0xE2, 0xB1, 0xA5, 0xE2, 0xB1, 0xA5, 0xE2, 0xB1, 0xA5, 0x3C, 0x68, 0x65, 0x61, 0x64, 0x3E]"
    by (simp add: bytes_ToLower_def ascii_def map_runes_ascii [where ul = ul, OF assms(2)] map_runes_23A [where ul = ul, OF assms(1)] lower_byte_def
        del: map_runes.simps(2))
  moreover have "index_of headOpenPrefix ([0x3C, 0x68, 0x74, 0x6D, 0x6C, 0x3E, 0xE2, 0xB1, 0xA5, 0xE2, 0xB1, 0xA5, 0xE2, 0xB1, 0xA5,
      0xE2, 0xB1, 0xA5, 0xE2, 0xB1, 0xA5, 0xE2, 0xB1, 0xA5, 0xE2, 0xB1, 0xA5, 0x3C, 0x68, 0x65, 0x61, 0x64, 0x3E] :: bytes) = Some 27"
    by code_simp
  ultimately show ?thesis by (simp add: injectCSPFirst_def open_tag_end_def gslice_def)
qed

end
