(* ===== verification/Engines.thy ===== *)
theory Engines
  imports Exec Render
begin

text \<open>
  The image, document, HTML and transcription engines: \<open>libvips.go\<close>, \<open>libreoffice.go\<close> with \<open>verapdf.go\<close>,
  \<open>chromium.go\<close> and \<open>whisper.go\<close>, over \<open>exec.go\<close>. They act on a machine: the files it holds and the commands
  it has started. What a program does to the files, prints and returns is the parameter \<open>process_of\<close>; any
  call of the operating system may fail as \<open>os_fails\<close> says.
\<close>

subsection \<open>The machine\<close>

datatype exec_result = StartFailed go_error | Killed go_error | Exited string string "go_error option"

record veraPDFReport =
  FailedToParse :: int
  OutOfMemory :: int
  VeraExceptions :: int
  FailedJobs :: int
  report_jobs :: "(bool \<times> (string \<times> string list) list) list"

record os_env =
  process_of :: "string \<Rightarrow> string list \<Rightarrow> (string \<rightharpoonup> bytes) \<Rightarrow> exec_result \<times> (string \<rightharpoonup> bytes)"
  os_fails :: "string \<Rightarrow> string \<Rightarrow> go_error option"
  not_exist :: go_error
  zip_reader :: "bytes \<Rightarrow> zip_file list option"
  xml_decode :: "string \<Rightarrow> go_error + veraPDFReport"
  opts_text :: "opts_error \<Rightarrow> string"
  quote_text :: "string \<Rightarrow> string"
  unicode_lower :: "nat \<Rightarrow> nat"
  time_left :: "int option"
  model_override :: string
  model_setting :: string
  threads_setting :: int
  cpu_count :: int

record machine =
  disk :: "string \<Rightarrow> bytes option"
  started :: "(string \<times> string list) list"

subsection \<open>Commands\<close>

text \<open>\<open>runCommand\<close>: standard output and the error; the output comes back from a command that failed, too.\<close>

definition run_command :: "os_env \<Rightarrow> string \<Rightarrow> string list \<Rightarrow> machine \<Rightarrow> (string \<times> go_error option) \<times> machine" where
  "run_command env nm args m =
     (case process_of env nm args (disk m) of
        (p, d) \<Rightarrow>
          ((case p of
              StartFailed e \<Rightarrow> ([], Some (wrapped (''start '' @ nm) e))
            | Killed e \<Rightarrow> ([], Some (wrapped (nm @ '' killed'') e))
            | Exited out err None \<Rightarrow> (out, None)
            | Exited out err (Some e) \<Rightarrow>
                (out, Some \<lparr>Error = nm @ '' failed: '' @ Error e @ '': '' @ err, chain_of = chain_of e\<rparr>)),
           m\<lparr>disk := d, started := started m @ [(nm, args)]\<rparr>))"

text \<open>A call that only looks at the error.\<close>

definition run_tool :: "os_env \<Rightarrow> string \<Rightarrow> string list \<Rightarrow> (machine, unit) action" where
  "run_tool env nm args m =
     (case run_command env nm args m of
        ((_, Some e), m') \<Rightarrow> (Inl e, m')
      | ((_, None), m') \<Rightarrow> (Inr (), m'))"

subsection \<open>Files\<close>

definition existing :: "os_env \<Rightarrow> string \<Rightarrow> string \<Rightarrow> (machine, bytes) action" where
  "existing env op path m =
     ((case os_fails env op path of
         Some e \<Rightarrow> Inl e
       | None \<Rightarrow> (case disk m path of None \<Rightarrow> Inl (not_exist env) | Some b \<Rightarrow> Inr b)), m)"

definition stat_size :: "os_env \<Rightarrow> string \<Rightarrow> (machine, nat) action" where
  "stat_size env path = then_run (existing env ''stat'' path) (\<lambda>b. ret (Inr (length b)))"

definition MkdirAll :: "os_env \<Rightarrow> string \<Rightarrow> (machine, unit) action" where
  "MkdirAll env path m = ((case os_fails env ''mkdir'' path of Some e \<Rightarrow> Inl e | None \<Rightarrow> Inr ()), m)"

definition WriteFile :: "os_env \<Rightarrow> string \<Rightarrow> bytes \<Rightarrow> (machine, unit) action" where
  "WriteFile env path b m =
     (case os_fails env ''write'' path of
        Some e \<Rightarrow> (Inl e, m)
      | None \<Rightarrow> (Inr (), m\<lparr>disk := (disk m)(path := Some b)\<rparr>))"

definition Rename :: "os_env \<Rightarrow> string \<Rightarrow> string \<Rightarrow> (machine, unit) action" where
  "Rename env src dst =
     then_run (existing env ''rename'' src)
       (\<lambda>b m. (Inr (), m\<lparr>disk := (disk m)(src := None, dst := Some b)\<rparr>))"

subsection \<open>Images\<close>

definition libvips_Convert :: "os_env \<Rightarrow> string \<Rightarrow> string \<Rightarrow> opts \<Rightarrow> (machine, unit) action" where
  "libvips_Convert env inPath outPath _ = wrapping ''libvips'' (run_tool env ''vips'' [''copy'', inPath, outPath])"

subsection \<open>PDF/A validation\<close>

definition maxSummaryChars :: nat where "maxSummaryChars = 500"

definition add_check :: "string \<Rightarrow> string \<Rightarrow> string \<Rightarrow> string" where
  "add_check clause msg b =
     (if msg = [] then b else (if b \<noteq> [] then b @ ''; '' else b) @ clause @ '': '' @ msg)"

definition violations :: "(string \<times> string list) list \<Rightarrow> string" where
  "violations rules = fold (\<lambda>(clause, msgs) b. fold (add_check clause) msgs b) rules []"

definition parseVeraPDFReport :: "os_env \<Rightarrow> string \<Rightarrow> go_error + bool \<times> string" where
  "parseVeraPDFReport env raw =
     (case xml_decode env raw of
        Inl e \<Rightarrow> Inl (wrapped ''parse machine-readable report'' e)
      | Inr rep \<Rightarrow>
          if 0 < FailedToParse rep \<or> 0 < OutOfMemory rep \<or> 0 < VeraExceptions rep \<or> 0 < FailedJobs rep
          then Inl (fault [] (''batch summary reports a validator failure (failedToParse='' @ itoa (FailedToParse rep)
            @ '' outOfMemory='' @ itoa (OutOfMemory rep) @ '' veraExceptions='' @ itoa (VeraExceptions rep)
            @ '' failedJobs='' @ itoa (FailedJobs rep) @ '')''))
          else (case report_jobs rep of
                  [] \<Rightarrow> Inl (fault [] ''report contains no job entries'')
                | (compliant, rules) # _ \<Rightarrow>
                    if compliant then Inr (True, [])
                    else (let s = violations rules
                          in Inr (False, if maxSummaryChars < length s then take maxSummaryChars s @ ''...(truncated)'' else s))))"

definition validateReport :: "os_env \<Rightarrow> string \<Rightarrow> go_error + unit" where
  "validateReport env raw =
     (case parseVeraPDFReport env raw of
        Inl e \<Rightarrow> Inl (wrapped ''verapdf: pdf/a validation error'' e)
      | Inr (compliant, summary) \<Rightarrow>
          if \<not> compliant then Inl (fault [] (''verapdf: pdf/a non-compliant: '' @ summary)) else Inr ())"

definition verapdf_args :: "string \<Rightarrow> string list" where
  "verapdf_args path = [''-f'', ''2b'', ''--format'', ''xml'', path]"

definition ValidatePDFA :: "os_env \<Rightarrow> string \<Rightarrow> (machine, unit) action" where
  "ValidatePDFA env path m =
     (case run_command env ''verapdf'' (verapdf_args path) m of
        ((out, runErr), m') \<Rightarrow>
          (case runErr of
             Some e \<Rightarrow> if out = [] then (Inl (wrapped ''verapdf: pdf/a validation error'' e), m') else (validateReport env out, m')
           | None \<Rightarrow> (validateReport env out, m')))"

subsection \<open>Documents\<close>

definition pdfMagic :: bytes where "pdfMagic = bytes_of ''%PDF-''"
definition gtsPDFAMarker :: bytes where "gtsPDFAMarker = bytes_of ''/GTS_PDFA''"

definition refuse :: "string \<Rightarrow> (machine, 'a) action" where
  "refuse msg = ret (Inl (fault [] msg))"

definition validatePDF :: "os_env \<Rightarrow> string \<Rightarrow> (machine, unit) action" where
  "validatePDF env path =
     then_run (wrapping ''libreoffice: stat output'' (stat_size env path)) (\<lambda>n.
       if n = 0 then refuse ''libreoffice: output is empty''
       else if n < length pdfMagic then refuse ''libreoffice: output missing %PDF- magic bytes''
       else then_run (wrapping ''libreoffice: open output'' (existing env ''open'' path)) (\<lambda>_.
            then_run (wrapping ''libreoffice: read output header'' (existing env ''read'' path)) (\<lambda>b.
              if take (length pdfMagic) b \<noteq> pdfMagic then refuse ''libreoffice: output missing %PDF- magic bytes''
              else ret (Inr ()))))"

definition validateDocumentOutput :: "os_env \<Rightarrow> string \<Rightarrow> string \<Rightarrow> bool \<Rightarrow> (machine, unit) action" where
  "validateDocumentOutput env path targetFormat wantPDFA =
     (let target = NormalizeFormat targetFormat
      in if target = ''pdf'' then
           then_run (validatePDF env path) (\<lambda>_.
             if \<not> wantPDFA then ret (Inr ())
             else then_run (wrapping ''libreoffice: read output for PDF/A check'' (existing env ''read'' path)) (\<lambda>b.
               if index_of gtsPDFAMarker b = None then refuse ''libreoffice: output missing PDF/A OutputIntent marker''
               else wrapping ''libreoffice'' (ValidatePDFA env path)))
         else
           then_run (wrapping ''libreoffice: stat output'' (stat_size env path)) (\<lambda>n.
             if n = 0 then refuse ''libreoffice: output is empty''
             else then_run (wrapping ''libreoffice: open output'' (existing env ''open'' path)) (\<lambda>b.
               case SniffContainer (zip_reader env b) of
                 Some cr \<Rightarrow>
                   if cr_Format cr = target then ret (Inr ())
                   else refuse (''libreoffice: output does not match expected container format '' @ targetFormat)
               | None \<Rightarrow> refuse (''libreoffice: output does not match expected container format '' @ targetFormat))))"

definition TrimSuffix :: "string \<Rightarrow> string \<Rightarrow> string" where
  "TrimSuffix s suf = (if has_prefix (rev s) (rev suf) then take (length s - length suf) s else s)"

definition soffice_args :: "string \<Rightarrow> string \<Rightarrow> string \<Rightarrow> string list" where
  "soffice_args workDir convertTo inPath =
     [''--headless'', ''--invisible'', ''--nocrashreport'', ''--nodefault'', ''--nologo'', ''--nofirststartwizard'',
      ''--norestore'', ''-env:UserInstallation=file://'' @ filepath_Join workDir ''lo-profile'',
      ''--convert-to'', convertTo, ''--outdir'', workDir, inPath]"

definition producedPath :: "string \<Rightarrow> string \<Rightarrow> string \<Rightarrow> string" where
  "producedPath workDir inPath target =
     filepath_Join workDir (TrimSuffix (path_Base inPath) (path_Ext inPath) @ ''.'' @ target)"

definition of_parsed :: "os_env \<Rightarrow> opts_error + 'a \<Rightarrow> go_error + 'a" where
  "of_parsed env r = (case r of Inl e \<Rightarrow> Inl (fault [] (opts_text env e)) | Inr v \<Rightarrow> Inr v)"

definition libreoffice_Convert :: "os_env \<Rightarrow> string \<Rightarrow> string \<Rightarrow> opts \<Rightarrow> (machine, unit) action" where
  "libreoffice_Convert env inPath outPath raw =
     (let workDir = filepath_Dir outPath
      in then_run (wrapping ''libreoffice: mkdir profile'' (MkdirAll env (filepath_Join workDir ''lo-profile''))) (\<lambda>_.
         then_run (wrapping ''libreoffice'' (ret (of_parsed env (DocOptsFromMap raw)))) (\<lambda>docOpts.
         let (suffix, isPDFA) = PDFAFilterOptions docOpts; target = NormalizeFormat (path_Ext outPath)
         in if isPDFA \<and> target \<noteq> ''pdf''
            then refuse (''libreoffice: pdf_profile requested for non-pdf target '' @ quote_text env target)
            else (case filterFor (path_Ext inPath) (path_Ext outPath) of
                    Inl msg \<Rightarrow> refuse (''libreoffice: '' @ msg)
                  | Inr flt \<Rightarrow>
                      (let convertTo = target @ '':'' @ flt @ (if isPDFA then '':'' @ suffix else []);
                           produced = producedPath workDir inPath target
                       in then_run (wrapping ''libreoffice'' (run_tool env ''soffice'' (soffice_args workDir convertTo inPath))) (\<lambda>_.
                          then_run (\<lambda>m. case existing env ''stat'' produced m of
                              (Inl e, m') \<Rightarrow> (Inl (fault [] (''libreoffice: produced no output file for ''
                                @ quote_text env target @ '': '' @ Error e)), m')
                            | (Inr _, m') \<Rightarrow> (Inr (), m')) (\<lambda>_.
                          then_run (wrapping ''libreoffice: rename output'' (Rename env produced outPath)) (\<lambda>_.
                          validateDocumentOutput env outPath target isPDFA))))))))"

subsection \<open>HTML\<close>

definition chromium_args :: "string \<Rightarrow> string \<Rightarrow> string list" where
  "chromium_args workDir outPath =
     [''--headless'', ''--disable-gpu'', ''--no-sandbox'', ''--disable-dev-shm-usage'', ''--no-pdf-header-footer'',
      ''--user-data-dir='' @ filepath_Join workDir ''chrome-profile'', ''--proxy-server=127.0.0.1:9'',
      ''--proxy-bypass-list=<-loopback>'', ''--host-resolver-rules=MAP * ~NOTFOUND'', ''--print-to-pdf='' @ outPath,
      ''file://'' @ filepath_Join workDir ''rendered.html'']"

text \<open>The result \<open>None\<close> is a panic of the injection.\<close>

definition chromium_Convert :: "os_env \<Rightarrow> string \<Rightarrow> string \<Rightarrow> opts \<Rightarrow> (machine, unit option) action" where
  "chromium_Convert env inPath outPath raw =
     (let workDir = filepath_Dir outPath
      in then_run (wrapping ''chromium'' (ret (of_parsed env (HTMLOptsFromMap raw)))) (\<lambda>opt.
         then_run (wrapping ''chromium: read input'' (existing env ''read'' inPath)) (\<lambda>input.
           case render (unicode_lower env) opt input of
             None \<Rightarrow> ret (Inr None)
           | Some rendered \<Rightarrow>
               then_run (wrapping ''chromium: write rendered html'' (WriteFile env (filepath_Join workDir ''rendered.html'') rendered)) (\<lambda>_.
               then_run (wrapping ''chromium'' (run_tool env ''chromium-headless-shell'' (chromium_args workDir outPath))) (\<lambda>_.
               then_run (wrapping ''chromium'' (validatePDF env outPath)) (\<lambda>_. ret (Inr (Some ()))))))))"

subsection \<open>Transcription\<close>

definition audioThreadCount :: "os_env \<Rightarrow> int" where
  "audioThreadCount env = (if 0 < threads_setting env then threads_setting env else cpu_count env)"

definition minFfmpegBudget :: int where "minFfmpegBudget = 30 * Second"
definition minFfmpegBudgetVideo :: int where "minFfmpegBudgetVideo = 90 * Second"

definition videoSourceFormats :: "string list" where
  "videoSourceFormats = [''mp4'', ''mov'', ''avi'', ''mkv'', ''webm'']"

definition selectMinFfmpegBudget :: "string \<Rightarrow> int" where
  "selectMinFfmpegBudget inPath =
     (if NormalizeFormat (path_Ext inPath) \<in> set videoSourceFormats then minFfmpegBudgetVideo else minFfmpegBudget)"

definition defaultAudioModelPath :: string where "defaultAudioModelPath = ''/models/ggml-base.bin''"

definition audio_model :: "os_env \<Rightarrow> string" where
  "audio_model env =
     (if model_override env \<noteq> [] then model_override env
      else if model_setting env \<noteq> [] then model_setting env else defaultAudioModelPath)"

text \<open>A nil flag list is \<open>None\<close>.\<close>

definition whisperOutputFlag :: "string \<Rightarrow> string list option" where
  "whisperOutputFlag target =
     (if target = ''txt'' then Some [''-otxt''] else if target = ''srt'' then Some [''-osrt'']
      else if target = ''vtt'' then Some [''-ovtt''] else if target = ''json'' then Some [''-ojf''] else None)"

definition ffmpegNormalizeArgs :: "string \<Rightarrow> string \<Rightarrow> string list" where
  "ffmpegNormalizeArgs inPath normPath =
     [''-y'', ''-nostdin'', ''-protocol_whitelist'', ''file,crypto'', ''-i'', ''file:'' @ inPath, ''-map'', ''0:a:0'',
      ''-ar'', ''16000'', ''-ac'', ''1'', ''-c:a'', ''pcm_s16le'', ''file:'' @ normPath]"

definition whisperArgs :: "string \<Rightarrow> string \<Rightarrow> string \<Rightarrow> string list \<Rightarrow> AudioOpts \<Rightarrow> int \<Rightarrow> string list" where
  "whisperArgs model normPath outBase outFlags opt threads =
     [''-m'', model, ''-f'', normPath, ''-of'', outBase] @ outFlags
     @ [''-l'', if Language opt = [] then ''auto'' else Language opt]
     @ (if Translate opt then [''-tr''] else []) @ [''-t'', itoa threads]"

definition validateAudioOutput :: "os_env \<Rightarrow> string \<Rightarrow> (machine, unit) action" where
  "validateAudioOutput env path =
     then_run (wrapping ''audio: stat output'' (stat_size env path)) (\<lambda>n.
       if n = 0 then refuse ''audio: output is empty'' else ret (Inr ()))"

definition no_budget :: go_error where
  "no_budget = fault [DeadlineExceeded] ''audio: insufficient attempt budget remaining: context deadline exceeded''"

definition audio_Convert :: "os_env \<Rightarrow> string \<Rightarrow> string \<Rightarrow> opts \<Rightarrow> (machine, unit) action" where
  "audio_Convert env inPath outPath raw =
     then_run (wrapping ''audio'' (ret (of_parsed env (AudioOptsFromMap raw)))) (\<lambda>opt.
       let target = NormalizeFormat (path_Ext outPath)
       in case whisperOutputFlag target of
            None \<Rightarrow> refuse (''audio: unsupported target format '' @ quote_text env target)
          | Some outFlags \<Rightarrow>
              (let normPath = filepath_Join (filepath_Dir outPath) ''norm.wav''
               in if (case time_left env of None \<Rightarrow> False | Some t \<Rightarrow> t < selectMinFfmpegBudget inPath) then ret (Inl no_budget)
                  else then_run (wrapping ''audio: ffmpeg'' (run_tool env ''ffmpeg'' (ffmpegNormalizeArgs inPath normPath))) (\<lambda>_.
                       then_run (wrapping ''audio: whisper-cli'' (run_tool env ''whisper-cli''
                         (whisperArgs (audio_model env) normPath (TrimSuffix outPath (path_Ext outPath)) outFlags opt (audioThreadCount env)))) (\<lambda>_.
                       validateAudioOutput env outPath))))"

subsection \<open>What the checks guarantee\<close>

lemma existing_run: "existing env op path m = (r, m') \<Longrightarrow> m' = m"
  by (simp add: existing_def)

lemma existing_ok [simp]: "existing env op path m = (Inr b, m') \<longleftrightarrow> m' = m \<and> os_fails env op path = None \<and> disk m path = Some b"
  by (auto simp: existing_def split: option.splits)

lemma stat_size_ok [simp]:
  "stat_size env path m = (Inr n, m') \<longleftrightarrow> m' = m \<and> os_fails env ''stat'' path = None \<and> (\<exists>b. disk m path = Some b \<and> n = length b)"
  by (auto simp: stat_size_def then_run_def existing_def split: option.splits)

lemma refuse_apply [simp]: "refuse msg m = (Inl (fault [] msg), m)"
  by (simp add: refuse_def)

lemma run_tool_started: "run_tool env nm args m = (r, m') \<Longrightarrow> started m' = started m @ [(nm, args)]"
  by (auto simp: run_tool_def run_command_def split: prod.splits exec_result.splits option.splits)

lemma validatePDF_ok:
  assumes "validatePDF env path m = (Inr (), m')"
  shows "m' = m \<and> (\<exists>b. disk m path = Some b \<and> has_prefix b pdfMagic)"
  using assms by (auto simp: validatePDF_def has_prefix_def elim!: then_run_InrE split: if_splits)

definition report_compliant :: "os_env \<Rightarrow> string \<Rightarrow> bool" where
  "report_compliant env out \<longleftrightarrow>
     (\<exists>rep rules rest. xml_decode env out = Inr rep \<and> FailedToParse rep \<le> 0 \<and> OutOfMemory rep \<le> 0
        \<and> VeraExceptions rep \<le> 0 \<and> FailedJobs rep \<le> 0 \<and> report_jobs rep = (True, rules) # rest)"

lemma validateReport_ok: "validateReport env out = Inr () \<longleftrightarrow> report_compliant env out"
  by (auto simp: validateReport_def parseVeraPDFReport_def report_compliant_def Let_def not_less
      split: sum.splits list.splits if_splits)

text \<open>A non-compliant or unverifiable claim is never a success, whatever the exit status.\<close>

lemma ValidatePDFA_ok:
  assumes "ValidatePDFA env path m = (Inr (), m')"
  shows "\<exists>out err. run_command env ''verapdf'' (verapdf_args path) m = ((out, err), m') \<and> report_compliant env out"
  using assms by (auto simp: ValidatePDFA_def validateReport_ok split: prod.splits option.splits if_splits)

definition valid_document :: "os_env \<Rightarrow> string \<Rightarrow> bytes \<Rightarrow> bool" where
  "valid_document env target b \<longleftrightarrow>
     (if target = ''pdf'' then has_prefix b pdfMagic
      else b \<noteq> [] \<and> (\<exists>cr. SniffContainer (zip_reader env b) = Some cr \<and> cr_Format cr = target))"

lemma validateDocumentOutput_ok:
  assumes "validateDocumentOutput env path target pdfa m = (Inr (), m')" "NormalizeFormat target = target"
  shows "\<exists>b. disk m path = Some b \<and> valid_document env target b
    \<and> (if target = ''pdf'' \<and> pdfa
       then index_of gtsPDFAMarker b \<noteq> None
         \<and> (\<exists>out err. run_command env ''verapdf'' (verapdf_args path) m = ((out, err), m') \<and> report_compliant env out)
       else m' = m)"
proof (cases "target = ''pdf''")
  case True
  then show ?thesis using assms
    by (auto simp: validateDocumentOutput_def valid_document_def elim!: then_run_InrE
        dest!: validatePDF_ok ValidatePDFA_ok split: if_splits)
next
  case False
  then show ?thesis using assms
    by (auto simp: validateDocumentOutput_def valid_document_def elim!: then_run_InrE split: if_splits option.splits)
qed

lemma filterFor_target:
  assumes "filterFor src tgt = Inr flt"
  shows "NormalizeFormat (NormalizeFormat tgt) = NormalizeFormat tgt" "NormalizeFormat tgt \<noteq> []"
proof -
  have "(NormalizeFormat src, NormalizeFormat tgt) \<in> fst ` set filterTable"
    using assms by (auto simp: filterFor_def image_iff split: option.splits dest!: map_of_SomeD intro!: bexI)
  then have "NormalizeFormat tgt \<in> set [''pdf'', ''odt'', ''docx'', ''ods'', ''xlsx'', ''odp'', ''pptx'']"
    by (auto simp: filterTable_def)
  moreover have "list_all (\<lambda>t. NormalizeFormat t = t) [''pdf'', ''odt'', ''docx'', ''ods'', ''xlsx'', ''odp'', ''pptx'']"
    by code_simp
  ultimately show "NormalizeFormat (NormalizeFormat tgt) = NormalizeFormat tgt" "NormalizeFormat tgt \<noteq> []"
    by (auto simp: list_all_iff)
qed

text \<open>C30: A document conversion only succeeds with the document that was asked for: \<open>soffice\<close> ran once, in its own profile, with
  the export filter of the pair; the file at the output path is then a PDF by its magic bytes, or a container that
  the detector of uploads recognises as the target format; and when PDF/A was requested the target is a PDF with the output-intent
  marker for which the validator reported compliance without any failure counted, whatever its exit status.\<close>

theorem document_success_valid:
  assumes "libreoffice_Convert env inPath outPath raw m = (Inr (), m')"
  shows "\<exists>opt flt b m1. DocOptsFromMap raw = Inr opt \<and> filterFor (path_Ext inPath) (path_Ext outPath) = Inr flt
    \<and> started m1 = started m @ [(''soffice'', soffice_args (filepath_Dir outPath)
         (NormalizeFormat (path_Ext outPath) @ '':'' @ flt
            @ (if PDFProfile opt = pdfProfileA2b then '':'' @ pdfaFilterOptionsSuffix else [])) inPath)]
    \<and> disk m1 outPath = Some b \<and> valid_document env (NormalizeFormat (path_Ext outPath)) b
    \<and> (if PDFProfile opt = pdfProfileA2b
       then NormalizeFormat (path_Ext outPath) = ''pdf'' \<and> index_of gtsPDFAMarker b \<noteq> None
         \<and> (\<exists>out err. run_command env ''verapdf'' (verapdf_args outPath) m1 = ((out, err), m') \<and> report_compliant env out)
       else m' = m1)"
proof -
  let ?t = "NormalizeFormat (path_Ext outPath)"
  obtain opt where opt: "DocOptsFromMap raw = Inr opt"
    using assms by (auto simp: libreoffice_Convert_def Let_def of_parsed_def elim!: then_run_InrE split: sum.splits)
  let ?pdfa = "PDFProfile opt = pdfProfileA2b"
  let ?cv = "\<lambda>flt. ?t @ '':'' @ flt @ (if ?pdfa then '':'' @ pdfaFilterOptionsSuffix else [])"
  let ?p = "producedPath (filepath_Dir outPath) inPath ?t"
  obtain flt m0 m1 where flt: "filterFor (path_Ext inPath) (path_Ext outPath) = Inr flt"
    and pdf: "?pdfa \<longrightarrow> ?t = ''pdf''"
    and ran: "run_tool env ''soffice'' (soffice_args (filepath_Dir outPath) (?cv flt) inPath) m = (Inr (), m0)"
    and moved: "Rename env ?p outPath m0 = (Inr (), m1)"
    and valid: "validateDocumentOutput env outPath ?t ?pdfa m1 = (Inr (), m')"
    using assms opt
    by (auto simp: libreoffice_Convert_def Let_def of_parsed_def PDFAFilterOptions_def MkdirAll_def elim!: then_run_InrE
        split: if_splits sum.splits option.splits prod.splits dest!: existing_run)
  have "started m1 = started m0" using moved by (auto simp: Rename_def elim!: then_run_InrE)
  then have "started m1 = started m @ [(''soffice'', soffice_args (filepath_Dir outPath) (?cv flt) inPath)]"
    using run_tool_started [OF ran] by simp
  moreover note validateDocumentOutput_ok [OF valid filterFor_target(1) [OF flt]]
  ultimately show ?thesis using opt flt pdf by (auto split: if_splits)
qed

text \<open>C31: An HTML conversion that succeeds printed a copy of the page, not the page: the engine ran once, with every proxied,
  direct and named connection cut off, on the rendered copy written beside the output. When the page is ASCII with an opening
  \<open>head\<close> tag, the policy that forbids scripts stands in that copy directly behind the tag and before the whole rest of the
  page; apart from it and one style element without any markup the copy is the page. The output is a PDF.\<close>

theorem html_print_confined:
  assumes "chromium_Convert env inPath outPath raw m = (Inr (Some ()), m')"
  shows "\<exists>opt page copy m1 b. HTMLOptsFromMap raw = Inr opt \<and> disk m inPath = Some page
    \<and> render (unicode_lower env) opt page = Some copy
    \<and> disk m1 = (disk m)(filepath_Join (filepath_Dir outPath) ''rendered.html'' := Some copy)
    \<and> run_tool env ''chromium-headless-shell'' (chromium_args (filepath_Dir outPath) outPath) m1 = (Inr (), m')
    \<and> started m' = started m @ [(''chromium-headless-shell'', chromium_args (filepath_Dir outPath) outPath)]
    \<and> disk m' outPath = Some b \<and> has_prefix b pdfMagic
    \<and> (\<exists>css. buildPrintCSS opt = ''<style>'' @ css @ ''</style>'' \<and> CHR ''<'' \<notin> set css)
    \<and> (\<forall>a t r. page = a @ t @ r \<and> ascii page \<and> first_head a t r \<longrightarrow>
         (\<exists>pre post. copy = pre @ bytes_of cspNoScriptMeta @ post
            \<and> (inserted (buildPrintCSS opt) (a @ t) pre \<and> post = r \<or> pre = a @ t \<and> inserted (buildPrintCSS opt) r post)))"
proof -
  let ?dir = "filepath_Dir outPath"
  obtain opt page copy m1 m2 where opt: "HTMLOptsFromMap raw = Inr opt" and page: "disk m inPath = Some page"
    and copy: "render (unicode_lower env) opt page = Some copy"
    and m1: "m1 = m\<lparr>disk := (disk m)(filepath_Join ?dir ''rendered.html'' := Some copy)\<rparr>"
    and ran2: "run_tool env ''chromium-headless-shell'' (chromium_args ?dir outPath) m1 = (Inr (), m2)"
    and pdf: "validatePDF env outPath m2 = (Inr (), m')"
    using assms
    by (auto simp: chromium_Convert_def Let_def of_parsed_def WriteFile_def elim!: then_run_InrE
        split: sum.splits option.splits)
  have "m' = m2" using validatePDF_ok [OF pdf] by blast
  with ran2 have ran: "run_tool env ''chromium-headless-shell'' (chromium_args ?dir outPath) m1 = (Inr (), m')" by simp
  have "\<exists>pre post. copy = pre @ bytes_of cspNoScriptMeta @ post
      \<and> (inserted (buildPrintCSS opt) (a @ t) pre \<and> post = r \<or> pre = a @ t \<and> inserted (buildPrintCSS opt) r post)"
    if "page = a @ t @ r" "ascii page" "first_head a t r" for a t r
    using policy_precedes_page [of a t r "unicode_lower env" opt] that copy by auto
  moreover have "\<exists>css. buildPrintCSS opt = ''<style>'' @ css @ ''</style>'' \<and> CHR ''<'' \<notin> set css"
    by (rule print_css_no_markup)
  moreover have "disk m1 = (disk m)(filepath_Join ?dir ''rendered.html'' := Some copy)"
      "started m' = started m @ [(''chromium-headless-shell'', chromium_args ?dir outPath)]"
    using run_tool_started [OF ran] by (simp_all add: m1)
  moreover obtain b where "disk m' outPath = Some b" "has_prefix b pdfMagic" using validatePDF_ok [OF pdf] by blast
  ultimately show ?thesis
    using opt page copy ran
    by - (rule exI [of _ opt], rule exI [of _ page], rule exI [of _ copy], rule exI [of _ m1], rule exI [of _ b], blast)
qed

text \<open>Messages in which a signature is found.\<close>

lemma has_prefix_more: "has_prefix s p \<Longrightarrow> has_prefix (s @ t) p"
  by (auto simp: has_prefix_iff)

lemma str_contains_more: "str_contains s sub \<Longrightarrow> str_contains (s @ t) sub"
proof (induction s)
  case Nil
  then show ?case by (cases t) (simp_all add: has_prefix_def)
next
  case (Cons c s)
  then show ?case using has_prefix_more [of "c # s" sub t] by auto
qed

lemma ToLower_append [simp]: "ToLower (s @ t) = ToLower s @ ToLower t"
  by (simp add: ToLower_def)

lemma lower_contains: "str_contains (ToLower s) sub \<Longrightarrow> str_contains (ToLower (s @ t)) sub"
  by (simp add: str_contains_more)

text \<open>How the transcription handler files an outcome.\<close>

definition audio_final :: "go_error + unit \<Rightarrow> bool" where
  "audio_final r = (case r of Inl e \<Rightarrow> isAudioTerminal (Some (wrapped ''convert'' e)) | Inr _ \<Rightarrow> False)"

lemma ffmpeg_failure_final: "audio_final (Inl (wrapped ''audio: ffmpeg'' e))"
proof -
  have "str_contains (ToLower (''convert: audio: ffmpeg: '')) ''audio: ffmpeg:''" by code_simp
  from lower_contains [OF this, of "Error e"] show ?thesis
    by (simp add: audio_final_def isAudioTerminal_def wrapped_def Let_def)
qed

lemma output_failure_final: "audio_final (Inl (wrapped ''audio: stat output'' e)) \<and> audio_final (Inl (fault [] ''audio: output is empty''))"
proof -
  have "str_contains (ToLower (''convert: audio: stat output: '')) ''audio: stat output''" by code_simp
  from lower_contains [OF this, of "Error e"] have "audio_final (Inl (wrapped ''audio: stat output'' e))"
    by (simp add: audio_final_def isAudioTerminal_def wrapped_def Let_def terminalAudioSignatures_def)
  moreover have "audio_final (Inl (fault [] ''audio: output is empty''))" by code_simp
  ultimately show ?thesis by simp
qed

lemma no_budget_retried: "\<not> audio_final (Inl no_budget)"
  by code_simp

text \<open>The two stages of a transcription.\<close>

definition normalize_cmd :: "string \<Rightarrow> string \<Rightarrow> string list" where
  "normalize_cmd inPath outPath = ffmpegNormalizeArgs inPath (filepath_Join (filepath_Dir outPath) ''norm.wav'')"

definition whisper_cmd :: "os_env \<Rightarrow> string \<Rightarrow> string list \<Rightarrow> AudioOpts \<Rightarrow> string list" where
  "whisper_cmd env outPath flags opt =
     whisperArgs (audio_model env) (filepath_Join (filepath_Dir outPath) ''norm.wav'')
       (TrimSuffix outPath (path_Ext outPath)) flags opt (audioThreadCount env)"

text \<open>C32: A transcription is done only with a non-empty transcript, after exactly two commands: a normalisation that confines reads
  to local files and a transcription that always names the language and the number of threads. An attempt whose remaining time is below the
  floor of its source starts nothing and is retried; a failed normalisation, for whatever reason, and a clean run
  without a transcript are final.\<close>

theorem audio_attempt:
  assumes "AudioOptsFromMap raw = Inr opt" "whisperOutputFlag (NormalizeFormat (path_Ext outPath)) = Some flags"
    and "audio_Convert env inPath outPath raw m = (r, m')"
  shows "(r = Inr () \<longrightarrow> (\<exists>b. disk m' outPath = Some b \<and> b \<noteq> [])
        \<and> started m' = started m @ [(''ffmpeg'', normalize_cmd inPath outPath), (''whisper-cli'', whisper_cmd env outPath flags opt)])
    \<and> ((\<exists>t. time_left env = Some t \<and> t < selectMinFfmpegBudget inPath) \<longrightarrow> m' = m \<and> r = Inl no_budget \<and> \<not> audio_final r)
    \<and> (\<not> (\<exists>t. time_left env = Some t \<and> t < selectMinFfmpegBudget inPath) \<longrightarrow>
         (\<forall>e m1. run_tool env ''ffmpeg'' (normalize_cmd inPath outPath) m = (Inl e, m1) \<longrightarrow> m' = m1 \<and> audio_final r)
       \<and> (\<forall>m1 m2. run_tool env ''ffmpeg'' (normalize_cmd inPath outPath) m = (Inr (), m1)
            \<and> run_tool env ''whisper-cli'' (whisper_cmd env outPath flags opt) m1 = (Inr (), m2)
            \<and> (disk m2 outPath = None \<or> disk m2 outPath = Some []) \<longrightarrow> audio_final r))"
proof -
  have run: "audio_Convert env inPath outPath raw m =
      (if \<exists>t. time_left env = Some t \<and> t < selectMinFfmpegBudget inPath then (Inl no_budget, m)
       else then_run (wrapping ''audio: ffmpeg'' (run_tool env ''ffmpeg'' (normalize_cmd inPath outPath))) (\<lambda>_.
            then_run (wrapping ''audio: whisper-cli'' (run_tool env ''whisper-cli'' (whisper_cmd env outPath flags opt))) (\<lambda>_.
            validateAudioOutput env outPath)) m)"
    using assms(1,2) by (simp add: audio_Convert_def of_parsed_def Let_def then_run_def wrapping_def normalize_cmd_def whisper_cmd_def
        split: option.splits)
  have "(\<exists>b. disk m' outPath = Some b \<and> b \<noteq> [])
        \<and> started m' = started m @ [(''ffmpeg'', normalize_cmd inPath outPath), (''whisper-cli'', whisper_cmd env outPath flags opt)]"
    if "r = Inr ()"
    using assms(3) that unfolding run
    by (auto simp: validateAudioOutput_def elim!: then_run_InrE dest!: run_tool_started split: if_splits)
  moreover have "audio_final r"
    if "\<not> (\<exists>t. time_left env = Some t \<and> t < selectMinFfmpegBudget inPath)"
      "run_tool env ''ffmpeg'' (normalize_cmd inPath outPath) m = (Inr (), m1)"
      "run_tool env ''whisper-cli'' (whisper_cmd env outPath flags opt) m1 = (Inr (), m2)"
      "disk m2 outPath = None \<or> disk m2 outPath = Some []" for m1 m2
  proof -
    have "r = fst (validateAudioOutput env outPath m2)"
      using assms(3) that(1-3) unfolding run by (auto simp: then_run_def wrapping_def split: prod.splits)
    moreover have "\<exists>e. validateAudioOutput env outPath m2 \<in> {(Inl (wrapped ''audio: stat output'' e), m2), (Inl (fault [] ''audio: output is empty''), m2)}"
      using that(4) by (auto simp: validateAudioOutput_def then_run_def wrapping_def stat_size_def existing_def split: option.splits)
    ultimately show ?thesis using output_failure_final by auto
  qed
  moreover have "m' = m \<and> r = Inl no_budget \<and> \<not> audio_final r"
    if "\<exists>t. time_left env = Some t \<and> t < selectMinFfmpegBudget inPath"
    using assms(3) that no_budget_retried unfolding run by auto
  moreover have "m' = m1 \<and> audio_final r"
    if "\<not> (\<exists>t. time_left env = Some t \<and> t < selectMinFfmpegBudget inPath)"
      "run_tool env ''ffmpeg'' (normalize_cmd inPath outPath) m = (Inl e, m1)" for e m1
    using assms(3) that ffmpeg_failure_final unfolding run by (auto simp: then_run_def wrapping_def)
  ultimately show ?thesis by blast
qed

subsection \<open>A machine to run on\<close>

text \<open>Tools that do their work: each leaves the file it is asked for, the validator finds the PDF/A claim good.\<close>

definition demo_pdf :: bytes where "demo_pdf = bytes_of ''%PDF-1.7 /GTS_PDFA''"

definition demo_os :: os_env where
  "demo_os =
     \<lparr>process_of = \<lambda>nm args d. (Exited ''report'' [] None,
        if nm = ''soffice'' then d(''/w/in.pdf'' := Some demo_pdf)
        else if nm = ''chromium-headless-shell'' then d(''/w/out.pdf'' := Some demo_pdf)
        else if nm = ''whisper-cli'' then d(''/w/out.txt'' := Some [0x68, 0x69]) else d),
      os_fails = \<lambda>_ _. None, not_exist = fault [] ''file does not exist'', zip_reader = \<lambda>_. None,
      xml_decode = \<lambda>_. Inr \<lparr>FailedToParse = 0, OutOfMemory = 0, VeraExceptions = 0, FailedJobs = 0, report_jobs = [(True, [])]\<rparr>,
      opts_text = \<lambda>_. ''options'', quote_text = \<lambda>s. s, unicode_lower = \<lambda>r. r, time_left = Some (100 * Second),
      model_override = [], model_setting = [], threads_setting = 0, cpu_count = 4\<rparr>"

definition demo_files :: "string \<Rightarrow> bytes \<Rightarrow> machine" where
  "demo_files path b = \<lparr>disk = (\<lambda>_. None)(path := Some b), started = []\<rparr>"

definition archival :: opts where "archival = [(''pdf_profile'', JsonStr ''pdf/a-2b'')]"

lemma demo_conversions:
  "fst (libreoffice_Convert demo_os ''/w/in.docx'' ''/w/out.pdf'' archival (demo_files ''/w/in.docx'' [])) = Inr ()
   \<and> fst (chromium_Convert demo_os ''/w/in.html'' ''/w/out.pdf'' [] (demo_files ''/w/in.html'' (concat demo_page))) = Inr (Some ())
   \<and> fst (audio_Convert demo_os ''/w/in.mp3'' ''/w/out.txt'' [] (demo_files ''/w/in.mp3'' [])) = Inr ()
   \<and> DocOptsFromMap archival = Inr \<lparr>PDFProfile = ''pdf/a-2b''\<rparr>
   \<and> NormalizeFormat (path_Ext ''/w/out.txt'') = ''txt''"
  by code_simp

theorem document_success_valid_witness:
  "\<exists>b (m1::machine). disk m1 ''/w/out.pdf'' = Some b \<and> index_of gtsPDFAMarker b \<noteq> None
     \<and> started m1 = [(''soffice'', soffice_args (filepath_Dir ''/w/out.pdf'')
          (NormalizeFormat (path_Ext ''/w/out.pdf'') @ '':writer_pdf_Export:'' @ pdfaFilterOptionsSuffix) ''/w/in.docx'')]"
proof -
  obtain m' where run: "libreoffice_Convert demo_os ''/w/in.docx'' ''/w/out.pdf'' archival (demo_files ''/w/in.docx'' []) = (Inr (), m')"
    using demo_conversions by (metis prod.collapse)
  from document_success_valid [OF run] obtain opt flt b m1 where
    opt: "DocOptsFromMap archival = Inr opt" and flt: "filterFor (path_Ext ''/w/in.docx'') (path_Ext ''/w/out.pdf'') = Inr flt"
    and start: "started m1 = started (demo_files ''/w/in.docx'' []) @ [(''soffice'', soffice_args (filepath_Dir ''/w/out.pdf'')
       (NormalizeFormat (path_Ext ''/w/out.pdf'') @ '':'' @ flt
          @ (if PDFProfile opt = pdfProfileA2b then '':'' @ pdfaFilterOptionsSuffix else [])) ''/w/in.docx'')]"
    and doc: "disk m1 ''/w/out.pdf'' = Some b"
    and claim: "if PDFProfile opt = pdfProfileA2b
       then NormalizeFormat (path_Ext ''/w/out.pdf'') = ''pdf'' \<and> index_of gtsPDFAMarker b \<noteq> None
         \<and> (\<exists>out err. run_command demo_os ''verapdf'' (verapdf_args ''/w/out.pdf'') m1 = ((out, err), m') \<and> report_compliant demo_os out)
       else m' = m1"
    by blast
  have "PDFProfile opt = pdfProfileA2b" using opt demo_conversions by (auto simp: pdfProfileA2b_def)
  moreover have "filterFor (path_Ext ''/w/in.docx'') (path_Ext ''/w/out.pdf'') = Inr ''writer_pdf_Export''" by code_simp
  with flt have "flt = ''writer_pdf_Export''" by simp
  ultimately show ?thesis
    using start doc claim by - (rule exI [of _ b], rule exI [of _ m1], simp add: demo_files_def)
qed

theorem html_print_confined_witness:
  "\<exists>copy pre post. render (\<lambda>r. r) zero_HTMLOpts (concat demo_page) = Some copy \<and> copy = pre @ bytes_of cspNoScriptMeta @ post
     \<and> (pre = demo_page ! 0 @ demo_page ! 1 \<or> post = demo_page ! 2)"
proof -
  obtain m' where run: "chromium_Convert demo_os ''/w/in.html'' ''/w/out.pdf'' [] (demo_files ''/w/in.html'' (concat demo_page))
      = (Inr (Some ()), m')"
    using demo_conversions by (metis prod.collapse)
  have page: "concat demo_page = demo_page ! 0 @ demo_page ! 1 @ demo_page ! 2" by (simp add: demo_page_def)
  have "HTMLOptsFromMap [] = Inr zero_HTMLOpts" "disk (demo_files ''/w/in.html'' (concat demo_page)) ''/w/in.html'' = Some (concat demo_page)"
    "unicode_lower demo_os = (\<lambda>r. r)"
    by (simp_all add: HTMLOptsFromMap_def demo_files_def demo_os_def)
  with html_print_confined [OF run] obtain copy where
    "render (\<lambda>r. r) zero_HTMLOpts (concat demo_page) = Some copy"
    "ascii (concat demo_page) \<and> first_head (demo_page ! 0) (demo_page ! 1) (demo_page ! 2) \<longrightarrow>
       (\<exists>pre post. copy = pre @ bytes_of cspNoScriptMeta @ post
          \<and> (inserted (buildPrintCSS zero_HTMLOpts) (demo_page ! 0 @ demo_page ! 1) pre \<and> post = demo_page ! 2
             \<or> pre = demo_page ! 0 @ demo_page ! 1 \<and> inserted (buildPrintCSS zero_HTMLOpts) (demo_page ! 2) post))"
    by (auto simp: page)
  then show ?thesis using demo_page_head by blast
qed

theorem audio_attempt_witness:
  "\<exists>m'::machine. started m' = [(''ffmpeg'', normalize_cmd ''/w/in.mp3'' ''/w/out.txt''),
      (''whisper-cli'', whisper_cmd demo_os ''/w/out.txt'' [''-otxt''] zero_AudioOpts)] \<and> disk m' ''/w/out.txt'' \<noteq> None"
proof -
  obtain m' where run: "audio_Convert demo_os ''/w/in.mp3'' ''/w/out.txt'' [] (demo_files ''/w/in.mp3'' []) = (Inr (), m')"
    using demo_conversions by (metis prod.collapse)
  have "AudioOptsFromMap [] = Inr zero_AudioOpts" "whisperOutputFlag (NormalizeFormat (path_Ext ''/w/out.txt'')) = Some [''-otxt'']"
    using demo_conversions by (simp_all add: AudioOptsFromMap_def whisperOutputFlag_def)
  from audio_attempt [OF this run] have "started m' = started (demo_files ''/w/in.mp3'' []) @
      [(''ffmpeg'', normalize_cmd ''/w/in.mp3'' ''/w/out.txt''), (''whisper-cli'', whisper_cmd demo_os ''/w/out.txt'' [''-otxt''] zero_AudioOpts)]"
    "disk m' ''/w/out.txt'' \<noteq> None" by blast+
  then show ?thesis by - (rule exI [of _ m'], simp add: demo_files_def)
qed

end
