(* ===== verification/Mcp.thy ===== *)
theory Mcp
  imports Service Exec "HOL-Library.Multiset"
begin

text \<open>
  The client of the public API behind the MCP servers, and their tools: \<open>internal/mcpserver\<close>. A call acts on
  the files of its host, the requests it has handed to the HTTP client and the progress it has
  reported; what the \<open>k\<close>-th request is answered, the clock after it and the parsers of the standard
  library are the record \<open>mcp_env\<close>. Redirects and connections are the HTTP client's own business.
\<close>

subsection \<open>State and surroundings\<close>

record http_req =
  rq_method :: string
  rq_url :: string
  rq_auth :: "string option"
  rq_parts :: "(string \<times> string option \<times> string) list"
  rq_dial :: string

text \<open>An answer's body may break off with an error.\<close>

record http_resp =
  ans_status :: nat
  ans_body :: string
  ans_cut :: "go_error option"

datatype inode = Regular string | Irregular

record mcp_state =
  host_files :: "string \<Rightarrow> inode option"
  exchanges :: "http_req list"
  notified :: "(nat \<times> string) list"

record mcp_env =
  answered :: "nat \<Rightarrow> http_req \<Rightarrow> go_error + http_resp"
  bad_request :: "string \<Rightarrow> go_error option"
  url_path :: "string \<Rightarrow> go_error + string"
  json_first :: "string \<Rightarrow> go_error option \<Rightarrow> go_error + json"
  json_whole :: "string \<Rightarrow> json option"
  type_error :: go_error
  time_parse :: "string \<Rightarrow> time option"
  json_marshal :: "opts \<Rightarrow> string"
  quote_arg :: "string \<Rightarrow> string"
  fs_fails :: "string \<Rightarrow> string \<Rightarrow> go_error option"
  no_file :: go_error
  not_regular :: go_error
  short_write :: "string \<Rightarrow> (nat \<times> go_error) option"
  working_dir :: "go_error + string"
  clock_after :: "nat \<Rightarrow> int"
  cancelled_after :: "nat \<Rightarrow> go_error option"

type_synonym 'a call = "(mcp_state, 'a) action"

subsection \<open>Configuration\<close>

definition ResultLocal :: string where "ResultLocal = []"
definition ResultRemote :: string where "ResultRemote = ''remote''"

record mcp_config =
  cf_BaseURL :: string
  cf_APIKey :: string
  cf_OutputDir :: string
  cf_ConvertTimeout :: int
  cf_PollInterval :: int
  cf_S3DialAddr :: string
  cf_ResultMode :: string

definition envDuration :: "(string \<Rightarrow> string) \<Rightarrow> (string \<Rightarrow> int option) \<Rightarrow> string \<Rightarrow> int \<Rightarrow> int" where
  "envDuration getenv parse_duration key def =
     (if getenv key \<noteq> [] then (case parse_duration (firstField (getenv key)) of Some d \<Rightarrow> d | None \<Rightarrow> def) else def)"

definition defaultConvertTO :: int where "defaultConvertTO = 600 * Second"
definition defaultPollEvery :: int where "defaultPollEvery = Second"

text \<open>\<open>Load\<close>; an unset variable reads as the empty string.\<close>

definition mcp_Load :: "(string \<Rightarrow> string) \<Rightarrow> (string \<Rightarrow> int option) \<Rightarrow> string \<Rightarrow> go_error + mcp_config" where
  "mcp_Load getenv parse_duration tempDir =
     (if getenv ''OCTOCONV_BASE_URL'' = [] then Inl (fault [] ''missing required environment variable OCTOCONV_BASE_URL'')
      else if getenv ''OCTOCONV_API_KEY'' = [] then Inl (fault [] ''missing required environment variable OCTOCONV_API_KEY'')
      else Inr \<lparr>cf_BaseURL = getenv ''OCTOCONV_BASE_URL'', cf_APIKey = getenv ''OCTOCONV_API_KEY'',
        cf_OutputDir = (if getenv ''OCTOCONV_OUTPUT_DIR'' = [] then filepath_Join tempDir ''octoconv-mcp''
          else getenv ''OCTOCONV_OUTPUT_DIR''),
        cf_ConvertTimeout = envDuration getenv parse_duration ''OCTOCONV_CONVERT_TIMEOUT'' defaultConvertTO,
        cf_PollInterval = envDuration getenv parse_duration ''OCTOCONV_POLL_INTERVAL'' defaultPollEvery,
        cf_S3DialAddr = getenv ''OCTOCONV_S3_DIAL_ADDR'', cf_ResultMode = ResultLocal\<rparr>)"

record mcp_client =
  mc_baseURL :: string
  mc_apiKey :: string
  mc_outputDir :: string
  mc_convertTimeout :: int
  mc_pollInterval :: int
  mc_s3DialAddr :: string
  mc_resultMode :: string

definition mcp_NewClient :: "mcp_env \<Rightarrow> mcp_config \<Rightarrow> go_error + mcp_client" where
  "mcp_NewClient env cfg =
     (case (if cf_ResultMode cfg \<noteq> ResultRemote then fs_fails env ''mkdir'' (cf_OutputDir cfg) else None) of
        Some e \<Rightarrow> Inl (wrapped ''create output dir'' e)
      | None \<Rightarrow> Inr \<lparr>mc_baseURL = rev (dropWhile (\<lambda>c. c = CHR ''/'') (rev (cf_BaseURL cfg))), mc_apiKey = cf_APIKey cfg,
          mc_outputDir = cf_OutputDir cfg, mc_convertTimeout = cf_ConvertTimeout cfg,
          mc_pollInterval = cf_PollInterval cfg, mc_s3DialAddr = cf_S3DialAddr cfg, mc_resultMode = cf_ResultMode cfg\<rparr>)"

definition mcp_NewClientForKey :: "mcp_env \<Rightarrow> mcp_config \<Rightarrow> string \<Rightarrow> go_error + mcp_client" where
  "mcp_NewClientForKey env base key = mcp_NewClient env (base\<lparr>cf_APIKey := key\<rparr>)"

subsection \<open>Errors\<close>

text \<open>\<open>strings.ReplaceAll\<close> for a pattern that is not empty\<close>

fun replace_all :: "string \<Rightarrow> string \<Rightarrow> string \<Rightarrow> string" where
  "replace_all key ph [] = []"
| "replace_all key ph (c # cs) =
     (if has_prefix (c # cs) key then ph @ replace_all key ph (drop (length key - 1) cs)
      else c # replace_all key ph cs)"

definition redact :: "string \<Rightarrow> string \<Rightarrow> string" where
  "redact s key = (if key = [] then s else replace_all key ''[REDACTED]'' s)"

definition maxErrorBodyBytes :: nat where "maxErrorBodyBytes = 4096"

definition set_field :: "(string \<times> 'o setter) list \<Rightarrow> (string \<times> json) \<Rightarrow> 'o option \<Rightarrow> 'o option" where
  "set_field flds kv r =
     (case r of None \<Rightarrow> None
      | Some o0 \<Rightarrow> (case find_field flds (fst kv) of None \<Rightarrow> Some o0 | Some s \<Rightarrow> s (snd kv) o0))"

text \<open>\<open>encoding/json\<close> into a struct: unknown keys are skipped, \<open>null\<close> leaves the zero value, and a value of the wrong type is an error.\<close>

definition decode_struct :: "(string \<times> 'o setter) list \<Rightarrow> 'o \<Rightarrow> json \<Rightarrow> 'o option" where
  "decode_struct flds zero v =
     (case v of JsonObj kvs \<Rightarrow> fold (set_field flds) kvs (Some zero) | JsonNull \<Rightarrow> Some zero | _ \<Rightarrow> None)"

definition extractErrorText :: "mcp_env \<Rightarrow> string \<Rightarrow> string" where
  "extractErrorText env body =
     (case Option.bind (json_whole env body) (decode_struct [(''error'', set_string (\<lambda>s _. s))] []) of
        Some e \<Rightarrow> if e \<noteq> [] then e else TrimSpace body
      | None \<Rightarrow> TrimSpace body)"

definition apiError :: "mcp_client \<Rightarrow> mcp_env \<Rightarrow> string \<Rightarrow> http_resp \<Rightarrow> go_error" where
  "apiError c env act resp =
     (let msg = extractErrorText env (take maxErrorBodyBytes (ans_body resp));
          msg' = (if msg = [] then ''unexpected status '' @ itoa (int (ans_status resp)) else msg)
      in fault [] (act @ '': '' @ redact msg' (mc_apiKey c)))"

definition wrapTransportErr :: "mcp_client \<Rightarrow> string \<Rightarrow> go_error \<Rightarrow> go_error" where
  "wrapTransportErr c act e = fault [] (act @ '': '' @ redact (Error e) (mc_apiKey c))"

subsection \<open>Requests\<close>

text \<open>\<open>httpClient.Do\<close>; a transport error comes back redacted.\<close>

definition http_Do :: "mcp_client \<Rightarrow> mcp_env \<Rightarrow> string \<Rightarrow> http_req \<Rightarrow> http_resp call" where
  "http_Do c env act r s =
     ((case answered env (length (exchanges s)) r of Inl e \<Rightarrow> Inl (wrapTransportErr c act e) | Inr a \<Rightarrow> Inr a),
      s\<lparr>exchanges := exchanges s @ [r]\<rparr>)"

definition api_req :: "mcp_client \<Rightarrow> string \<Rightarrow> string \<Rightarrow> (string \<times> string option \<times> string) list \<Rightarrow> http_req" where
  "api_req c verb path parts =
     \<lparr>rq_method = verb, rq_url = mc_baseURL c @ path, rq_auth = Some (''ApiKey '' @ mc_apiKey c), rq_parts = parts, rq_dial = []\<rparr>"

definition decode_body :: "mcp_env \<Rightarrow> string \<Rightarrow> (json \<Rightarrow> 'a option) \<Rightarrow> http_resp \<Rightarrow> go_error + 'a" where
  "decode_body env act dec resp =
     (case json_first env (ans_body resp) (ans_cut resp) of
        Inl e \<Rightarrow> Inl (wrapped (act @ '': decode response'') e)
      | Inr v \<Rightarrow>
          (case dec v of None \<Rightarrow> Inl (wrapped (act @ '': decode response'') (type_error env)) | Some x \<Rightarrow> Inr x))"

text \<open>A request to the API, the status it has to be answered with, and how the body is read.\<close>

definition api_call :: "mcp_client \<Rightarrow> mcp_env \<Rightarrow> string \<Rightarrow> http_req \<Rightarrow> nat \<Rightarrow> (json \<Rightarrow> 'a option) \<Rightarrow> 'a call" where
  "api_call c env act r ok dec =
     (case bad_request env (rq_url r) of
        Some e \<Rightarrow> ret (Inl (wrapped ''build request'' e))
      | None \<Rightarrow>
          then_run (http_Do c env act r) (\<lambda>resp.
            if ans_status resp \<noteq> ok then ret (Inl (apiError c env act resp)) else ret (decode_body env act dec resp)))"

text \<open>The file must be open and read before the request is built.\<close>

definition read_file :: "mcp_env \<Rightarrow> string \<Rightarrow> string call" where
  "read_file env path s =
     ((case fs_fails env ''open'' path of
         Some e \<Rightarrow> Inl (wrapped ''open input file'' e)
       | None \<Rightarrow>
           (case host_files s path of
              None \<Rightarrow> Inl (wrapped ''open input file'' (no_file env))
            | Some Irregular \<Rightarrow> Inl (wrapped ''build multipart request'' (not_regular env))
            | Some (Regular b) \<Rightarrow>
                (case fs_fails env ''read'' path of
                   Some e \<Rightarrow> Inl (wrapped ''build multipart request'' e)
                 | None \<Rightarrow> Inr b))), s)"

definition form_value :: "string \<Rightarrow> string \<Rightarrow> (string \<times> string option \<times> string) list" where
  "form_value k v = (if v \<noteq> [] then [(k, None, v)] else [])"

definition create_req :: "mcp_client \<Rightarrow> string \<Rightarrow> string \<Rightarrow> string \<Rightarrow> string \<Rightarrow> string \<Rightarrow> http_req" where
  "create_req c filePath content target preset rawOpts =
     api_req c ''POST'' ''/v1/jobs''
       ((''file'', Some (path_Base filePath), content)
        # form_value ''target'' target @ form_value ''preset'' preset @ form_value ''opts'' rawOpts)"

definition CreateJob :: "mcp_client \<Rightarrow> mcp_env \<Rightarrow> string \<Rightarrow> string \<Rightarrow> string \<Rightarrow> string \<Rightarrow> string call" where
  "CreateJob c env filePath target preset rawOpts =
     then_run (read_file env filePath) (\<lambda>content.
       api_call c env ''create job'' (create_req c filePath content target preset rawOpts) 202
         (decode_struct [(''job_id'', set_string (\<lambda>s _. s))] []))"

record JobStatus =
  js_JobID :: string
  js_Status :: string
  js_Opts :: opts
  js_DownloadURL :: string
  js_ErrorCode :: string
  js_ErrorMessage :: string

definition zero_JobStatus :: JobStatus where
  "zero_JobStatus = \<lparr>js_JobID = [], js_Status = [], js_Opts = [], js_DownloadURL = [], js_ErrorCode = [], js_ErrorMessage = []\<rparr>"

definition set_object :: "(opts \<Rightarrow> 'o \<Rightarrow> 'o) \<Rightarrow> 'o setter" where
  "set_object upd v o0 = (case v of JsonObj kvs \<Rightarrow> Some (upd kvs o0) | JsonNull \<Rightarrow> Some (upd [] o0) | _ \<Rightarrow> None)"

definition job_status_fields :: "(string \<times> JobStatus setter) list" where
  "job_status_fields =
     [(''job_id'', set_string (\<lambda>x o0. o0\<lparr>js_JobID := x\<rparr>)), (''status'', set_string (\<lambda>x o0. o0\<lparr>js_Status := x\<rparr>)),
      (''opts'', set_object (\<lambda>x o0. o0\<lparr>js_Opts := x\<rparr>)), (''download_url'', set_string (\<lambda>x o0. o0\<lparr>js_DownloadURL := x\<rparr>)),
      (''error_code'', set_string (\<lambda>x o0. o0\<lparr>js_ErrorCode := x\<rparr>)),
      (''error_message'', set_string (\<lambda>x o0. o0\<lparr>js_ErrorMessage := x\<rparr>))]"

definition job_req :: "mcp_client \<Rightarrow> string \<Rightarrow> http_req" where
  "job_req c jobID = api_req c ''GET'' (''/v1/jobs/'' @ jobID) []"

definition GetJob :: "mcp_client \<Rightarrow> mcp_env \<Rightarrow> string \<Rightarrow> JobStatus call" where
  "GetJob c env jobID = api_call c env ''get job'' (job_req c jobID) 200 (decode_struct job_status_fields zero_JobStatus)"

subsection \<open>Lists\<close>

definition decode_elem :: "json \<Rightarrow> string option" where
  "decode_elem v = (case v of JsonStr s \<Rightarrow> Some s | JsonNull \<Rightarrow> Some [] | _ \<Rightarrow> None)"

text \<open>A \<open>[2]string\<close>: missing elements are empty, further ones are skipped.\<close>

definition decode_pair :: "json \<Rightarrow> (string \<times> string) option" where
  "decode_pair v =
     (case v of
        JsonArr (a # b # _) \<Rightarrow> (case (decode_elem a, decode_elem b) of (Some x, Some y) \<Rightarrow> Some (x, y) | _ \<Rightarrow> None)
      | JsonArr [a] \<Rightarrow> map_option (\<lambda>x. (x, [])) (decode_elem a)
      | JsonArr [] \<Rightarrow> Some ([], [])
      | JsonNull \<Rightarrow> Some ([], [])
      | _ \<Rightarrow> None)"

definition decode_list :: "(json \<Rightarrow> 'a option) \<Rightarrow> json \<Rightarrow> 'a list option" where
  "decode_list dec v = (case v of JsonArr xs \<Rightarrow> those (List.map dec xs) | JsonNull \<Rightarrow> Some [] | _ \<Rightarrow> None)"

definition set_with :: "(json \<Rightarrow> 'a option) \<Rightarrow> ('a \<Rightarrow> 'o \<Rightarrow> 'o) \<Rightarrow> 'o setter" where
  "set_with dec upd v o0 = map_option (\<lambda>x. upd x o0) (dec v)"

type_synonym EngineFormats = "(string \<times> string) list"

definition decode_engine :: "json \<Rightarrow> EngineFormats option" where
  "decode_engine = decode_struct [(''pairs'', set_with (decode_list decode_pair) (\<lambda>x _. x))] []"

definition decode_map :: "(json \<Rightarrow> 'a option) \<Rightarrow> json \<Rightarrow> (string \<times> 'a) list option" where
  "decode_map dec v =
     (case v of JsonObj kvs \<Rightarrow> those (List.map (\<lambda>kv. map_option (Pair (fst kv)) (dec (snd kv))) kvs) | JsonNull \<Rightarrow> Some [] | _ \<Rightarrow> None)"

type_synonym FormatsResponse = "(string \<times> EngineFormats) list"

definition ListFormats :: "mcp_client \<Rightarrow> mcp_env \<Rightarrow> FormatsResponse call" where
  "ListFormats c env =
     api_call c env ''list formats'' (api_req c ''GET'' ''/v1/formats'' []) 200
       (decode_struct [(''engines'', set_with (decode_map decode_engine) (\<lambda>x _. x))] [])"

record Preset =
  ps_Name :: string
  ps_Version :: int
  ps_Scope :: string
  ps_Operation :: string
  ps_TargetFormat :: string
  ps_Options :: opts
  ps_Description :: string
  ps_IsActive :: bool
  ps_CreatedAt :: time
  ps_UpdatedAt :: time

definition zero_Preset :: Preset where
  "zero_Preset = \<lparr>ps_Name = [], ps_Version = 0, ps_Scope = [], ps_Operation = [], ps_TargetFormat = [], ps_Options = [],
     ps_Description = [], ps_IsActive = False, ps_CreatedAt = 0, ps_UpdatedAt = 0\<rparr>"

definition set_time :: "mcp_env \<Rightarrow> (time \<Rightarrow> 'o \<Rightarrow> 'o) \<Rightarrow> 'o setter" where
  "set_time env upd v o0 =
     (case v of JsonStr s \<Rightarrow> map_option (\<lambda>t. upd t o0) (time_parse env s) | JsonNull \<Rightarrow> Some o0 | _ \<Rightarrow> None)"

definition preset_fields :: "mcp_env \<Rightarrow> (string \<times> Preset setter) list" where
  "preset_fields env =
     [(''name'', set_string (\<lambda>x o0. o0\<lparr>ps_Name := x\<rparr>)), (''version'', set_int (\<lambda>x o0. o0\<lparr>ps_Version := x\<rparr>)),
      (''scope'', set_string (\<lambda>x o0. o0\<lparr>ps_Scope := x\<rparr>)), (''operation'', set_string (\<lambda>x o0. o0\<lparr>ps_Operation := x\<rparr>)),
      (''target_format'', set_string (\<lambda>x o0. o0\<lparr>ps_TargetFormat := x\<rparr>)), (''options'', set_object (\<lambda>x o0. o0\<lparr>ps_Options := x\<rparr>)),
      (''description'', set_string (\<lambda>x o0. o0\<lparr>ps_Description := x\<rparr>)), (''is_active'', set_bool (\<lambda>x o0. o0\<lparr>ps_IsActive := x\<rparr>)),
      (''created_at'', set_time env (\<lambda>x o0. o0\<lparr>ps_CreatedAt := x\<rparr>)), (''updated_at'', set_time env (\<lambda>x o0. o0\<lparr>ps_UpdatedAt := x\<rparr>))]"

definition ListPresets :: "mcp_client \<Rightarrow> mcp_env \<Rightarrow> bool \<Rightarrow> Preset list call" where
  "ListPresets c env includeInactive =
     api_call c env ''list presets'' (api_req c ''GET'' (''/v1/presets'' @ (if includeInactive then ''?all=true'' else [])) []) 200
       (decode_list (decode_struct (preset_fields env) zero_Preset))"

subsection \<open>Downloads\<close>

definition sanitizeBasename :: "string \<Rightarrow> string" where
  "sanitizeBasename rawPath =
     (let name = path_Base rawPath; stripped = dropWhile (\<lambda>c. c = CHR ''.'') name
      in if name = [] \<or> name = ''.'' \<or> name = ''..'' \<or> name = ''/'' then []
         else if stripped = [] \<or> list_ex (\<lambda>c. c = CHR ''/'' \<or> c = CHR 0x5C) stripped then [] else stripped)"

definition create_file :: "mcp_env \<Rightarrow> string \<Rightarrow> unit call" where
  "create_file env path s =
     (case fs_fails env ''create'' path of
        Some e \<Rightarrow> (Inl e, s)
      | None \<Rightarrow>
          if host_files s path = Some Irregular then (Inl (not_regular env), s)
          else (Inr (), s\<lparr>host_files := (host_files s)(path := Some (Regular []))\<rparr>))"

text \<open>\<open>io.Copy\<close> of the body; what was copied before an error stays.\<close>

definition copy_body :: "mcp_env \<Rightarrow> string \<Rightarrow> http_resp \<Rightarrow> unit call" where
  "copy_body env path resp s =
     (case short_write env path of
        Some (n, e) \<Rightarrow> (Inl e, s\<lparr>host_files := (host_files s)(path := Some (Regular (take n (ans_body resp))))\<rparr>)
      | None \<Rightarrow>
          ((case ans_cut resp of Some e \<Rightarrow> Inl e | None \<Rightarrow> Inr ()),
           s\<lparr>host_files := (host_files s)(path := Some (Regular (ans_body resp)))\<rparr>))"

definition download_req :: "mcp_client \<Rightarrow> string \<Rightarrow> http_req" where
  "download_req c presignedURL =
     \<lparr>rq_method = ''GET'', rq_url = presignedURL, rq_auth = None, rq_parts = [], rq_dial = mc_s3DialAddr c\<rparr>"

definition local_name :: "string \<Rightarrow> string \<Rightarrow> string" where
  "local_name jobID path = (let name = sanitizeBasename path in if name = [] then jobID @ ''-result'' else name)"

definition Download :: "mcp_client \<Rightarrow> mcp_env \<Rightarrow> string \<Rightarrow> string \<Rightarrow> string call" where
  "Download c env jobID presignedURL =
     (case bad_request env presignedURL of
        Some e \<Rightarrow> ret (Inl (wrapped ''build download request'' e))
      | None \<Rightarrow>
          then_run (http_Do c env ''download result'' (download_req c presignedURL)) (\<lambda>resp.
            if ans_status resp \<noteq> 200 then ret (Inl (apiError c env ''download result'' resp))
            else then_run (wrapping ''parse download url'' (ret (url_path env presignedURL))) (\<lambda>path.
              let localPath = filepath_Join (mc_outputDir c) (local_name jobID path)
              in then_run (wrapping ''create local file'' (create_file env localPath)) (\<lambda>_.
                 then_run (wrapping ''write local file'' (copy_body env localPath resp)) (\<lambda>_. ret (Inr localPath))))))"

subsection \<open>The blocking conversion\<close>

record ConvertResult =
  cr_JobID :: string
  cr_DownloadURL :: string
  cr_LocalPath :: string

definition timeout_error :: "string \<Rightarrow> go_error" where
  "timeout_error jobID =
     fault [] (''conversion timed out waiting for job '' @ jobID @ ''; use get_job_status to check on it'')"

definition failed_error :: "string \<Rightarrow> JobStatus \<Rightarrow> go_error" where
  "failed_error jobID job =
     fault [] (''job '' @ jobID @ '' failed: '' @ (if js_ErrorMessage job = [] then ''conversion failed'' else js_ErrorMessage job))"

text \<open>\<open>onTick\<close>, absent when the caller gave no progress token\<close>

definition on_tick :: "bool \<Rightarrow> nat \<Rightarrow> string \<Rightarrow> mcp_state \<Rightarrow> mcp_state" where
  "on_tick token k st s = (if token then s\<lparr>notified := notified s @ [(k, ''job status: '' @ st)]\<rparr> else s)"

definition finish_job :: "mcp_client \<Rightarrow> mcp_env \<Rightarrow> string \<Rightarrow> JobStatus \<Rightarrow> ConvertResult call" where
  "finish_job c env jobID job =
     (if mc_resultMode c = ResultRemote then
        ret (Inr \<lparr>cr_JobID = jobID, cr_DownloadURL = js_DownloadURL job, cr_LocalPath = []\<rparr>)
      else then_run (Download c env jobID (js_DownloadURL job)) (\<lambda>localPath.
        ret (Inr \<lparr>cr_JobID = jobID, cr_DownloadURL = js_DownloadURL job, cr_LocalPath = localPath\<rparr>)))"

text \<open>
  The loop. Its result \<open>None\<close> means that it never ends. After each status the clock is read; the wait for the
  next tick may be ended by the caller's context.
\<close>

partial_function (option) await_job ::
  "mcp_client \<Rightarrow> mcp_env \<Rightarrow> string \<Rightarrow> int \<Rightarrow> bool \<Rightarrow> nat \<Rightarrow> mcp_state \<Rightarrow> ((go_error + ConvertResult) \<times> mcp_state) option" where
  "await_job c env jobID deadline token k s =
     (case GetJob c env jobID s of
        (Inl e, s1) \<Rightarrow> Some (Inl e, s1)
      | (Inr job, s1) \<Rightarrow>
          (let s2 = on_tick token (Suc k) (js_Status job) s1
           in if js_Status job = StatusDone then Some (finish_job c env jobID job s2)
              else if js_Status job = StatusFailed then Some (Inl (failed_error jobID job), s2)
              else if deadline \<le> clock_after env (length (exchanges s2)) then Some (Inl (timeout_error jobID), s2)
              else (case cancelled_after env (length (exchanges s2)) of
                      Some e \<Rightarrow> Some (Inl e, s2)
                    | None \<Rightarrow> await_job c env jobID deadline token (Suc k) s2)))"

datatype 'a call_outcome = Panicked | Returned "go_error + 'a"

text \<open>\<open>time.NewTicker\<close> panics unless the interval is positive.\<close>

definition ConvertBlocking ::
  "mcp_client \<Rightarrow> mcp_env \<Rightarrow> string \<Rightarrow> string \<Rightarrow> string \<Rightarrow> string \<Rightarrow> bool \<Rightarrow> mcp_state
     \<Rightarrow> (ConvertResult call_outcome \<times> mcp_state) option" where
  "ConvertBlocking c env filePath target preset rawOpts token s =
     (case CreateJob c env filePath target preset rawOpts s of
        (Inl e, s1) \<Rightarrow> Some (Returned (Inl e), s1)
      | (Inr jobID, s1) \<Rightarrow>
          if mc_pollInterval c \<le> 0 then Some (Panicked, s1)
          else map_option (\<lambda>(r, s2). (Returned r, s2))
                 (await_job c env jobID (clock_after env (length (exchanges s1)) + mc_convertTimeout c) token 0 s1))"

subsection \<open>The tools\<close>

definition sanitizeInputPath :: "mcp_env \<Rightarrow> string \<Rightarrow> string call" where
  "sanitizeInputPath env raw s =
     ((if raw = [] then Inl (fault [] ''path is required'')
       else case (if has_prefix raw ''/'' then Inr (filepath_Clean raw) else map_sum (\<lambda>e. e) (\<lambda>wd. filepath_Join wd raw) (working_dir env)) of
              Inl e \<Rightarrow> Inl (wrapped (''resolve path '' @ quote_arg env raw) e)
            | Inr p \<Rightarrow>
                (let path = filepath_Clean p
                 in case fs_fails env ''stat'' path of
                      Some e \<Rightarrow> Inl (wrapped (''path '' @ quote_arg env raw) e)
                    | None \<Rightarrow>
                        (case host_files s path of
                           None \<Rightarrow> Inl (wrapped (''path '' @ quote_arg env raw) (no_file env))
                         | Some Irregular \<Rightarrow> Inl (fault [] (''path '' @ quote_arg env raw @ '' is not a regular file''))
                         | Some (Regular _) \<Rightarrow> Inr path))), s)"

definition remoteExpiryNote :: string where
  "remoteExpiryNote = ''the presigned URL is short-lived; download it promptly, or call download_result with the job_id for a fresh URL''"

record ConvertFileInput =
  ci_Path :: string
  ci_TargetFormat :: string
  ci_Preset :: string
  ci_Opts :: opts

record ConvertFileOutput =
  co_JobID :: string
  co_PresignedURL :: string
  co_LocalPath :: string
  co_TargetFormat :: string
  co_ExpiryNote :: string

definition expiry_note :: "mcp_client \<Rightarrow> string" where
  "expiry_note c = (if mc_resultMode c = ResultRemote then remoteExpiryNote else [])"

definition convertFileHandler ::
  "mcp_client \<Rightarrow> mcp_env \<Rightarrow> bool \<Rightarrow> ConvertFileInput \<Rightarrow> mcp_state \<Rightarrow> (ConvertFileOutput call_outcome \<times> mcp_state) option" where
  "convertFileHandler c env token inp s =
     (case sanitizeInputPath env (ci_Path inp) s of
        (Inl e, s1) \<Rightarrow> Some (Returned (Inl e), s1)
      | (Inr path, s1) \<Rightarrow>
          (let rawOpts = (if ci_Opts inp \<noteq> [] then json_marshal env (ci_Opts inp) else [])
           in case ConvertBlocking c env path (ci_TargetFormat inp) (ci_Preset inp) rawOpts token s1 of
                None \<Rightarrow> None
              | Some (Panicked, s2) \<Rightarrow> Some (Panicked, s2)
              | Some (Returned (Inl e), s2) \<Rightarrow> Some (Returned (Inl e), s2)
              | Some (Returned (Inr res), s2) \<Rightarrow>
                  Some (Returned (Inr \<lparr>co_JobID = cr_JobID res, co_PresignedURL = cr_DownloadURL res,
                    co_LocalPath = cr_LocalPath res, co_TargetFormat = ci_TargetFormat inp, co_ExpiryNote = expiry_note c\<rparr>), s2)))"

definition getJobStatusHandler :: "mcp_client \<Rightarrow> mcp_env \<Rightarrow> string \<Rightarrow> JobStatus call" where
  "getJobStatusHandler c env jobID = GetJob c env jobID"

record DownloadResultOutput =
  do_LocalPath :: string
  do_PresignedURL :: string
  do_ExpiryNote :: string

text \<open>The file is renamed to the sanitized hint; a failed rename is ignored.\<close>

definition rename_hint :: "mcp_client \<Rightarrow> mcp_env \<Rightarrow> string \<Rightarrow> string \<Rightarrow> string call" where
  "rename_hint c env hint localPath s =
     (let renamed = sanitizeBasename hint; target = filepath_Join (mc_outputDir c) renamed
      in if hint = [] \<or> renamed = [] \<or> target = localPath \<or> fs_fails env ''rename'' target \<noteq> None
            \<or> host_files s localPath = None \<or> host_files s target = Some Irregular
         then (Inr localPath, s)
         else (Inr target, s\<lparr>host_files := (host_files s)(localPath := None, target := host_files s localPath)\<rparr>))"

definition downloadResultHandler :: "mcp_client \<Rightarrow> mcp_env \<Rightarrow> string \<Rightarrow> string \<Rightarrow> DownloadResultOutput call" where
  "downloadResultHandler c env jobID hint =
     then_run (GetJob c env jobID) (\<lambda>job.
       if js_Status job \<noteq> StatusDone
       then ret (Inl (fault [] (''job '' @ jobID @ '' is '' @ js_Status job @ '', not done -- use get_job_status to check on it'')))
       else if js_DownloadURL job = [] then ret (Inl (fault [] (''job '' @ jobID @ '' is done but has no download URL'')))
       else if mc_resultMode c = ResultRemote
       then ret (Inr \<lparr>do_LocalPath = [], do_PresignedURL = js_DownloadURL job, do_ExpiryNote = remoteExpiryNote\<rparr>)
       else then_run (Download c env jobID (js_DownloadURL job)) (\<lambda>localPath.
            then_run (rename_hint c env hint localPath) (\<lambda>localPath'.
              ret (Inr \<lparr>do_LocalPath = localPath', do_PresignedURL = js_DownloadURL job, do_ExpiryNote = []\<rparr>))))"

definition listSupportedFormatsHandler :: "mcp_client \<Rightarrow> mcp_env \<Rightarrow> FormatsResponse call" where
  "listSupportedFormatsHandler c env = ListFormats c env"

definition listPresetsHandler :: "mcp_client \<Rightarrow> mcp_env \<Rightarrow> bool \<Rightarrow> Preset list call" where
  "listPresetsHandler c env includeInactive = ListPresets c env includeInactive"

text \<open>\<open>NewServer\<close> registers five tools.\<close>

datatype tool_call =
    convert_file bool ConvertFileInput
  | get_job_status string
  | download_result string string
  | list_supported_formats
  | list_presets_call bool

datatype tool_result =
    FileConverted ConvertFileOutput
  | JobIs JobStatus
  | ResultDownloaded DownloadResultOutput
  | FormatsAre FormatsResponse
  | PresetsAre "Preset list"

definition as_result :: "('a \<Rightarrow> tool_result) \<Rightarrow> 'a call \<Rightarrow> mcp_state \<Rightarrow> (tool_result call_outcome \<times> mcp_state) option" where
  "as_result f m s = (case m s of (r, s') \<Rightarrow> Some (Returned (map_sum (\<lambda>e. e) f r), s'))"

definition mcp_NewServer :: "mcp_client \<Rightarrow> mcp_env \<Rightarrow> tool_call \<Rightarrow> mcp_state \<Rightarrow> (tool_result call_outcome \<times> mcp_state) option" where
  "mcp_NewServer c env t =
     (case t of
        convert_file token inp \<Rightarrow>
          (\<lambda>s. map_option (\<lambda>(r, s'). (case r of Panicked \<Rightarrow> Panicked | Returned x \<Rightarrow> Returned (map_sum (\<lambda>e. e) FileConverted x), s'))
                 (convertFileHandler c env token inp s))
      | get_job_status jobID \<Rightarrow> as_result JobIs (getJobStatusHandler c env jobID)
      | download_result jobID hint \<Rightarrow> as_result ResultDownloaded (downloadResultHandler c env jobID hint)
      | list_supported_formats \<Rightarrow> as_result FormatsAre (listSupportedFormatsHandler c env)
      | list_presets_call includeInactive \<Rightarrow> as_result PresetsAre (listPresetsHandler c env includeInactive))"

subsection \<open>Paths below the output directory\<close>

lemma split_slash_plain: "CHR ''/'' \<notin> set nm \<Longrightarrow> split_slash cur nm = [cur @ nm]"
  by (induction nm arbitrary: cur) auto

lemma split_slash_child: "CHR ''/'' \<notin> set nm \<Longrightarrow> split_slash cur (a @ CHR ''/'' # nm) = split_slash cur a @ [nm]"
  by (induction a arbitrary: cur) (auto simp: split_slash_plain)

lemma split_slash_pieces: "CHR ''/'' \<notin> set cur \<Longrightarrow> list_all (\<lambda>x. CHR ''/'' \<notin> set x) (split_slash cur a)"
  by (induction a arbitrary: cur) simp_all

definition kept_piece :: "string \<Rightarrow> bool" where
  "kept_piece x \<longleftrightarrow> x \<noteq> [] \<and> x \<noteq> ''.'' \<and> CHR ''/'' \<notin> set x"

lemma clean_step_kept: "CHR ''/'' \<notin> set x \<Longrightarrow> list_all kept_piece st \<Longrightarrow> list_all kept_piece (clean_step rooted x st)"
  by (auto simp: clean_step_def kept_piece_def split: list.split)

lemma clean_fold_kept:
  "\<forall>x \<in> set xs. CHR ''/'' \<notin> set x \<Longrightarrow> list_all kept_piece st \<Longrightarrow> list_all kept_piece (fold (clean_step rooted) xs st)"
  by (induction xs arbitrary: st) (auto intro: clean_step_kept)

lemma join_slash_snoc: "join_slash (xs @ [x]) = (if xs = [] then x else join_slash xs @ ''/'' @ x)"
  by (induction xs rule: join_slash.induct) auto

lemma join_slash_kept:
  assumes "list_all kept_piece xs" "xs \<noteq> []"
  shows "join_slash xs \<noteq> []" "join_slash xs \<noteq> ''.''" "join_slash xs \<noteq> ''/''"
proof -
  obtain x ys where xs: "xs = x # ys" using assms(2) by (cases xs) auto
  then have "kept_piece x" using assms(1) by simp
  then show "join_slash xs \<noteq> []" "join_slash xs \<noteq> ''.''" "join_slash xs \<noteq> ''/''"
    using xs by (cases ys; cases x; auto simp: kept_piece_def)+
qed

text \<open>A file directly in a cleaned directory\<close>

definition below :: "string \<Rightarrow> string \<Rightarrow> string" where
  "below d nm = (if d = ''/'' then ''/'' @ nm else if d = ''.'' then nm else d @ ''/'' @ nm)"

definition plain_name :: "string \<Rightarrow> bool" where
  "plain_name nm \<longleftrightarrow> nm \<noteq> [] \<and> nm \<noteq> ''.'' \<and> nm \<noteq> ''..'' \<and> CHR ''/'' \<notin> set nm"

lemma filepath_Join_below:
  assumes "plain_name nm"
  shows "filepath_Join d nm = below (filepath_Clean d) nm"
proof (cases "d = []")
  case True
  then show ?thesis using assms
    by (cases nm) (auto simp: filepath_Join_def filepath_Clean_def split_slash_plain clean_step_def plain_name_def
        below_def has_prefix_def Let_def)
next
  case False
  let ?root = "has_prefix d ''/''"
  let ?st = "fold (clean_step ?root) (split_slash [] d) []"
  have root: "has_prefix (d @ CHR ''/'' # nm) ''/'' = ?root" using False by (cases d) (auto simp: has_prefix_def)
  have kept: "list_all kept_piece (rev ?st)"
    using clean_fold_kept [of "split_slash [] d" "[]" ?root] split_slash_pieces [of "[]" d] by (simp add: list_all_iff)
  have step: "fold (clean_step rooted) (split_slash [] (d @ CHR ''/'' # nm)) [] = nm # fold (clean_step rooted) (split_slash [] d) []" for rooted
    using assms by (simp add: split_slash_child clean_step_def plain_name_def)
  have join: "filepath_Join d nm = (if ?root then ''/'' @ join_slash (rev ?st @ [nm]) else join_slash (rev ?st @ [nm]))"
    using False by (simp add: filepath_Join_def filepath_Clean_def Let_def step root)
  have clean: "filepath_Clean d = (if ?root then ''/'' @ join_slash (rev ?st) else if rev ?st = [] then ''.'' else join_slash (rev ?st))"
    by (simp add: filepath_Clean_def Let_def)
  show ?thesis
    using join_slash_kept [OF kept] unfolding join clean by (auto simp: below_def join_slash_snoc)
qed

subsection \<open>What a tool does to its host and whom it asks\<close>

definition in_output :: "mcp_client \<Rightarrow> string \<Rightarrow> bool" where
  "in_output c p \<longleftrightarrow> (\<exists>nm. plain_name nm \<and> p = below (filepath_Clean (mc_outputDir c)) nm)"

text \<open>The name taken for a link without any object name, should the identifier have a slash.\<close>

definition odd_fallback :: "mcp_client \<Rightarrow> string \<Rightarrow> bool" where
  "odd_fallback c p \<longleftrightarrow> (\<exists>jobID. CHR ''/'' \<in> set jobID \<and> p = filepath_Join (mc_outputDir c) (jobID @ ''-result''))"

text \<open>A link that some answer of the API about a job carried.\<close>

definition offered :: "mcp_client \<Rightarrow> mcp_env \<Rightarrow> string \<Rightarrow> bool" where
  "offered c env u \<longleftrightarrow>
     (\<exists>k jobID resp job. answered env k (job_req c jobID) = Inr resp \<and> ans_status resp = 200
        \<and> decode_body env ''get job'' (decode_struct job_status_fields zero_JobStatus) resp = Inr job \<and> js_DownloadURL job = u)"

definition permitted :: "mcp_client \<Rightarrow> mcp_env \<Rightarrow> http_req \<Rightarrow> bool" where
  "permitted c env r \<longleftrightarrow>
     rq_auth r = Some (''ApiKey '' @ mc_apiKey c) \<and> (\<exists>path. rq_url r = mc_baseURL c @ ''/v1/'' @ path)
     \<or> rq_auth r = None \<and> mc_resultMode c \<noteq> ResultRemote \<and> (\<exists>u. offered c env u \<and> r = download_req c u)"

definition footprint :: "mcp_client \<Rightarrow> mcp_env \<Rightarrow> mcp_state \<Rightarrow> mcp_state \<Rightarrow> bool" where
  "footprint c env s s' \<longleftrightarrow>
     (\<exists>rs. exchanges s' = exchanges s @ rs \<and> list_all (permitted c env) rs)
     \<and> (\<forall>p. host_files s' p \<noteq> host_files s p \<longrightarrow> mc_resultMode c \<noteq> ResultRemote \<and> (in_output c p \<or> odd_fallback c p))"

lemma footprint_refl: "footprint c env s s"
  by (simp add: footprint_def)

lemma footprint_trans: "footprint c env s t \<Longrightarrow> footprint c env t u \<Longrightarrow> footprint c env s u"
  unfolding footprint_def by (metis append_assoc list_all_append)

interpretation tool: effect "footprint c env" for c env
  by unfold_locales (rule footprint_refl, erule (1) footprint_trans)

lemmas tool_intros = tool.acts_ret tool.acts_then_run tool.acts_wrapping

lemma footprint_http_Do: "permitted c env r \<Longrightarrow> acts (footprint c env) (http_Do c env act r)"
  by (simp add: acts_def http_Do_def footprint_def)

lemma permitted_api: "rq_url r = mc_baseURL c @ ''/v1/'' @ path \<Longrightarrow> rq_auth r = Some (''ApiKey '' @ mc_apiKey c) \<Longrightarrow> permitted c env r"
  by (auto simp: permitted_def)

lemma footprint_api_call: "permitted c env r \<Longrightarrow> acts (footprint c env) (api_call c env act r ok dec)"
  by (auto simp: api_call_def split: option.split intro!: tool_intros footprint_http_Do)

lemma permitted_reqs:
  "permitted c env (create_req c path content target preset rawOpts)" "permitted c env (job_req c jobID)"
  "permitted c env (api_req c ''GET'' ''/v1/formats'' [])"
  "permitted c env (api_req c ''GET'' (''/v1/presets'' @ (if b then ''?all=true'' else [])) [])"
  "mc_resultMode c \<noteq> ResultRemote \<Longrightarrow> offered c env u \<Longrightarrow> permitted c env (download_req c u)"
  by (auto simp: permitted_def create_req_def job_req_def api_req_def download_req_def)

lemma footprint_reads:
  "acts (footprint c env) (read_file env path)" "acts (footprint c env) (sanitizeInputPath env raw)"
  by (simp_all add: acts_def read_file_def sanitizeInputPath_def footprint_refl)

lemma footprint_CreateJob: "acts (footprint c env) (CreateJob c env path target preset rawOpts)"
  unfolding CreateJob_def by (intro tool_intros footprint_reads footprint_api_call permitted_reqs)

lemma footprint_GetJob: "acts (footprint c env) (GetJob c env jobID)"
  unfolding GetJob_def by (intro footprint_api_call permitted_reqs)

lemma footprint_file:
  assumes "mc_resultMode c \<noteq> ResultRemote" "in_output c path \<or> odd_fallback c path"
  shows "acts (footprint c env) (create_file env path)" "acts (footprint c env) (copy_body env path resp)"
  using assms by (auto simp: acts_def create_file_def copy_body_def footprint_def split: option.split)

lemma sanitizeBasename_plain: "sanitizeBasename path \<noteq> [] \<Longrightarrow> plain_name (sanitizeBasename path)"
proof -
  let ?t = "dropWhile (\<lambda>c. c = CHR ''.'') (path_Base path)"
  assume ne: "sanitizeBasename path \<noteq> []"
  then have t: "sanitizeBasename path = ?t" "?t \<noteq> []" "CHR ''/'' \<notin> set ?t"
    by (auto simp: sanitizeBasename_def Let_def list_ex_iff split: if_splits)
  have "hd ?t \<noteq> CHR ''.''" by (rule hd_dropWhile [OF t(2)])
  then show ?thesis unfolding t(1) plain_name_def using t(2,3) by (metis list.sel(1))
qed

lemma output_path: "in_output c (filepath_Join (mc_outputDir c) (local_name jobID path))
    \<or> odd_fallback c (filepath_Join (mc_outputDir c) (local_name jobID path))"
proof (cases "sanitizeBasename path = [] \<and> CHR ''/'' \<in> set jobID")
  case True
  then show ?thesis by (auto simp: odd_fallback_def local_name_def)
next
  case False
  then have "plain_name (local_name jobID path)"
    using sanitizeBasename_plain by (auto simp: local_name_def Let_def plain_name_def append_eq_Cons_conv)
  from filepath_Join_below [OF this] this show ?thesis by (auto simp: in_output_def)
qed

lemma GetJob_offers:
  assumes "GetJob c env jobID s = (Inr job, s1)"
  shows "offered c env (js_DownloadURL job)"
  using assms unfolding GetJob_def api_call_def offered_def
  by (auto simp: http_Do_def elim!: then_run_InrE split: option.splits if_splits sum.splits) blast

lemma footprint_Download: "mc_resultMode c \<noteq> ResultRemote \<Longrightarrow> offered c env u \<Longrightarrow> acts (footprint c env) (Download c env jobID u)"
  by (auto simp: Download_def Let_def split: option.split
      intro!: tool_intros footprint_http_Do permitted_reqs footprint_file output_path)

lemma Download_path: "Download c env jobID u s = (Inr p, s') \<Longrightarrow> in_output c p \<or> odd_fallback c p"
  using output_path [of c jobID] by (fastforce simp: Download_def Let_def split: option.splits if_splits elim!: then_run_InrE)

lemma footprint_finish: "offered c env (js_DownloadURL job) \<Longrightarrow> acts (footprint c env) (finish_job c env jobID job)"
  by (simp add: finish_job_def tool_intros footprint_Download)

lemma footprint_tick: "footprint c env s s1 \<Longrightarrow> footprint c env s (on_tick token k st s1)"
  by (simp add: footprint_def on_tick_def)

declare await_job.simps [code]

lemmas await_induct = await_job.raw_induct [rotated 1, consumes 1, case_names step]

lemma footprint_await:
  "await_job c env jobID deadline token k s = Some out \<Longrightarrow> footprint c env s (snd out)"
proof (induction rule: await_induct)
  case (step aw c env jobID deadline token k s out)
  obtain r s1 where get: "GetJob c env jobID s = (r, s1)" by force
  have s1: "footprint c env s s1" using actsD [OF footprint_GetJob get] .
  show ?case
  proof (cases r)
    case (Inl e)
    then show ?thesis using step(2) get s1 by auto
  next
    case (Inr job)
    let ?s2 = "on_tick token (Suc k) (js_Status job) s1"
    have s2: "footprint c env s ?s2" by (rule footprint_tick [OF s1])
    have fin: "footprint c env s (snd (finish_job c env jobID job ?s2))"
      using GetJob_offers get Inr by (intro footprint_trans [OF s2]) (metis actsD footprint_finish prod.collapse)
    have again: "footprint c env s (snd out)" if "aw c env jobID deadline token (Suc k) ?s2 = Some out"
      using footprint_trans [OF s2] step(1) [OF that] by blast
    show ?thesis
      using step(2) get Inr s2 fin again by (auto simp: Let_def split: if_splits option.splits)
  qed
qed

lemma footprint_ConvertBlocking:
  "ConvertBlocking c env path target preset rawOpts token s = Some (r, s') \<Longrightarrow> footprint c env s s'"
  by (auto simp: ConvertBlocking_def split: prod.splits sum.splits if_splits
      dest!: actsD [OF footprint_CreateJob] footprint_await intro: footprint_trans)

lemma footprint_convert_file:
  "convertFileHandler c env token inp s = Some (r, s') \<Longrightarrow> footprint c env s s'"
  by (auto simp: convertFileHandler_def Let_def split: prod.splits sum.splits option.splits call_outcome.splits
      dest!: actsD [OF footprint_reads(2)] footprint_ConvertBlocking intro: footprint_trans)

lemma footprint_rename:
  assumes "mc_resultMode c \<noteq> ResultRemote" "in_output c p \<or> odd_fallback c p"
  shows "acts (footprint c env) (rename_hint c env hint p)"
proof (cases "sanitizeBasename hint = []")
  case True
  then show ?thesis by (simp add: acts_def rename_hint_def footprint_refl)
next
  case False
  have "in_output c (filepath_Join (mc_outputDir c) (sanitizeBasename hint))"
    using filepath_Join_below sanitizeBasename_plain [OF False] by (auto simp: in_output_def)
  then show ?thesis using assms by (auto simp: acts_def rename_hint_def footprint_def Let_def)
qed

lemma footprint_download_result: "acts (footprint c env) (downloadResultHandler c env jobID hint)"
proof (rule actsI)
  fix s r s'
  assume run: "downloadResultHandler c env jobID hint s = (r, s')"
  obtain x s1 where get: "GetJob c env jobID s = (x, s1)" by force
  note s1 = actsD [OF footprint_GetJob get]
  show "footprint c env s s'"
  proof (cases x)
    case (Inl e)
    then show ?thesis using run get s1 by (auto simp: downloadResultHandler_def)
  next
    case (Inr job)
    obtain y s2 where dl: "Download c env jobID (js_DownloadURL job) s1 = (y, s2)" by force
    have s2: "footprint c env s s2" if "mc_resultMode c \<noteq> ResultRemote"
      using footprint_trans [OF s1 actsD [OF footprint_Download [OF that] dl]] GetJob_offers get Inr by blast
    have hint: "footprint c env s s3"
      if "mc_resultMode c \<noteq> ResultRemote" "y = Inr p" "rename_hint c env hint p s2 = (z, s3)" for p z s3
      using footprint_trans [OF s2 actsD [OF footprint_rename]] Download_path dl that by blast
    show ?thesis
      using run get s1 Inr dl s2 hint
      by (auto simp: downloadResultHandler_def then_run_def split: if_splits sum.splits prod.splits)
  qed
qed

text \<open>C34: The tools of the agent stay within their bounds, whatever the agent asks for and the network answers. Every request either
  goes to the configured API and carries the key there, or is a plain download without the key, on a host
  with local results only, of a link that an answer of the API about a job carried. A remote server never
  changes a file; a local one only files directly in its output directory, under a name without
  slashes that is not \<open>.\<close> or \<open>..\<close>, unless a link names no object and the job identifier, then the name, has slashes.\<close>

theorem mcp_confined:
  assumes "mcp_NewServer c env t s = Some (r, s')"
  shows "(\<exists>rs. exchanges s' = exchanges s @ rs \<and> list_all (\<lambda>q.
        rq_auth q = Some (''ApiKey '' @ mc_apiKey c) \<and> (\<exists>path. rq_url q = mc_baseURL c @ ''/v1/'' @ path)
        \<or> rq_auth q = None \<and> mc_resultMode c \<noteq> ResultRemote \<and> (\<exists>u. offered c env u \<and> q = download_req c u)) rs)
    \<and> (\<forall>p. host_files s' p \<noteq> host_files s p \<longrightarrow> mc_resultMode c \<noteq> ResultRemote \<and> (in_output c p \<or> odd_fallback c p))"
proof -
  have "footprint c env s s'"
  proof (cases t)
    case (convert_file token inp)
    then show ?thesis using assms footprint_convert_file by (auto simp: mcp_NewServer_def)
  next
    case (list_presets_call b)
    then show ?thesis using assms actsD [OF footprint_api_call [OF permitted_reqs(4)]]
      by (auto simp: mcp_NewServer_def as_result_def listPresetsHandler_def ListPresets_def split: prod.splits)
  qed (use assms in \<open>auto simp: mcp_NewServer_def as_result_def getJobStatusHandler_def listSupportedFormatsHandler_def ListFormats_def
        split: prod.splits dest: actsD [OF footprint_GetJob] actsD [OF footprint_download_result]
          actsD [OF footprint_api_call [OF permitted_reqs(3)]]\<close>)
  then show ?thesis by (simp add: footprint_def permitted_def [abs_def])
qed

subsection \<open>The loop ends\<close>

lemma api_call_one:
  assumes "api_call c env act r ok dec s = (x, s')"
  shows "exchanges s' = exchanges s \<or> exchanges s' = exchanges s @ [r]"
    and "x = Inr v \<Longrightarrow> exchanges s' = exchanges s @ [r]"
  using assms by (auto simp: api_call_def http_Do_def then_run_def split: option.splits sum.splits if_splits)

lemma Download_one: "Download c env jobID u s = (x, s') \<Longrightarrow> length (exchanges s') \<le> Suc (length (exchanges s))"
  by (auto simp: Download_def http_Do_def then_run_def wrapping_def create_file_def copy_body_def Let_def
      split: option.splits sum.splits if_splits prod.splits)

lemma finish_one: "length (exchanges (snd (finish_job c env jobID job s))) \<le> Suc (length (exchanges s))"
  using Download_one by (auto simp: finish_job_def then_run_def split: sum.splits prod.splits)

lemma exchanges_tick [simp]: "exchanges (on_tick token k st s) = exchanges s" "host_files (on_tick token k st s) = host_files s"
  by (simp_all add: on_tick_def)

lemma await_returns:
  assumes "deadline \<le> clock_after env (length (exchanges s) + Suc n)"
  shows "\<exists>r s'. await_job c env jobID deadline token k s = Some (r, s')
    \<and> length (exchanges s') \<le> length (exchanges s) + n + 2"
  using assms
proof (induction n arbitrary: k s)
  case (0 k s)
  obtain r s1 where get: "GetJob c env jobID s = (r, s1)" by force
  note one = api_call_one [OF get [unfolded GetJob_def]]
  show ?case
  proof (cases r)
    case (Inl e)
    then show ?thesis using one(1) get by (subst await_job.simps) auto
  next
    case (Inr job)
    have n1: "length (exchanges s1) = Suc (length (exchanges s))" using one(2) [OF Inr] by simp
    let ?s2 = "on_tick token (Suc k) (js_Status job) s1"
    show ?thesis using finish_one [of c env jobID job ?s2] 0 n1 get Inr
      by (subst await_job.simps) (cases "finish_job c env jobID job ?s2", auto simp: Let_def)
  qed
next
  case (Suc n k s)
  obtain r s1 where get: "GetJob c env jobID s = (r, s1)" by force
  note one = api_call_one [OF get [unfolded GetJob_def]]
  show ?case
  proof (cases r)
    case (Inl e)
    then show ?thesis using one(1) get by (subst await_job.simps) auto
  next
    case (Inr job)
    let ?s2 = "on_tick token (Suc k) (js_Status job) s1"
    have n1: "length (exchanges ?s2) = Suc (length (exchanges s))" using one(2) [OF Inr] by simp
    obtain r' s' where "await_job c env jobID deadline token (Suc k) ?s2 = Some (r', s')"
      "length (exchanges s') \<le> length (exchanges ?s2) + n + 2"
      using Suc.IH [of ?s2] Suc.prems n1 by fastforce
    then show ?thesis using finish_one [of c env jobID job ?s2] n1 get Inr
      by (subst await_job.simps)
        (cases "finish_job c env jobID job ?s2", auto simp: Let_def split: option.split)
  qed
qed

text \<open>C35: A blocking conversion always returns: with a positive interval and a ticker that fires no more often than that, it ends
  with a result or an error, after at most one upload, one status request per interval of the
  configured time and one more, and one download. It does not matter what the network answers.\<close>

theorem mcp_convert_returns:
  assumes "0 < mc_pollInterval c"
    and "\<And>k. clock_after env (Suc (length (exchanges s))) + int k * mc_pollInterval c
             \<le> clock_after env (Suc (Suc (length (exchanges s))) + k)"
  shows "\<exists>r s'. ConvertBlocking c env path target preset rawOpts token s = Some (Returned r, s')
    \<and> length (exchanges s') \<le> length (exchanges s) + nat ((mc_convertTimeout c + mc_pollInterval c - 1) div mc_pollInterval c) + 3"
proof -
  let ?I = "mc_pollInterval c" and ?T = "mc_convertTimeout c"
  let ?n = "nat ((?T + ?I - 1) div ?I)"
  obtain r s1 where create: "CreateJob c env path target preset rawOpts s = (r, s1)" by force
  show ?thesis
  proof (cases r)
    case (Inl e)
    have "length (exchanges s1) \<le> Suc (length (exchanges s))"
      using create by (auto simp: CreateJob_def then_run_def read_file_def split: sum.splits prod.splits
          dest!: api_call_one(1))
    then show ?thesis using create Inl by (simp add: ConvertBlocking_def)
  next
    case (Inr jobID)
    have n1: "length (exchanges s1) = Suc (length (exchanges s))"
      using create Inr by (auto simp: CreateJob_def read_file_def elim!: then_run_InrE dest!: api_call_one(2))
    have "?T \<le> int ?n * ?I"
    proof (cases "0 \<le> (?T + ?I - 1) div ?I")
      case True
      have "(?T + ?I - 1) mod ?I < ?I" using assms(1) by simp
      then have "?T \<le> (?T + ?I - 1) div ?I * ?I" using div_mult_mod_eq [of "?T + ?I - 1" ?I] by linarith
      with True show ?thesis by simp
    next
      case False
      then have "?T + ?I - 1 < 0" using assms(1) pos_imp_zdiv_nonneg_iff [of ?I "?T + ?I - 1"] by linarith
      then show ?thesis using assms(1) False by simp
    qed
    then have "clock_after env (length (exchanges s1)) + ?T \<le> clock_after env (length (exchanges s1) + Suc ?n)"
      using assms(2) [of ?n] n1 by simp
    from await_returns [OF this] obtain r' s' where
      "await_job c env jobID (clock_after env (length (exchanges s1)) + ?T) token 0 s1 = Some (r', s')"
      "length (exchanges s') \<le> length (exchanges s1) + ?n + 2" by blast
    then show ?thesis using create Inr n1 assms(1) by (simp add: ConvertBlocking_def)
  qed
qed

text \<open>An interval that is not positive, which the environment may set, makes the same call panic.\<close>

theorem poll_interval_panics:
  assumes "CreateJob c env path target preset rawOpts s = (Inr jobID, s1)" "mc_pollInterval c \<le> 0"
  shows "ConvertBlocking c env path target preset rawOpts token s = Some (Panicked, s1)"
  using assms by (simp add: ConvertBlocking_def)

subsection \<open>No key in an error\<close>

lemma str_contains_iff: "str_contains s k \<longleftrightarrow> (\<exists>a b. s = a @ k @ b)"
proof (induction s)
  case (Cons x s)
  have "(\<exists>a b. x # s = a @ k @ b) \<longleftrightarrow> (\<exists>b. x # s = k @ b) \<or> (\<exists>a b. s = a @ k @ b)"
    by (metis append_Cons append_Nil append_eq_Cons_conv)
  with Cons show ?case by (simp add: has_prefix_iff)
qed auto

lemma str_contains_split:
  assumes "x \<notin> set k" "k \<noteq> []"
  shows "str_contains (a @ x # b) k \<longleftrightarrow> str_contains a k \<or> str_contains b k"
proof (induction a)
  case Nil
  have "\<not> has_prefix (x # b) k" using assms by (cases k) (auto simp: has_prefix_iff)
  then show ?case using assms(2) by simp
next
  case (Cons y a)
  have "has_prefix (y # a @ x # b) k \<longleftrightarrow> has_prefix (y # a) k"
  proof
    assume "has_prefix (y # a @ x # b) k"
    then obtain r where r: "(y # a) @ x # b = k @ r" by (auto simp: has_prefix_iff)
    then show "has_prefix (y # a) k"
    proof (cases "length k \<le> length (y # a)")
      case True
      then show ?thesis using r by (metis append_eq_append_conv_if has_prefix_def)
    next
      case False
      then have "x \<in> set (take (length k) ((y # a) @ x # b))"
        by (auto simp: take_Cons' Suc_diff_le)
      with r assms(1) show ?thesis by simp
    qed
  next
    assume "has_prefix (y # a) k"
    then have "has_prefix ((y # a) @ x # b) k" unfolding has_prefix_iff by force
    then show "has_prefix (y # a @ x # b) k" by simp
  qed
  with Cons show ?case by simp
qed

lemma str_contains_short: "length s < length k \<Longrightarrow> \<not> str_contains s k"
  by (auto simp: str_contains_iff)

lemma replace_all_prefix:
  "set k \<inter> {CHR ''['', CHR '']''} = {} \<Longrightarrow> has_prefix (replace_all key ''[REDACTED]'' s) k \<Longrightarrow> has_prefix s k"
proof (induction s arbitrary: k)
  case (Cons x s)
  show ?case
  proof (cases "has_prefix (x # s) key \<or> k = []")
    case True
    with Cons.prems show ?thesis by (cases k) (auto simp: has_prefix_iff)
  next
    case False
    with Cons.prems obtain k' where k: "k = x # k'" "has_prefix (replace_all key ''[REDACTED]'' s) k'"
      by (cases k) (auto simp: has_prefix_iff)
    with Cons.IH [of k'] Cons.prems(1) show ?thesis by (auto simp: has_prefix_iff)
  qed
qed (auto simp: has_prefix_iff)

lemma redact_clean:
  assumes "set key \<inter> {CHR ''['', CHR '']''} = {}" "8 < length key"
  shows "\<not> str_contains (redact s key) key"
proof -
  have ne: "key \<noteq> []" and b: "CHR ''['' \<notin> set key" "CHR '']'' \<notin> set key" using assms by auto
  have "\<not> str_contains (replace_all key ''[REDACTED]'' s) key"
  proof (induction s rule: length_induct)
    case (1 s)
    show ?case
    proof (cases s)
      case (Cons x t)
      have IH: "\<not> str_contains (replace_all key ''[REDACTED]'' u) key" if "length u \<le> length t" for u
        using 1 that Cons by simp
      show ?thesis
      proof (cases "has_prefix s key")
        case True
        have "\<not> str_contains ''REDACTED'' key" using assms(2) by (intro str_contains_short) simp
        moreover have "\<not> str_contains (replace_all key ''[REDACTED]'' (drop (length key - 1) t)) key" by (rule IH) simp
        ultimately have "\<not> str_contains ([] @ CHR ''['' # ''REDACTED'' @ CHR '']''
            # replace_all key ''[REDACTED]'' (drop (length key - 1) t)) key"
          using str_contains_split [OF b(1) ne] str_contains_split [OF b(2) ne] ne by (metis str_contains.simps(1))
        then show ?thesis using Cons True by (simp del: str_contains.simps)
      next
        case False
        have "\<not> has_prefix (x # replace_all key ''[REDACTED]'' t) key"
        proof
          assume p: "has_prefix (x # replace_all key ''[REDACTED]'' t) key"
          have "has_prefix (replace_all key ''[REDACTED]'' s) key" using p False Cons by simp
          from replace_all_prefix [OF assms(1) this] False show False by simp
        qed
        then show ?thesis using False Cons IH [of t] by simp
      qed
    qed (use ne in simp)
  qed
  then show ?thesis using ne by (simp add: redact_def)
qed

lemma report_clean:
  assumes "8 < length key" "set key \<inter> {CHR ''['', CHR '']'', CHR '' ''} = {}"
    and "act \<in> {''create job'', ''get job'', ''list formats'', ''list presets'', ''download result''}"
  shows "\<not> str_contains (act @ '': '' @ redact msg key) key"
proof -
  have ne: "key \<noteq> []" and blank: "CHR '' '' \<notin> set key" and b: "set key \<inter> {CHR ''['', CHR '']''} = {}" using assms by auto
  have "\<exists>w1 w2. act = w1 @ CHR '' '' # w2 \<and> length w1 \<le> 8 \<and> length w2 \<le> 7"
    using assms(3) by (elim insertE emptyE) (rule exI [of _ "takeWhile (\<lambda>c. c \<noteq> CHR '' '') act"],
      rule exI [of _ "tl (dropWhile (\<lambda>c. c \<noteq> CHR '' '') act)"], simp)+
  then obtain w1 w2 where act: "act = w1 @ CHR '' '' # w2" "length w1 < length key" "length (w2 @ '':'') < length key"
    using assms(1) by fastforce
  have "\<not> str_contains (w1 @ CHR '' '' # (w2 @ '':'') @ CHR '' '' # redact msg key) key"
    using str_contains_split [OF blank ne] str_contains_short [OF act(2)] str_contains_short [OF act(3)]
      redact_clean [OF b assms(1), of msg] by blast
  then show ?thesis by (simp add: act(1))
qed

lemma reported_errors:
  "\<exists>msg. Error (wrapTransportErr c act e) = act @ '': '' @ redact msg (mc_apiKey c)"
  "\<exists>msg. Error (apiError c env act resp) = act @ '': '' @ redact msg (mc_apiKey c)"
  by (auto simp: wrapTransportErr_def apiError_def fault_def Let_def)

text \<open>A request that was sent and got no answer, or one with another status than it has to have.\<close>

definition unserved :: "mcp_env \<Rightarrow> mcp_state \<Rightarrow> http_req \<Rightarrow> nat \<Rightarrow> bool" where
  "unserved env s r ok \<longleftrightarrow> bad_request env (rq_url r) = None
     \<and> (case answered env (length (exchanges s)) r of Inl _ \<Rightarrow> True | Inr resp \<Rightarrow> ans_status resp \<noteq> ok)"

lemma api_call_unserved:
  assumes "unserved env s r ok" "api_call c env act r ok dec s = (x, s')"
  shows "\<exists>e msg. x = Inl e \<and> Error e = act @ '': '' @ redact msg (mc_apiKey c)"
  using assms reported_errors
  by (auto simp: unserved_def api_call_def http_Do_def then_run_def split: sum.splits)

lemma Download_unserved:
  assumes "unserved env s (download_req c u) 200" "Download c env jobID u s = (x, s')"
  shows "\<exists>e msg. x = Inl e \<and> Error e = ''download result'' @ '': '' @ redact msg (mc_apiKey c)"
proof -
  have "rq_url (download_req c u) = u" by (simp add: download_req_def)
  then show ?thesis using assms reported_errors(1) [of c "''download result''"] reported_errors(2) [of c env "''download result''"]
    by (auto simp: unserved_def Download_def http_Do_def then_run_def split: sum.splits)
qed

text \<open>C36: The key of the client does not show in what it reports about a request that failed on the network or was refused. For
  a key longer than eight characters without blanks and brackets, the error of an upload, a status request, a
  list request or a download that got no answer, or one with another status than it has to have, does not
  contain the key, even when the other side echoes it. Nothing is said of the errors of building a request, of
  decoding a body, of local files, and of a failed job.\<close>

theorem mcp_errors_redacted:
  assumes "8 < length (mc_apiKey c)" "set (mc_apiKey c) \<inter> {CHR ''['', CHR '']'', CHR '' ''} = {}"
  shows "(\<forall>content x s'. fs_fails env ''open'' path = None \<and> fs_fails env ''read'' path = None
        \<and> host_files s path = Some (Regular content)
        \<and> unserved env s (create_req c path content target preset rawOpts) 202
        \<and> CreateJob c env path target preset rawOpts s = (x, s') \<longrightarrow>
        (\<exists>e. x = Inl e \<and> \<not> str_contains (Error e) (mc_apiKey c)))
    \<and> (\<forall>jobID x s'. unserved env s (job_req c jobID) 200 \<and> GetJob c env jobID s = (x, s') \<longrightarrow>
        (\<exists>e. x = Inl e \<and> \<not> str_contains (Error e) (mc_apiKey c)))
    \<and> (\<forall>x s'. unserved env s (api_req c ''GET'' ''/v1/formats'' []) 200 \<and> ListFormats c env s = (x, s') \<longrightarrow>
        (\<exists>e. x = Inl e \<and> \<not> str_contains (Error e) (mc_apiKey c)))
    \<and> (\<forall>b x s'. unserved env s (api_req c ''GET'' (''/v1/presets'' @ (if b then ''?all=true'' else [])) []) 200
        \<and> ListPresets c env b s = (x, s') \<longrightarrow> (\<exists>e. x = Inl e \<and> \<not> str_contains (Error e) (mc_apiKey c)))
    \<and> (\<forall>jobID u x s'. unserved env s (download_req c u) 200 \<and> Download c env jobID u s = (x, s') \<longrightarrow>
        (\<exists>e. x = Inl e \<and> \<not> str_contains (Error e) (mc_apiKey c)))"
proof (intro conjI allI impI; elim conjE)
  note clean = report_clean [OF assms]
  fix content x s'
  assume f: "fs_fails env ''open'' path = None" "fs_fails env ''read'' path = None" "host_files s path = Some (Regular content)"
    and u: "unserved env s (create_req c path content target preset rawOpts) 202"
    and r: "CreateJob c env path target preset rawOpts s = (x, s')"
  have "CreateJob c env path target preset rawOpts s = api_call c env ''create job''
      (create_req c path content target preset rawOpts) 202 (decode_struct [(''job_id'', set_string (\<lambda>s _. s))] []) s"
    using f by (simp add: CreateJob_def read_file_def then_run_def)
  from api_call_unserved [OF u r [unfolded this]] show "\<exists>e. x = Inl e \<and> \<not> str_contains (Error e) (mc_apiKey c)"
    using clean [of "''create job''"] by (metis insertI1)
next
  fix jobID x s'
  assume u: "unserved env s (job_req c jobID) 200" and r: "GetJob c env jobID s = (x, s')"
  from api_call_unserved [OF u r [unfolded GetJob_def]] show "\<exists>e. x = Inl e \<and> \<not> str_contains (Error e) (mc_apiKey c)"
    using report_clean [OF assms, of "''get job''"] by (metis insertI1 insertI2)
next
  fix x s'
  assume u: "unserved env s (api_req c ''GET'' ''/v1/formats'' []) 200" and r: "ListFormats c env s = (x, s')"
  from api_call_unserved [OF u r [unfolded ListFormats_def]] show "\<exists>e. x = Inl e \<and> \<not> str_contains (Error e) (mc_apiKey c)"
    using report_clean [OF assms, of "''list formats''"] by (metis insertI1 insertI2)
next
  fix b x s'
  assume u: "unserved env s (api_req c ''GET'' (''/v1/presets'' @ (if b then ''?all=true'' else [])) []) 200"
    and r: "ListPresets c env b s = (x, s')"
  from api_call_unserved [OF u r [unfolded ListPresets_def]] show "\<exists>e. x = Inl e \<and> \<not> str_contains (Error e) (mc_apiKey c)"
    using report_clean [OF assms, of "''list presets''"] by (metis insertI1 insertI2)
next
  fix jobID u x s'
  assume u: "unserved env s (download_req c u) 200" and r: "Download c env jobID u s = (x, s')"
  from Download_unserved [OF u r] show "\<exists>e. x = Inl e \<and> \<not> str_contains (Error e) (mc_apiKey c)"
    using report_clean [OF assms, of "''download result''"] by (metis insertI1 insertI2)
qed

subsection \<open>What comes back\<close>

lemma api_call_answer:
  assumes "api_call c env act r ok dec s = (Inr x, s')"
  shows "\<exists>resp. answered env (length (exchanges s)) r = Inr resp \<and> ans_status resp = ok \<and> decode_body env act dec resp = Inr x
    \<and> s' = s\<lparr>exchanges := exchanges s @ [r]\<rparr>"
  using assms by (auto simp: api_call_def http_Do_def elim!: then_run_InrE split: option.splits sum.splits if_splits)

lemma Download_delivers:
  assumes "Download c env jobID u s = (Inr p, s')"
  shows "\<exists>dl. answered env (length (exchanges s)) (download_req c u) = Inr dl \<and> ans_status dl = 200 \<and> ans_cut dl = None
    \<and> exchanges s' = exchanges s @ [download_req c u] \<and> host_files s' = (host_files s)(p := Some (Regular (ans_body dl)))"
  using assms
  by (auto simp: Download_def http_Do_def create_file_def copy_body_def Let_def elim!: then_run_InrE
      split: option.splits sum.splits if_splits)

text \<open>The status request that ended the wait, and what the result says of it.\<close>

definition delivered :: "mcp_client \<Rightarrow> mcp_env \<Rightarrow> string \<Rightarrow> mcp_state \<Rightarrow> ConvertResult \<Rightarrow> mcp_state \<Rightarrow> bool" where
  "delivered c env jobID s res s' \<longleftrightarrow>
     cr_JobID res = jobID
     \<and> (\<exists>k resp job. length (exchanges s) \<le> k \<and> k < length (exchanges s') \<and> exchanges s' ! k = job_req c jobID
        \<and> answered env k (job_req c jobID) = Inr resp \<and> ans_status resp = 200
        \<and> decode_body env ''get job'' (decode_struct job_status_fields zero_JobStatus) resp = Inr job
        \<and> js_Status job = StatusDone \<and> js_DownloadURL job = cr_DownloadURL res)
     \<and> (if mc_resultMode c = ResultRemote then cr_LocalPath res = [] \<and> host_files s' = host_files s
        else \<exists>es dl. exchanges s' = es @ [download_req c (cr_DownloadURL res)]
          \<and> answered env (length es) (download_req c (cr_DownloadURL res)) = Inr dl \<and> ans_status dl = 200 \<and> ans_cut dl = None
          \<and> host_files s' = (host_files s)(cr_LocalPath res := Some (Regular (ans_body dl))))"

lemma delivered_later:
  "host_files t = host_files s \<and> length (exchanges s) \<le> length (exchanges t) \<Longrightarrow> delivered c env jobID t res s'
   \<Longrightarrow> delivered c env jobID s res s'"
  unfolding delivered_def by (elim conjE, intro conjI) (assumption, blast intro: order_trans, simp only:)

lemma await_delivers:
  "await_job c env jobID deadline token k s = Some out \<Longrightarrow> fst out = Inr res \<Longrightarrow> delivered c env jobID s res (snd out)"
proof (induction rule: await_induct)
  case (step aw c env jobID deadline token k s out)
  obtain r s1 where get: "GetJob c env jobID s = (r, s1)" by force
  show ?case
  proof (cases r)
    case (Inl e)
    then show ?thesis using step(2,3) get by auto
  next
    case (Inr job)
    let ?s2 = "on_tick token (Suc k) (js_Status job) s1"
    from api_call_answer [OF get [unfolded Inr GetJob_def]] obtain resp where resp:
      "answered env (length (exchanges s)) (job_req c jobID) = Inr resp" "ans_status resp = 200"
      "decode_body env ''get job'' (decode_struct job_status_fields zero_JobStatus) resp = Inr job" "host_files s1 = host_files s"
      and sent: "exchanges s1 = exchanges s @ [job_req c jobID]"
      by auto
    have fin: "delivered c env jobID s res (snd out)"
      if "js_Status job = StatusDone" "finish_job c env jobID job ?s2 = out"
    proof -
      have "finish_job c env jobID job ?s2 = (Inr res, snd out)" using that(2) step(3) by (simp add: prod_eq_iff)
      note fin = this
      show ?thesis
      proof (cases "mc_resultMode c = ResultRemote")
        case True
        then have res: "res = \<lparr>cr_JobID = jobID, cr_DownloadURL = js_DownloadURL job, cr_LocalPath = []\<rparr>" "snd out = ?s2"
          using fin by (auto simp: finish_job_def)
        show ?thesis using True resp sent that(1) unfolding delivered_def res
          by (auto intro!: exI [of _ "length (exchanges s)"])
      next
        case False
        then obtain p where res: "res = \<lparr>cr_JobID = jobID, cr_DownloadURL = js_DownloadURL job, cr_LocalPath = p\<rparr>"
          and dl: "Download c env jobID (js_DownloadURL job) ?s2 = (Inr p, snd out)"
          using fin by (auto simp: finish_job_def elim!: then_run_InrE)
        from Download_delivers [OF dl] obtain ans where
          "answered env (length (exchanges ?s2)) (download_req c (js_DownloadURL job)) = Inr ans" "ans_status ans = 200" "ans_cut ans = None"
          "exchanges (snd out) = exchanges ?s2 @ [download_req c (js_DownloadURL job)]"
          "host_files (snd out) = (host_files ?s2)(p := Some (Regular (ans_body ans)))" by blast
        then show ?thesis using False resp sent that(1) unfolding delivered_def res
          by (auto simp: nth_append intro!: exI [of _ "length (exchanges s)"])
      qed
    qed
    have again: "delivered c env jobID s res (snd out)" if "aw c env jobID deadline token (Suc k) ?s2 = Some out"
      using delivered_later [OF _ step(1) [OF that step(3)]] resp(4) sent by simp
    show ?thesis
      using step(2,3) get Inr fin again by (auto simp: Let_def split: if_splits option.splits)
  qed
qed

subsection \<open>Against the service\<close>

text \<open>A reply of the service on the wire: its status, and a body that reads as its JSON.\<close>

definition carries :: "mcp_env \<Rightarrow> http_resp \<Rightarrow> http_reply \<Rightarrow> bool" where
  "carries env resp r \<longleftrightarrow> ans_status resp = r_status r \<and> json_first env (ans_body resp) (ans_cut resp) = Inr (r_body r)"

lemma job_field_finds:
  "find_field job_status_fields ''job_id'' = Some (set_string (\<lambda>x o0. o0\<lparr>js_JobID := x\<rparr>))"
  "find_field job_status_fields ''status'' = Some (set_string (\<lambda>x o0. o0\<lparr>js_Status := x\<rparr>))"
  "find_field job_status_fields ''opts'' = Some (set_object (\<lambda>x o0. o0\<lparr>js_Opts := x\<rparr>))"
  "find_field job_status_fields ''download_url'' = Some (set_string (\<lambda>x o0. o0\<lparr>js_DownloadURL := x\<rparr>))"
  "find_field job_status_fields ''error_code'' = Some (set_string (\<lambda>x o0. o0\<lparr>js_ErrorCode := x\<rparr>))"
  "find_field job_status_fields ''error_message'' = Some (set_string (\<lambda>x o0. o0\<lparr>js_ErrorMessage := x\<rparr>))"
  by (simp_all add: find_field_def job_status_fields_def)

definition status_json :: "api_io \<Rightarrow> Job \<Rightarrow> string option \<Rightarrow> (string \<times> json) list" where
  "status_json io job link = job_fields io job @ extra_fields link job"

definition job_updates :: "api_io \<Rightarrow> Job \<Rightarrow> string option \<Rightarrow> (JobStatus \<Rightarrow> JobStatus) set" where
  "job_updates io job link =
     {js_JobID_update (\<lambda>_. uuid_text io (ID job)), js_Status_update (\<lambda>_. Status job), js_Opts_update (\<lambda>_. Opts job),
      js_DownloadURL_update (\<lambda>_. the link), js_ErrorCode_update (\<lambda>_. ErrorCode job),
      js_ErrorMessage_update (\<lambda>_. ErrorMessage job)}"

lemma job_updates_commute: "u \<in> job_updates io job link \<Longrightarrow> v \<in> job_updates io job link \<Longrightarrow> u \<circ> v = v \<circ> u"
  unfolding job_updates_def by (elim insertE emptyE; hypsubst; rule ext; simp)

lemma status_updates:
  assumes "x \<in> set (status_json io job link)"
  shows "\<exists>u. set_field job_status_fields x = map_option u \<and> u \<in> job_updates io job link"
proof -
  have str: "set_field job_status_fields (k, JsonStr v) = map_option (upd v)"
    if "find_field job_status_fields k = Some (set_string upd)" for k v upd
    using that by (auto simp: set_field_def set_string_def fun_eq_iff split: option.split)
  have obj: "set_field job_status_fields (k, JsonObj v) = map_option (upd v)"
    if "find_field job_status_fields k = Some (set_object upd)" for k v upd
    using that by (auto simp: set_field_def set_object_def fun_eq_iff split: option.split)
  note fld = str [OF job_field_finds(1)] str [OF job_field_finds(2)] obj [OF job_field_finds(3)] str [OF job_field_finds(4)]
    str [OF job_field_finds(5)] str [OF job_field_finds(6)]
  show ?thesis using assms
    by (auto simp: status_json_def job_fields_def opts_field_def extra_fields_def error_fields_def fld job_updates_def split: option.splits if_splits)
qed

lemma set_field_commute:
  assumes "x \<in> set (status_json io job link)" "y \<in> set (status_json io job link)"
  shows "set_field job_status_fields x \<circ> set_field job_status_fields y = set_field job_status_fields y \<circ> set_field job_status_fields x"
proof -
  obtain u v where u: "set_field job_status_fields x = map_option u" "u \<in> job_updates io job link"
    and v: "set_field job_status_fields y = map_option v" "v \<in> job_updates io job link"
    using status_updates [OF assms(1)] status_updates [OF assms(2)] by blast
  then show ?thesis using job_updates_commute [OF u(2) v(2)] unfolding u(1) v(1)
    by (metis option.map_comp comp_apply ext)
qed

lemma decode_status:
  "decode_struct job_status_fields zero_JobStatus (job_body (status_json io job link))
   = Some \<lparr>js_JobID = uuid_text io (ID job), js_Status = Status job, js_Opts = Opts job,
       js_DownloadURL = (case link of Some u \<Rightarrow> u | None \<Rightarrow> []),
       js_ErrorCode = (if Status job = StatusFailed then ErrorCode job else []),
       js_ErrorMessage = (if Status job = StatusFailed then ErrorMessage job else [])\<rparr>"
proof -
  have "fold (set_field job_status_fields) (sort_key fst (status_json io job link))
      = fold (set_field job_status_fields) (status_json io job link)"
    by (rule fold_multiset_equiv) (auto intro: set_field_commute)
  then show ?thesis
    by (auto simp: decode_struct_def job_body_def status_json_def job_fields_def opts_field_def extra_fields_def error_fields_def
        set_field_def job_field_finds set_string_def set_object_def zero_JobStatus_def split: option.splits)
qed

lemma status_answer_json: "status_answer io job link = writeJSON 200 (job_body (status_json io job link))"
  by (simp add: status_answer_def status_json_def)

text \<open>The world after the row of the job was read.\<close>

definition after_load :: "'q schedule \<Rightarrow> uuid \<Rightarrow> 'q world \<Rightarrow> 'q world" where
  "after_load s i w = snd (db_call s (\<lambda>n now d. (Get n i d, d)) w)"

text \<open>The link of an answer about a finished job: the signed address of its first output, or none.\<close>

definition own_link :: "server \<Rightarrow> api_io \<Rightarrow> 'q schedule \<Rightarrow> uuid \<Rightarrow> 'q world \<Rightarrow> string option \<Rightarrow> bool" where
  "own_link srv io s i w link \<longleftrightarrow>
     (case Outputs (net_of s (wtick w)) i (db_seen s w) of
        Inl _ \<Rightarrow> False
      | Inr [] \<Rightarrow> link = None
      | Inr (f # _) \<Rightarrow> link \<noteq> None \<and> link = PresignGet io (object_key f) (presignTTL srv))"

lemma done_response_link:
  assumes "Status job = StatusDone" "r_status (fst (done_response srv io s job i w)) = 200"
  shows "\<exists>link. fst (done_response srv io s job i w) = status_answer io job link \<and> own_link srv io s i w link"
proof -
  obtain outs w1 where outs: "db_call s (\<lambda>n now d. (Outputs n i d, d)) w = (outs, w1)" by force
  then have seen: "outs = Outputs (net_of s (wtick w)) i (db_seen s w)"
    by (auto simp: db_call_def db_seen_def Let_def split: prod.splits)
  obtain fs where fs: "outs = Inr fs" using outs assms(2) by (cases outs) (auto simp: done_response_def writeError_def writeJSON_def)
  have none: "job_body (job_fields io job) = job_body (status_json io job None)"
    and some: "job_body (job_fields io job @ [(''download_url'', JsonStr u)]) = job_body (status_json io job (Some u))" for u
    using assms(1) by (simp_all add: status_json_def extra_fields_def status_defs)
  show ?thesis
  proof (cases fs)
    case Nil
    then show ?thesis using outs fs seen
      by (intro exI [of _ None]) (simp add: done_response_def status_answer_json none own_link_def)
  next
    case (Cons f rest)
    then obtain u where u: "PresignGet io (object_key f) (presignTTL srv) = Some u"
      using outs fs assms(2) by (cases "PresignGet io (object_key f) (presignTTL srv)") (auto simp: done_response_def writeError_def writeJSON_def)
    then show ?thesis using outs fs Cons seen
      by (intro exI [of _ "Some u"]) (simp add: done_response_def status_answer_json some own_link_def)
  qed
qed

lemma get_job_link:
  assumes "r_status (fst (handleGetJob srv io s cid txt w)) = 200"
  shows "\<exists>i job link. uuid_Parse io txt = Some i \<and> Get (net_of s (wtick w)) i (db_seen s w) = Inr job \<and> ClientID job = cid
    \<and> fst (handleGetJob srv io s cid txt w) = status_answer io job link
    \<and> (Status job = StatusDone \<longrightarrow> own_link srv io s i (after_load s i w) link)"
proof -
  obtain i where i: "uuid_Parse io txt = Some i"
    using assms by (cases "uuid_Parse io txt") (auto simp: handleGetJob_def writeError_def writeJSON_def)
  obtain ld w1 where ld: "db_call s (\<lambda>n now d. (Get n i d, d)) w = (ld, w1)" by force
  obtain job where job: "ld = Inr job" "ClientID job = cid"
    using assms i ld by (cases ld) (auto simp: handleGetJob_def writeError_def writeJSON_def split: if_splits)
  have seen: "Get (net_of s (wtick w)) i (db_seen s w) = Inr job" "after_load s i w = w1"
    using ld job(1) by (auto simp: db_call_def db_seen_def after_load_def Let_def split: prod.splits)
  have failed: "job_body (job_fields io job @ error_fields job) = job_body (status_json io job None)" if "Status job = StatusFailed"
    using that by (simp add: status_json_def extra_fields_def)
  have live: "job_body (job_fields io job) = job_body (status_json io job None)" if "Status job \<noteq> StatusFailed"
    using that by (simp add: status_json_def extra_fields_def)
  show ?thesis
  proof (cases "Status job = StatusDone")
    case True
    then have reply: "fst (handleGetJob srv io s cid txt w) = fst (done_response srv io s job i w1)"
      using i ld job by (simp add: handleGetJob_def)
    show ?thesis using done_response_link [OF True] assms i seen job(2) unfolding reply by blast
  next
    case False
    then have "fst (handleGetJob srv io s cid txt w) = status_answer io job None"
      using i ld job failed live by (auto simp: handleGetJob_def status_answer_json)
    with False i seen(1) job(2) show ?thesis by blast
  qed
qed

text \<open>C33: An agent gets the result it asked for. Let the status request that is exchange \<open>k\<close> be answered, if at all, by the
  service for the client of the key, in a world \<open>wd k\<close> under a schedule \<open>sch k\<close>: any database and any interleaving. Then a
  success of a blocking conversion means: the file named was uploaded as it was, with the target, the preset and the
  options given, and the identifier of the result is the one that upload was answered with; one of the status requests it
  made met, in the database it was answered from, a finished job with that identifier and of this client; the link is the
  one the service signed for the first output that job has there, and empty if it has none; and a local host holds exactly
  the bytes the last request, for that link, delivered, in the file the result names, and no other file has changed.\<close>

theorem mcp_follows_service:
  fixes sch :: "nat \<Rightarrow> 'q schedule" and wd :: "nat \<Rightarrow> 'q world"
  assumes "ConvertBlocking c env path target preset rawOpts token s = Some (Returned (Inr res), s')"
    and "\<forall>k jobID resp. answered env k (job_req c jobID) = Inr resp \<longrightarrow>
           carries env resp (fst (handleGetJob srv io (sch k) cid jobID (wd k)))"
  shows "(\<exists>content. host_files s path = Some (Regular content)
       \<and> (\<exists>resp. answered env (length (exchanges s)) (create_req c path content target preset rawOpts) = Inr resp \<and> ans_status resp = 202
            \<and> decode_body env ''create job'' (decode_struct [(''job_id'', set_string (\<lambda>s _. s))] []) resp = Inr (cr_JobID res)))
    \<and> (\<exists>k i job outs. length (exchanges s) < k \<and> k < length (exchanges s') \<and> exchanges s' ! k = job_req c (cr_JobID res)
         \<and> uuid_Parse io (cr_JobID res) = Some i
         \<and> Get (net_of (sch k) (wtick (wd k))) i (db_seen (sch k) (wd k)) = Inr job
         \<and> ClientID job = cid \<and> Status job = StatusDone
         \<and> Outputs (net_of (sch k) (wtick (after_load (sch k) i (wd k)))) i (db_seen (sch k) (after_load (sch k) i (wd k))) = Inr outs
         \<and> (case outs of [] \<Rightarrow> cr_DownloadURL res = []
            | f # _ \<Rightarrow> PresignGet io (object_key f) (presignTTL srv) = Some (cr_DownloadURL res)))
    \<and> (if mc_resultMode c = ResultRemote then cr_LocalPath res = [] \<and> host_files s' = host_files s
       else \<exists>es dl. exchanges s' = es @ [download_req c (cr_DownloadURL res)]
         \<and> answered env (length es) (download_req c (cr_DownloadURL res)) = Inr dl \<and> ans_status dl = 200 \<and> ans_cut dl = None
         \<and> host_files s' = (host_files s)(cr_LocalPath res := Some (Regular (ans_body dl))))"
proof -
  obtain jobID s1 where create: "CreateJob c env path target preset rawOpts s = (Inr jobID, s1)"
    and await: "await_job c env jobID (clock_after env (length (exchanges s1)) + mc_convertTimeout c) token 0 s1 = Some (Inr res, s')"
    using assms(1) by (auto simp: ConvertBlocking_def split: prod.splits sum.splits if_splits)
  obtain content where content: "host_files s path = Some (Regular content)"
    and call: "api_call c env ''create job'' (create_req c path content target preset rawOpts) 202
      (decode_struct [(''job_id'', set_string (\<lambda>s _. s))] []) s = (Inr jobID, s1)"
    using create by (auto simp: CreateJob_def read_file_def elim!: then_run_InrE split: option.splits inode.splits)
  from api_call_answer [OF call] obtain up where up:
    "answered env (length (exchanges s)) (create_req c path content target preset rawOpts) = Inr up" "ans_status up = 202"
    "decode_body env ''create job'' (decode_struct [(''job_id'', set_string (\<lambda>s _. s))] []) up = Inr jobID"
    and s1: "host_files s1 = host_files s" "length (exchanges s1) = Suc (length (exchanges s))" by auto
  have del: "delivered c env jobID s1 res s'" using await_delivers [OF await, of res] by simp
  then have id: "cr_JobID res = jobID" by (simp add: delivered_def)
  obtain k resp js where k: "length (exchanges s) < k" "k < length (exchanges s')" "exchanges s' ! k = job_req c jobID"
    and js: "answered env k (job_req c jobID) = Inr resp" "ans_status resp = 200"
    "decode_body env ''get job'' (decode_struct job_status_fields zero_JobStatus) resp = Inr js" "js_Status js = StatusDone"
    "js_DownloadURL js = cr_DownloadURL res"
    using del s1(2) by (auto simp: delivered_def Suc_le_eq)
  have w: "carries env resp (fst (handleGetJob srv io (sch k) cid jobID (wd k)))" using assms(2) js(1) by blast
  have body: "Inr js = (case decode_struct job_status_fields zero_JobStatus (r_body (fst (handleGetJob srv io (sch k) cid jobID (wd k)))) of
      None \<Rightarrow> Inl (wrapped (''get job'' @ '': decode response'') (type_error env)) | Some x \<Rightarrow> Inr x)"
    using js(3) w by (simp add: decode_body_def carries_def)
  have ok: "r_status (fst (handleGetJob srv io (sch k) cid jobID (wd k))) = 200" using js(2) w by (simp add: carries_def)
  obtain i job link where job: "uuid_Parse io jobID = Some i"
    "Get (net_of (sch k) (wtick (wd k))) i (db_seen (sch k) (wd k)) = Inr job" "ClientID job = cid"
    and ans: "fst (handleGetJob srv io (sch k) cid jobID (wd k)) = status_answer io job link"
    and link: "Status job = StatusDone \<longrightarrow> own_link srv io (sch k) i (after_load (sch k) i (wd k)) link"
    using get_job_link [OF ok] by blast
  have read: "Status job = StatusDone" "cr_DownloadURL res = (case link of Some u \<Rightarrow> u | None \<Rightarrow> [])"
    using body js(4,5) unfolding ans status_answer_json by (auto simp: writeJSON_def decode_status)
  then obtain outs where
    "Outputs (net_of (sch k) (wtick (after_load (sch k) i (wd k)))) i (db_seen (sch k) (after_load (sch k) i (wd k))) = Inr outs"
    "case outs of [] \<Rightarrow> cr_DownloadURL res = [] | f # _ \<Rightarrow> PresignGet io (object_key f) (presignTTL srv) = Some (cr_DownloadURL res)"
    using link by (auto simp: own_link_def split: sum.splits list.splits)
  then have "\<exists>k i job outs. length (exchanges s) < k \<and> k < length (exchanges s') \<and> exchanges s' ! k = job_req c (cr_JobID res)
         \<and> uuid_Parse io (cr_JobID res) = Some i
         \<and> Get (net_of (sch k) (wtick (wd k))) i (db_seen (sch k) (wd k)) = Inr job
         \<and> ClientID job = cid \<and> Status job = StatusDone
         \<and> Outputs (net_of (sch k) (wtick (after_load (sch k) i (wd k)))) i (db_seen (sch k) (after_load (sch k) i (wd k))) = Inr outs
         \<and> (case outs of [] \<Rightarrow> cr_DownloadURL res = []
            | f # _ \<Rightarrow> PresignGet io (object_key f) (presignTTL srv) = Some (cr_DownloadURL res))"
    using k job read(1) unfolding id by blast
  moreover have "\<exists>content. host_files s path = Some (Regular content)
       \<and> (\<exists>resp. answered env (length (exchanges s)) (create_req c path content target preset rawOpts) = Inr resp \<and> ans_status resp = 202
            \<and> decode_body env ''create job'' (decode_struct [(''job_id'', set_string (\<lambda>s _. s))] []) resp = Inr (cr_JobID res))"
    using content up unfolding id by blast
  ultimately show ?thesis using del [unfolded delivered_def s1(1)] by (intro conjI) blast+
qed

subsection \<open>Names of results\<close>

lemma path_Base_last:
  assumes "plain_name nm"
  shows "path_Base (a @ CHR ''/'' # nm) = nm"
proof -
  have nm: "nm \<noteq> []" "CHR ''/'' \<notin> set nm" using assms by (simp_all add: plain_name_def)
  have "dropWhile (\<lambda>c. c = CHR ''/'') (rev (a @ CHR ''/'' # nm)) = rev (a @ CHR ''/'' # nm)"
    using nm by (cases "rev nm") (auto simp: dropWhile_append)
  moreover have "takeWhile (\<lambda>c. c \<noteq> CHR ''/'') (rev (a @ CHR ''/'' # nm)) = rev nm"
    using nm(2) takeWhile_append2 [of "rev nm" "\<lambda>c. c \<noteq> CHR ''/''" "CHR ''/'' # rev a"] by auto
  ultimately show ?thesis using nm(1) by (simp add: path_Base_def Let_def)
qed

text \<open>
  The local file is named after the last element of the object key alone, which the worker chooses by the
  target format: the results of all jobs with the same target take the same file, and the later
  download replaces the earlier result.
\<close>

theorem downloads_collide:
  assumes "Download c env id1 u1 s = (Inr p1, s1)" "Download c env id2 u2 t = (Inr p2, t1)"
    and "url_path env u1 = Inr (''/bucket/'' @ OutputKey us i 0 nm)" "url_path env u2 = Inr (''/bucket/'' @ OutputKey us j 0 nm)"
    and "plain_name (path_Base nm)" "CHR 0x5C \<notin> set (path_Base nm)"
  shows "p1 = p2"
proof -
  have zero: "itoa 0 = ''0''" by code_simp
  let ?nm = "CHR ''0'' # CHR ''-'' # path_Base nm"
  have "plain_name ?nm" using assms(5) by (simp add: plain_name_def)
  then have base: "path_Base (''/bucket/'' @ OutputKey us k 0 nm) = ?nm" for k
    using path_Base_last [of ?nm "''/bucket/results/'' @ us k"] by (simp add: OutputKey_def zero)
  have "CHR ''/'' \<notin> set (path_Base nm)" using assms(5) by (simp add: plain_name_def)
  then have name: "local_name jobID (''/bucket/'' @ OutputKey us k 0 nm) = ?nm" for jobID k
    unfolding local_name_def sanitizeBasename_def base using assms(6) by (auto simp: Let_def list_ex_iff)
  have path: "p = filepath_Join (mc_outputDir c) (local_name jobID q)"
    if "Download c env jobID u s = (Inr p, s')" "url_path env u = Inr q" for jobID u s s' p q
    using that by (auto simp: Download_def Let_def elim!: then_run_InrE split: option.splits if_splits)
  show ?thesis using path [OF assms(1,3)] path [OF assms(2,4)] unfolding name by simp
qed

text \<open>
  The name taken for a link without an object name holds the job identifier as the agent gave it: the
  file then lies outside the output directory, although the comments promise it never does.
\<close>

theorem fallback_name_escapes:
  assumes "mc_outputDir c = ''/srv/out''" "mc_resultMode c \<noteq> ResultRemote"
    and "GetJob c env ''../../etc/x'' s = (Inr job, s1)" "js_Status job = StatusDone" "js_DownloadURL job \<noteq> []"
    and "Download c env ''../../etc/x'' (js_DownloadURL job) s1 = (Inr p, s2)"
    and "url_path env (js_DownloadURL job) = Inr ''/''"
  shows "p = ''/etc/x-result'' \<and> \<not> in_output c p
    \<and> (\<exists>s'. downloadResultHandler c env ''../../etc/x'' [] s
          = (Inr \<lparr>do_LocalPath = p, do_PresignedURL = js_DownloadURL job, do_ExpiryNote = []\<rparr>, s'))"
proof (intro conjI)
  have name: "filepath_Join ''/srv/out'' (local_name ''../../etc/x'' ''/'') = ''/etc/x-result''"
    "filepath_Clean ''/srv/out'' = ''/srv/out''" by code_simp+
  show p: "p = ''/etc/x-result''"
    using assms(1,6,7) name(1) by (auto simp: Download_def Let_def elim!: then_run_InrE split: option.splits if_splits)
  show "\<not> in_output c p"
    unfolding p in_output_def assms(1) name(2) below_def by simp
  have "rename_hint c env [] p s2 = (Inr p, s2)" by (simp add: rename_hint_def)
  then show "\<exists>s'. downloadResultHandler c env ''../../etc/x'' [] s
          = (Inr \<lparr>do_LocalPath = p, do_PresignedURL = js_DownloadURL job, do_ExpiryNote = []\<rparr>, s')"
    using assms(2-6) by (simp add: downloadResultHandler_def then_run_def)
qed

text \<open>The text a failed job carries is passed on as it is.\<close>

theorem failed_message_unredacted:
  assumes "GetJob c env jobID s = (Inr job, s1)" "js_Status job = StatusFailed" "js_ErrorMessage job \<noteq> []"
  shows "\<exists>e s2. await_job c env jobID deadline token k s = Some (Inl e, s2) \<and> str_contains (Error e) (js_ErrorMessage job)"
proof -
  have "Error (failed_error jobID job) = (''job '' @ jobID @ '' failed: '') @ js_ErrorMessage job @ []"
    using assms(3) by (simp add: failed_error_def fault_def)
  then have "str_contains (Error (failed_error jobID job)) (js_ErrorMessage job)" unfolding str_contains_iff by blast
  then show ?thesis using assms by (subst await_job.simps) (simp add: status_defs)
qed

subsection \<open>A conversion from end to end\<close>

definition demo_agent :: mcp_client where
  "demo_agent = \<lparr>mc_baseURL = ''http://api'', mc_apiKey = ''0123456789abcdef'', mc_outputDir = ''/out'',
     mc_convertTimeout = 10 * Second, mc_pollInterval = Second, mc_s3DialAddr = [], mc_resultMode = ResultLocal\<rparr>"

definition demo_job_json :: json where
  "demo_job_json = JsonObj [(''download_url'', JsonStr ''https://s3/out''), (''job_id'', JsonStr ''5''), (''status'', JsonStr ''done'')]"

definition demo_net :: mcp_env where
  "demo_net =
     \<lparr>answered = \<lambda>k r. Inr (if rq_method r = ''POST'' then \<lparr>ans_status = 202, ans_body = ''created'', ans_cut = None\<rparr>
         else if rq_auth r = None then \<lparr>ans_status = 200, ans_body = ''DATA'', ans_cut = None\<rparr>
         else \<lparr>ans_status = 200, ans_body = ''job'', ans_cut = None\<rparr>),
      bad_request = \<lambda>_. None, url_path = \<lambda>_. Inr ''/bucket/results/5/0-out.png'',
      json_first = \<lambda>b _. Inr (if b = ''created'' then JsonObj [(''job_id'', JsonStr ''5'')] else demo_job_json),
      json_whole = \<lambda>_. None, type_error = fault [] ''type'', time_parse = \<lambda>_. None, json_marshal = \<lambda>_. ''{}'', quote_arg = \<lambda>x. x,
      fs_fails = \<lambda>_ _. None, no_file = fault [] ''no such file'', not_regular = fault [] ''is a directory'', short_write = \<lambda>_. None,
      working_dir = Inr ''/'', clock_after = \<lambda>n. int n * Second, cancelled_after = \<lambda>_. None\<rparr>"

definition demo_host :: mcp_state where
  "demo_host = \<lparr>host_files = [''/in/a.jpg'' \<mapsto> Regular ''JPEG''], exchanges = [], notified = []\<rparr>"

definition demo_delivered :: db where
  "demo_delivered = snd (AddOutput Works 5 \<lparr>f_job = 5, ordinal = 0, object_key = ''out'', filename = ''out.png'', format = ''png'',
     size_bytes = 4, content_type = ''image/png''\<rparr> demo_finished)"

lemma demo_reply:
  "fst (handleGetJob demo_server (demo_api\<lparr>uuid_Parse := \<lambda>_. Some 5\<rparr>) (quiet 60) 1 txt (demo_world demo_delivered))
     = writeJSON 200 demo_job_json"
  by code_simp

lemma demo_convert:
  "map_option fst (ConvertBlocking demo_agent demo_net ''/in/a.jpg'' ''png'' [] [] False demo_host)
     = Some (Returned (Inr \<lparr>cr_JobID = ''5'', cr_DownloadURL = ''https://s3/out'', cr_LocalPath = ''/out/0-out.png''\<rparr>))"
  by code_simp

lemma map_optionSomeE: "map_option fst x = Some a \<Longrightarrow> (\<And>s'. x = Some (a, s') \<Longrightarrow> P) \<Longrightarrow> P"
  by (cases x) auto

lemma demo_status: "mcp_NewServer demo_agent demo_net (get_job_status ''5'') demo_host \<noteq> None"
  by (simp add: mcp_NewServer_def as_result_def split: prod.split)

theorem mcp_confined_witness:
  "\<exists>r s'. mcp_NewServer demo_agent demo_net (get_job_status ''5'') demo_host = Some (r, s')
     \<and> list_all (\<lambda>q. rq_auth q = Some ''ApiKey 0123456789abcdef'' \<or> rq_auth q = None) (exchanges s')"
proof -
  obtain r s' where run: "mcp_NewServer demo_agent demo_net (get_job_status ''5'') demo_host = Some (r, s')"
    using demo_status by (metis not_None_eq prod.collapse)
  have "list_all (\<lambda>q. rq_auth q = Some ''ApiKey 0123456789abcdef'' \<or> rq_auth q = None) (exchanges s')"
    using mcp_confined [OF run] by (auto simp: demo_host_def demo_agent_def list_all_iff)
  with run show ?thesis by blast
qed

theorem mcp_convert_returns_witness:
  "\<exists>r s'. ConvertBlocking demo_agent demo_net ''/in/a.jpg'' ''png'' [] [] False demo_host = Some (Returned r, s')
     \<and> length (exchanges s') \<le> 13"
proof -
  have "clock_after demo_net (Suc (length (exchanges demo_host))) + int k * mc_pollInterval demo_agent
      \<le> clock_after demo_net (Suc (Suc (length (exchanges demo_host))) + k)" for k
    by (simp add: demo_net_def demo_agent_def demo_host_def Second_def algebra_simps)
  from mcp_convert_returns [OF _ this, of "''/in/a.jpg''" "''png''" "[]" "[]" False] show ?thesis
    by (simp add: demo_agent_def demo_host_def Second_def)
qed

text \<open>A network that answers every request with 502 and a body that echoes the header.\<close>

definition echo_net :: mcp_env where
  "echo_net = demo_net\<lparr>answered := \<lambda>_ _. Inr \<lparr>ans_status = 502, ans_body = ''no route for ApiKey 0123456789abcdef'', ans_cut = None\<rparr>\<rparr>"

theorem mcp_errors_redacted_witness:
  "\<exists>e s'. GetJob demo_agent echo_net ''5'' demo_host = (Inl e, s') \<and> \<not> str_contains (Error e) ''0123456789abcdef''"
proof -
  have key: "mc_apiKey demo_agent = ''0123456789abcdef''" by (simp add: demo_agent_def)
  have k: "8 < length (mc_apiKey demo_agent)" "set (mc_apiKey demo_agent) \<inter> {CHR ''['', CHR '']'', CHR '' ''} = {}"
    by (simp_all add: key)
  have u: "unserved echo_net demo_host (job_req demo_agent ''5'') 200"
    by (simp add: unserved_def echo_net_def demo_net_def)
  obtain x s' where r: "GetJob demo_agent echo_net ''5'' demo_host = (x, s')" by force
  with u mcp_errors_redacted [OF k, THEN conjunct2, THEN conjunct1, of echo_net demo_host, unfolded key] show ?thesis
    by (metis (no_types))
qed

theorem mcp_follows_service_witness:
  "\<exists>(s'::mcp_state) job f. Get Works 5 demo_delivered = Inr job \<and> ClientID job = 1 \<and> Status job = StatusDone
     \<and> Outputs Works 5 demo_delivered = Inr [f]
     \<and> PresignGet demo_api (object_key f) (presignTTL demo_server) = Some ''https://s3/out''
     \<and> host_files s' ''/out/0-out.png'' = Some (Regular ''DATA'') \<and> host_files s' ''/in/a.jpg'' = Some (Regular ''JPEG'')"
proof -
  let ?res = "\<lparr>cr_JobID = ''5'', cr_DownloadURL = ''https://s3/out'', cr_LocalPath = ''/out/0-out.png''\<rparr>"
  let ?io = "demo_api\<lparr>uuid_Parse := \<lambda>_. Some 5\<rparr>"
  let ?w = "demo_world demo_delivered"
  obtain s' where run: "ConvertBlocking demo_agent demo_net ''/in/a.jpg'' ''png'' [] [] False demo_host = Some (Returned (Inr ?res), s')"
    using demo_convert by (elim map_optionSomeE)
  have "\<forall>k jobID resp. answered demo_net k (job_req demo_agent jobID) = Inr resp \<longrightarrow>
      carries demo_net resp (fst (handleGetJob demo_server ?io (quiet 60 :: unit schedule) 1 jobID ?w))"
    unfolding demo_reply by (auto simp: carries_def demo_net_def job_req_def api_req_def writeJSON_def)
  note res = mcp_follows_service [where sch = "\<lambda>_. quiet 60" and wd = "\<lambda>_. ?w", OF run this, THEN conjunct2]
  have q: "net_of (quiet 60 :: unit schedule) n = Works" "db_seen (quiet 60) ?w = demo_delivered"
    "db_seen (quiet 60) (after_load (quiet 60) i ?w) = demo_delivered" "uuid_Parse ?io x = Some 5" for n x i
    by (simp_all add: quiet_def demo_world_def db_seen_def after_load_def db_call_def Let_def)
  from res [THEN conjunct1, unfolded q option.inject] obtain job outs where
    job: "Get Works 5 demo_delivered = Inr job" "ClientID job = 1" "Status job = StatusDone"
      "Outputs Works 5 demo_delivered = Inr outs"
      "case outs of [] \<Rightarrow> cr_DownloadURL ?res = []
        | f # _ \<Rightarrow> PresignGet ?io (object_key f) (presignTTL demo_server) = Some (cr_DownloadURL ?res)"
    by blast
  have "map_sum (\<lambda>_. ()) length (Outputs Works 5 demo_delivered) = Inr 1" by code_simp
  with job(4,5) obtain f where f: "outs = [f]" by (auto simp: length_Suc_conv numeral_eq_Suc split: list.splits)
  have "mc_resultMode demo_agent \<noteq> ResultRemote" by (simp add: demo_agent_def ResultRemote_def ResultLocal_def)
  from res [THEN conjunct2, unfolded if_not_P [OF this]] obtain es :: "http_req list" and dl where
    dl: "answered demo_net (length es) (download_req demo_agent (cr_DownloadURL ?res)) = Inr dl"
    and fs: "host_files s' = (host_files demo_host)(cr_LocalPath ?res := Some (Regular (ans_body dl)))" by blast
  have "ans_body dl = ''DATA''" using dl by (auto simp: demo_net_def download_req_def)
  then have "host_files s' = (host_files demo_host)(''/out/0-out.png'' := Some (Regular ''DATA''))" using fs by simp
  with job f show ?thesis by (intro exI [of _ s'] exI [of _ job] exI [of _ f]) (simp add: demo_host_def)
qed

end
