(* ===== verification/Spec2Isabelle.thy ===== *)
theory Spec2Isabelle
  imports Service Routes Lifecycle Reconciler Video Engines Mcp
begin

text \<open>
  OctoConv converts files. A client uploads a file over HTTP with an API key and a target format; the
  API checks it, stores it in an object store, records a job in Postgres and enqueues a task in a
  Redis broker (asynq); the worker process of the job's engine class runs an external converter,
  stores the result and records the outcome; the client polls the job or is called back by a
  webhook; a reconciler finds jobs and webhooks that were lost and sends them again. A browser page
  (\<open>frontend\<close>) uploads and polls. This development models that program: the page and its development
  server in full, and of the service everything that decides (the checks of an upload, the database
  statements, the handlers, the workers, the reconciler), down to byte parsers and machine words.

  Theories and the code they model, in the order they build on each other.

  \<^item> \<open>Prelude\<close>: machine integers, slices and indices that panic out of range (\<open>None\<close>), prefixes.
  \<^item> \<open>Frontend\<close>: \<open>frontend/src/api.ts\<close> and \<open>App.tsx\<close>. The component is a state machine; React's effects are
    the locale \<open>react_runtime\<close>, interpreted by \<open>react_flush\<close>. Lemmas: an invariant of every reachable state,
    from which the stored key, the single timer, stale polls and the requests sent follow.
  \<^item> \<open>Entry\<close>: \<open>main.tsx\<close> and \<open>vite.config.ts\<close>, over the locales \<open>strict_root\<close> and \<open>dev_proxy\<close>.
  \<^item> \<open>Jobs\<close>: \<open>internal/jobs\<close>, \<open>internal/webhook/repo.go\<close> and their tables. A database is a record of row
    lists; a statement may lose its connection before or after it commits. The invariant \<open>db_ok\<close> ties every
    row to its event log. \<open>Lifecycle\<close> is the abstract life cycle of a job that the repository refines.
  \<^item> \<open>Formats\<close>: the converter registry of \<open>internal/convert\<close>, with a locale for registries.
  \<^item> \<open>Bytes\<close>, \<open>Dimensions\<close>, \<open>Cfb\<close>, \<open>Sniff\<close>: \<open>dimensions.go\<close>, \<open>cfb.go\<close>, \<open>sniff.go\<close>, \<open>docsniff.go\<close>, \<open>htmlsniff.go\<close>,
    \<open>audiosniff.go\<close>, \<open>avsniff.go\<close>. Each parser is shown total (no index out of range, no endless loop) and equal
    to a declarative reading of its format.
  \<^item> \<open>Opts\<close>: the conversion options, strict parsing and the stored form. \<open>Storage\<close>: the object keys.
  \<^item> \<open>Callback\<close>: the check of callback addresses, equal to membership in a list of networks.
  \<^item> \<open>Auth\<close>, \<open>Presets\<close>: \<open>internal/auth\<close>, \<open>internal/clients\<close>, \<open>internal/presets\<close>.
  \<^item> \<open>Queue\<close>: \<open>internal/queue\<close>, tasks, retry delays and the lifetime of the uniqueness lock.
  \<^item> \<open>World\<close>: a process between database and broker. A schedule gives, for every call, what other
    processes do before it, the state of the connection and the clock; \<open>polite\<close> schedules do what
    the repository allows, the \<open>quiet\<close> one nothing.
  \<^item> \<open>Worker\<close>: \<open>internal/worker\<close> and \<open>internal/webhook\<close>. \<open>Reconciler\<close>: \<open>internal/reconciler\<close>.
  \<^item> \<open>Exec\<close>: actions that may fail and are run one after the other on a state, wrapped errors, file paths;
    the locale \<open>effect\<close> carries a relation between the states before and after through a chain of actions.
  \<^item> \<open>Video\<close>: \<open>av.go\<close>, \<open>audioduration.go\<close>, \<open>avduration.go\<close>, \<open>avdiskguard.go\<close> and \<open>cgroup.go\<close>. A run of the engine is a
    result with the list of commands it started, so that what may run, and when, can be stated; \<open>filed_job\<close>
    carries the failures of the engine through the handler of \<open>Worker\<close> to the row of the job.
  \<^item> \<open>Render\<close>, \<open>Engines\<close>: the other engines, \<open>libvips.go\<close>, \<open>libreoffice.go\<close> with \<open>verapdf.go\<close>, \<open>chromium.go\<close> and
    \<open>whisper.go\<close>, over \<open>exec.go\<close>. \<open>Render\<close> is what the HTML engine writes into a page, byte by byte; \<open>Engines\<close> runs
    programs on a machine of files and started commands, and shows what a success of each engine guarantees.
  \<^item> \<open>Upload\<close>, \<open>Api\<close>, \<open>PresetApi\<close>, \<open>Routes\<close>: \<open>internal/api\<close> and \<open>internal/ratelimit\<close>. A handler is a chain of
    stages that go on, refuse with a status, or panic; no stage is ever found to panic.
  \<^item> \<open>Service\<close>: the worker processes of \<open>cmd\<close> and what the browser makes of the API's answers.
  \<^item> \<open>Mcp\<close>: \<open>internal/mcpserver\<close>, the client of the API that agents use and its tools, on the files of a host and
    the requests it sends. \<open>footprint\<close>, an interpretation of \<open>effect\<close>, bounds what a tool may touch; the polling
    loop is a partial function that is shown to return; and the status of a job is followed from the
    service's own handler into the agent's result.
  \<^item> This theory: the properties that span the page, the API and the workers.

  What the properties show. Of the page: its polling, its stored key and its requests under every
  interleaving of events. Of a job: its history is a path of the life cycle, a finished row never
  changes, recoveries are capped, and under any schedule a task is sent only for a recorded job and
  a webhook only for a finished one. Of an upload: what is admitted is what its name says, within
  the limits and runnable; 202 means object, row and one task exist. Between clients: jobs and
  presets of others can neither be seen nor changed, and without a key nothing happens. Of a
  video: it is decoded only after every guard, and the result has the codecs of its container. Of the other
  engines: a success means that the output was checked, a page is printed with its policy in place,
  and which failures are final. Of an agent: what it gets is the result of its own job, its key stays
  out of what it reports of failed requests, its files stay in its directory but for one recorded
  exception, and its waiting ends. End to end:
  an admitted upload becomes a download link in the page.

  Termination. No definition carries fuel, and only the agent's polling loop is partial: its result
  \<open>None\<close> would be a run without end, and a ticker that keeps its interval excludes it. The loops of the parsers (JPEG segments, TIFF entries, HEIC
  boxes, EBML elements) are recursive functions whose position is shown to grow towards the end of
  the buffer, and the directory chain of a compound file ends at the code's own cap on sectors;
  every other recursion is on the data. Words have the width of the Go types; times and durations
  are integers with the wrap-around of \<open>int64\<close> written out where sums are formed.

  Parameters. SHA-256 and HMAC, the ZIP directory reader, URL, address and JSON scanners, the text of
  identifiers, the object store, the broker, DNS, HTTP answers, the external programs and the file
  system they run on (\<open>process_of\<close>, \<open>os_fails\<close>; for video what \<open>ffprobe\<close> and \<open>ffmpeg\<close> answer and the rounding
  of floats), the decoding of XML and the case mapping of letters outside ASCII are arguments of the
  definitions that use them; what is used of them is a hypothesis of the property or a field of a
  record (\<open>api_io\<close>, \<open>attempt_io\<close>, \<open>webhook_io\<close>, \<open>av_env\<close>, \<open>os_env\<close>, \<open>mcp_env\<close>). The worker of \<open>Worker\<close> takes the outcome of
  a conversion as an argument, whichever engine runs. Texts are ASCII except in \<open>Frontend\<close>, where they
  are UTF-16 code units, and in \<open>Render\<close>, where they are UTF-8 bytes.

  Not modelled: the process groups and signals of \<open>exec.go\<close>; the connection pools, the MinIO client and
  the metrics, which only call libraries; the protocol of the MCP servers, an external SDK, with
  redirects and connections of the HTTP client; the entry points under \<open>cmd\<close> apart from the queues they serve; logging, indexes,
  triggers and the \<open>updated_at\<close> columns; the counters of the rate limiters and the matching of paths.
\<close>

subsection \<open>Client and service\<close>

text \<open>C7: The casts of the browser client are sound: whatever the service does (any schedule of other
  processes, any lost connection, any upload), the decoded answer to a status request is a
  \<open>JobStatusResponse\<close> and the decoded answer to an upload is a \<open>CreateJobResponse\<close>, with every
  declared field present and of its declared type, unless the promise is rejected; then it is
  rejected with an \<open>ApiError\<close> carrying the status and the server's own message, never with a
  decoding error.\<close>

theorem response_types:
  "(case parseResponse (fetched b (fst (handleGetJob srv io s cid idText w))) of
      Inr v \<Rightarrow> JobStatusResponse v
    | Inl e \<Rightarrow> \<exists>st msg. e = ApiError st (js msg) \<and> fst (handleGetJob srv io s cid idText w) = writeError st msg)
   \<and> (case fst (handleCreateJob enq c srv io s cid rq (w, store)) of
        None \<Rightarrow> False
      | Some r \<Rightarrow>
          (case parseResponse (fetched b r) of
             Inr v \<Rightarrow> CreateJobResponse v
           | Inl e \<Rightarrow> \<exists>st msg. e = ApiError st (js msg) \<and> r = writeError st msg))"
proof
  let ?get = "fst (handleGetJob srv io s cid idText w)"
  consider "refusal {400, 404, 500} ?get" | job link where "?get = status_answer io job link"
    using get_job_answer [of srv io s cid idText w] by blast
  then show "case parseResponse (fetched b ?get) of Inr v \<Rightarrow> JobStatusResponse v
    | Inl e \<Rightarrow> \<exists>st msg. e = ApiError st (js msg) \<and> ?get = writeError st msg"
    by cases (auto simp: parse_status_answer status_props(6) dest: parse_refusal [where b = b])
  obtain r where r: "fst (handleCreateJob enq c srv io s cid rq (w, store)) = Some r"
    "refusal {400, 413, 422, 500} r \<or> (\<exists>i m. r = writeJSON 202 (accepted_body io i m))"
    using create_job_answer by blast
  from r(2) have "case parseResponse (fetched b r) of Inr v \<Rightarrow> CreateJobResponse v
      | Inl e \<Rightarrow> \<exists>st msg. e = ApiError st (js msg) \<and> r = writeError st msg"
    by (auto simp: parse_accepted accepted_props dest: parse_refusal [where b = b])
  with r(1) show "case fst (handleCreateJob enq c srv io s cid rq (w, store)) of None \<Rightarrow> False
      | Some r \<Rightarrow> (case parseResponse (fetched b r) of Inr v \<Rightarrow> CreateJobResponse v
         | Inl e \<Rightarrow> \<exists>st msg. e = ApiError st (js msg) \<and> r = writeError st msg)"
    by simp
qed

text \<open>C6: The page follows the job: when a poll that is still current settles with the service's 200
  answer, the page shows the identifier and the status of that client's own row, with no error;
  polling has stopped exactly when the job is done or failed; a failure text is shown exactly for a
  failed job, and a download link only for a finished one.\<close>

theorem client_follows_job:
  assumes "react_runtime flush" and "app_reachable flush s" and "q \<in> set (polls s)" and "pc_gen q \<notin> set (cancelled s)"
    and "r_status (fst (handleGetJob srv io sch cid idText w)) = 200"
    and "s' = flush s (pollSettled q (parseResponse (fetched b (fst (handleGetJob srv io sch cid idText w)))) s)"
  shows "\<exists>i job. uuid_Parse io idText = Some i \<and> Get (net_of sch (wtick w)) i (db_seen sch w) = Inr job \<and> ClientID job = cid
    \<and> view_jobId (App_render s') = Some (JStr (js (uuid_text io i)))
    \<and> view_status (App_render s') = Some (JStr (js (Status job)))
    \<and> view_error (App_render s') = None
    \<and> (timers s' = [] \<longleftrightarrow> terminal (Status job))
    \<and> (view_failure (App_render s') \<noteq> None \<longleftrightarrow> Status job = StatusFailed)
    \<and> (view_download (App_render s') = None \<or> Status job = StatusDone)"
proof -
  have "\<not> refusal {400, 404, 500} (fst (handleGetJob srv io sch cid idText w))"
    using assms(5) by (simp add: refusal_def)
  then obtain i job link where job: "uuid_Parse io idText = Some i" "Get (net_of sch (wtick w)) i (db_seen sch w) = Inr job"
    "ClientID job = cid" and link: "link \<noteq> None \<longrightarrow> Status job = StatusDone"
    and ans: "fst (handleGetJob srv io sch cid idText w) = status_answer io job link"
    using get_job_answer [of srv io sch cid idText w] by blast
  let ?v = "js_value (num_value b) (job_body (job_fields io job @ extra_fields link job))"
  have "s' = flush s (pollSettled q (Inr ?v) s)" using assms(6) by (simp add: ans parse_status_answer)
  from react_runtime.poll_result [OF assms(1-4) this]
  have shown: "jobv s' = ?v" "appError s' = None" "timers s' = [] \<longleftrightarrow> terminal (Status job)"
    by (simp_all add: status_stops)
  have "ID job = i" using job(2) by (rule Get_ID)
  with job link shown shown_status [OF shown(1,2)] show ?thesis
    by (intro exI [of _ i] exI [of _ job]) (auto split: option.splits)
qed

theorem client_follows_job_witness:
  "\<exists>s'. view_status (App_render s') = Some (JStr (js ''active'')) \<and> timers s' \<noteq> []"
proof -
  let ?io = "demo_api\<lparr>uuid_Parse := \<lambda>_. Some 5\<rparr>" and ?w = "demo_world demo_active"
  let ?get = "fst (handleGetJob demo_server ?io (quiet 60) 1 ''5'' ?w)"
  have "map_option (\<lambda>j. (status j, client_id j)) (find_job 5 demo_active) = Some (StatusActive, Some 1)"
    by code_simp
  then obtain j where j: "find_job 5 demo_active = Some j" "status j = StatusActive" "client_id j = Some 1" by auto
  then have get: "Get Works 5 demo_active = Inr (job_of_row j)" by (simp add: Get_def)
  then have ok: "r_status ?get = 200"
    using j by (simp add: handleGetJob_def quiet_db_call demo_world_def job_of_row_def status_defs writeJSON_def)
  have poll: "demo_closure \<in> set (polls demo_pending)" "pc_gen demo_closure \<notin> set (cancelled demo_pending)"
    by (simp_all add: demo_defs)
  define s' where "s' = react_flush demo_pending
      (pollSettled demo_closure (parseResponse (fetched undefined ?get)) demo_pending)"
  obtain i job where i: "uuid_Parse ?io ''5'' = Some i"
    and job: "Get (net_of (quiet 60 :: unit schedule) (wtick ?w)) i (db_seen (quiet 60) ?w) = Inr job"
    and shown: "view_status (App_render s') = Some (JStr (js (Status job)))" "timers s' = [] \<longleftrightarrow> terminal (Status job)"
    using client_follows_job [OF dom.react_runtime_axioms demo_pending_reachable poll ok s'_def] by blast
  have "Status job = StatusActive"
    using i job get j(2) by (auto simp: quiet_def db_seen_def demo_world_def job_of_row_def)
  with shown show ?thesis by (auto simp: terminal_def status_defs)
qed

text \<open>C5: An upload becomes a download. On a quiet service, when an upload passes the checks of the API, its
  object is stored and its preset unchanged, then: the request is answered 202 with the identifier
  of the new job; exactly one task is sent; the worker process that consumes this task's queue has a
  handler for its type, and running it in a run where nothing outside fails succeeds, whatever the
  engine class and the options; and the next status request of the client who uploaded decodes in
  the browser to a finished job, at which polling stops, with a link to the result stored under the
  job's own key in the requested format.\<close>

theorem upload_to_download:
  fixes w :: "'q world"
  assumes plan: "plan_job srv io cid rq = Go jp"
    and put: "put_plan io jp store = (True, store')" and stored: "store' (plan_key io jp) \<noteq> None"
    and recheck: "recheck_preset io cid jp = Go ()"
    and cid: "cid \<in> set (client_ids (wdb w))" and un: "unused (uuid_New io) (wdb w)"
    and broker: "\<forall>t q. fst (enq t q) = Inr ()" and run: "good_run wio store'"
    and ids: "uuid_Parse io (uuid_text io (uuid_New io)) = Some (uuid_New io)"
    and link: "PresignGet io (OutputKey (io_uuid wio) (uuid_New io) 0 (''out.'' @ jp_target jp)) (presignTTL srv) = Some u"
  shows "\<exists>w1 t h w2 v.
      handleCreateJob enq c srv io (quiet t0) cid rq (w, store)
        = (Some (writeJSON 202 (accepted_body io (uuid_New io) (jp_opts jp))), w1, store')
    \<and> wsent w1 = wsent w @ [t]
    \<and> serve t = Some h \<and> h enq c (quiet t1) wio (task_payload t) w1 = (Success, w2)
    \<and> parseResponse (fetched b (fst (handleGetJob srv io (quiet t2) cid (uuid_text io (uuid_New io)) w2))) = Inr v
    \<and> pollingStops v \<and> get_prop v ''status'' = JStr (js StatusDone)
    \<and> get_prop v ''download_url'' = JStr (js u)"
proof -
  let ?i = "uuid_New io" and ?p = "plan_params io cid jp"
  obtain cv t where cv: "Lookup Default (jp_detected jp) (jp_target jp) = Some cv"
    and t: "created_task c (jp_engine jp) ?i = Some t" and opts: "readable_opts (jp_engine jp) (stored_opts jp)"
    using plan_runnable [OF plan] by blast
  obtain hc where hc: "(serve t :: 'q handler option) = Some (convert_handler hc)" "task_payload t = Some ?i"
    "\<And>m. readable_opts (jp_engine jp) m \<Longrightarrow> h_opts hc m"
    using serve_created [OF t] by blast
  obtain w1 where w1: "handleCreateJob enq c srv io (quiet t0) cid rq (w, store)
      = (Some (writeJSON 202 (accepted_body io ?i (jp_opts jp))), w1, store')"
    "wsent w1 = wsent w @ [t]" "find_job ?i (wdb w1) = Some (new_job t0 ?i ?p)"
    "Inputs Works ?i (wdb w1) = Inr [p_Input ?p]" "outputs_tbl (wdb w1) = outputs_tbl (wdb w)"
    using quiet_create [OF plan put recheck t cid un] broker by blast
  let ?j = "new_job t0 ?i ?p"
  have row: "status ?j = StatusQueued" "options ?j = stored_opts jp" "client_id ?j = Some cid"
    and job: "SourceFormat (job_of_row ?j) = jp_detected jp" "TargetFormat (job_of_row ?j) = jp_target jp"
      "ID (job_of_row ?j) = ?i"
    by (simp_all add: new_job_def plan_params_def job_of_row_def deref_def stored_opts_def)
  have "object_key (p_Input ?p) = plan_key io jp" by (simp add: plan_params_def)
  then obtain n where eng: "run_engine wio (job_of_row ?j) (p_Input ?p) = Inr (result_row wio ?i (jp_target jp) n)"
    using good_run_engine [OF run, of "p_Input ?p" "job_of_row ?j"] stored cv job by auto
  obtain w2 j' where w2: "convert_handler hc enq c (quiet t1) wio (Some ?i) w1 = (Success, w2)"
    "outputs_tbl (wdb w2) = outputs_tbl (wdb w) @ [result_row wio ?i (jp_target jp) n]"
    "find_job ?i (wdb w2) = Some j'" "status j' = StatusDone" "row_frame ?j j'"
    using successful_attempt_db [OF w1(3) _ _ w1(4) eng, of hc enq c t1] row opts hc(3) w1(5)
    by (auto simp: result_row_def)
  have owner: "client_id j' = Some cid" using w2(5) row(3) by (simp add: row_frame_def)
  have "fst (handleGetJob srv io (quiet t2) cid (uuid_text io ?i) w2) = status_answer io (job_of_row j') (Some u)"
    by (rule quiet_get_done [OF ids w2(3,4) owner w2(2)])
      (use un link in \<open>simp_all add: unused_def result_row_def\<close>)
  moreover have "Status (job_of_row j') = StatusDone" using w2(4) by (simp add: job_of_row_def)
  ultimately have "\<exists>v. parseResponse (fetched b (fst (handleGetJob srv io (quiet t2) cid (uuid_text io ?i) w2))) = Inr v
      \<and> pollingStops v \<and> get_prop v ''status'' = JStr (js StatusDone) \<and> get_prop v ''download_url'' = JStr (js u)"
    by (simp add: parse_status_answer status_stops status_props terminal_def)
  then show ?thesis
    using w1(1,2) hc(1) w2(1) unfolding hc(2) [symmetric] by blast
qed

theorem upload_to_download_witness:
  "\<exists>(w1 :: unit world) t h w2 v.
      wsent w1 = [t] \<and> serve t = Some h
    \<and> h (\<lambda>t q. (Inr (), q)) demo_client (quiet 60) (demo_io None) (task_payload t) w1 = (Success, w2)
    \<and> parseResponse (fetched undefined (fst (handleGetJob demo_server demo_api (quiet 70) 3 (uuid_text demo_api 7) w2))) = Inr v
    \<and> get_prop v ''download_url'' = JStr (js (''https://s3/'' @ OutputKey (io_uuid (demo_io None)) 7 0 ''out.webp''))"
proof -
  let ?w = "demo_world (empty_db [3])"
  have io: "uuid_New demo_api = 7" "uuid_Parse demo_api x = Some 7" "PresignGet demo_api k ttl = Some (''https://s3/'' @ k)"
    for x k ttl by (simp_all add: demo_api_def)
  have w: "3 \<in> set (client_ids (wdb ?w))" "unused (uuid_New demo_api) (wdb ?w)" "wsent ?w = []"
    by (simp_all add: demo_world_def empty_db_def unused_def find_job_def io)
  have run: "good_run (demo_io None) st" for st by (simp add: good_run_def demo_io_def)
  have target: "''out.'' @ jp_target demo_plan = ''out.webp''" by (simp add: demo_plan_def)
  have "uuid_Parse demo_api (uuid_text demo_api (uuid_New demo_api)) = Some (uuid_New demo_api)"
    "\<forall>t q. fst (((\<lambda>t q. (Inr (), q)) :: unit broker) t q) = Inr ()"
    "(Map.empty(plan_key demo_api demo_plan \<mapsto> (demo_png, MIMEType ''png''))) (plan_key demo_api demo_plan) \<noteq> None"
    by (simp_all add: io)
  note journey = upload_to_download [OF demo_plan_job demo_put(1) this(3) demo_put(2) w(1,2) this(2) run this(1),
      unfolded target io w(3), OF refl, where c = demo_client and ?t0.0 = 50 and ?t1.0 = 60 and ?t2.0 = 70 and b = undefined]
  from journey show ?thesis unfolding append_Nil by blast
qed

text \<open>C19: What the page sends, the service understands. A key as the service generates it, pasted with any
  white space around it, is trimmed to itself; the header the client builds from it is ASCII, is
  parsed back to the key and is let through for the client the key belongs to; and the target field
  of an upload is one the registry serves from every image format but itself.\<close>

theorem client_requests_understood:
  assumes "GenerateKey (Some buf) = Some k" and "length buf = 32"
    and "\<forall>c \<in> set (pre @ post). is_js_space c"
    and "GetByKeyHash Works (HashKey sha256 salt k) d = Inr cl"
    and "q = createJob_request (jtrim (pre @ js k @ post)) f t"
  shows "\<exists>h field. req_auth q = js h \<and> Middleware (ResolveClient sha256 salt Works d) h = Next cl
    \<and> req_target q = Some field
    \<and> (\<forall>src \<in> set imageFormats. src = field \<or> EngineFor Default src field = Some EngineImage)"
proof (intro exI conjI ballI)
  have q: "q = createJob_request (js k) f t" using assms(5) generated_trimmed [OF assms(1-3)] by simp
  then show "req_auth q = js (''ApiKey '' @ k)"
    by (simp add: createJob_request_def authHeaders_def js_def)
  show "Middleware (ResolveClient sha256 salt Works d) (''ApiKey '' @ k) = Next cl"
    using Parse_plain generated_plain [OF assms(1,2)] assms(4) by (simp add: Middleware_def ResolveClient_def)
  show "req_target q = Some (targetFormat_text t)" by (simp add: q createJob_request_def)
  show "src = targetFormat_text t \<or> EngineFor Default src (targetFormat_text t) = Some EngineImage"
    if "src \<in> set imageFormats" for src
    using target_supported [OF that] by blast
qed

theorem client_requests_understood_witness:
  "\<exists>k h. GenerateKey (Some (replicate 32 0)) = Some k
    \<and> authHeaders (jtrim ([0x20] @ js k @ [0xA])) = js h
    \<and> Middleware (ResolveClient (\<lambda>bs. bs) [1] Works
        (snd (clients_Create Works 5 ''acme'' (HashKey (\<lambda>bs. bs) [1] k) []))) h = Next \<lparr>cl_ID = 5, cl_Name = ''acme''\<rparr>"
proof -
  obtain k where k: "GenerateKey (Some (replicate 32 0)) = Some k" by (simp add: GenerateKey_def)
  let ?h = "HashKey (\<lambda>bs. bs) [1] k"
  have "GetByKeyHash Works ?h (snd (clients_Create Works 5 ''acme'' ?h [])) = Inr \<lparr>cl_ID = 5, cl_Name = ''acme''\<rparr>"
    by (simp add: clients_Create_def run_tx_def GetByKeyHash_def active_key_def)
  moreover have "\<forall>c \<in> set ([0x20 :: u16] @ [0xA]). is_js_space c" by (simp add: is_js_space_def)
  ultimately show ?thesis
    using client_requests_understood [OF k _ _ _ refl, of "[0x20]" "[0xA]" "\<lambda>bs. bs" "[1]"] k
    by (fastforce simp: createJob_request_def)
qed

end
